(* ===== verification/UMC_Prelude.thy ===== *)
theory UMC_Prelude
  imports Main "HOL-Library.AList" "HOL-Library.Multiset" "HOL-Library.Sublist"
begin

text \<open>
  Prelude of the development: the theorem collections the components fill, the model of Go's
  maps (association lists, read with \<^const>\<open>map_of\<close> and written with \<^const>\<open>AList.update\<close>, so
  that a \<^verbatim>\<open>range\<close> loop has an explicit iteration order that the theorems can quantify over), the
  generic facts on lists, options and maps that several components use, and the interfaces of keyed
  stores and of transition systems.
\<close>

section \<open>Theorem collections\<close>

named_theorems label_simps \<open>evaluation rules of the label structures\<close>
named_theorems quantity_simps \<open>values of the arithmetic on quantities\<close>
named_theorems cache_simps \<open>what a lookup returns after each cache operation\<close>
named_theorems sampler_simps \<open>projections of the sampler's sample records\<close>

section \<open>Go maps\<close>

type_synonym ('k, 'v) gomap = "('k \<times> 'v) list"
type_synonym strmap = "(string, string) gomap"

definition gget :: "'v \<Rightarrow> ('k, 'v) gomap \<Rightarrow> 'k \<Rightarrow> 'v" where
  "gget z m k = (case map_of m k of None \<Rightarrow> z | Some v \<Rightarrow> v)"

abbreviation sget :: "strmap \<Rightarrow> string \<Rightarrow> string" where
  "sget \<equiv> gget ''''"

definition ghas :: "('k, 'v) gomap \<Rightarrow> 'k \<Rightarrow> bool" where
  "ghas m k \<longleftrightarrow> map_of m k \<noteq> None"

definition gomap_wf :: "('k, 'v) gomap \<Rightarrow> bool" where
  "gomap_wf m \<longleftrightarrow> distinct (map fst m)"

lemma gget_Nil [simp]: "gget z [] k = z"
  by (simp add: gget_def)

lemma gget_Cons [simp]: "gget z ((k', v) # m) k = (if k = k' then v else gget z m k)"
  by (simp add: gget_def)

lemma gget_update [simp]:
  "gget z (AList.update k v m) k' = (if k' = k then v else gget z m k')"
  by (simp add: gget_def update_conv')

lemma map_of_update [simp]: "map_of (AList.update k v m) = (map_of m)(k \<mapsto> v)"
  by (simp add: update_conv')

lemma map_of_delete [simp]: "map_of (AList.delete k m) = (map_of m)(k := None)"
  by (simp add: delete_conv')

lemma gomap_wf_Nil [simp, intro]: "gomap_wf []"
  by (simp add: gomap_wf_def)

lemma gomap_wf_update [simp, intro]: "gomap_wf m \<Longrightarrow> gomap_wf (AList.update k v m)"
  by (simp add: gomap_wf_def distinct_update)

lemma gomap_wf_delete [simp, intro]: "gomap_wf m \<Longrightarrow> gomap_wf (AList.delete k m)"
  by (simp add: gomap_wf_def distinct_delete)

lemma gomap_wf_filter [simp, intro]: "gomap_wf m \<Longrightarrow> gomap_wf (filter P m)"
  by (induction m) (auto simp: gomap_wf_def)

text \<open>Two iteration orders of one map: the same lookups and no duplicate key.\<close>

lemma gomap_wf_eq_mset:
  assumes "gomap_wf m" "gomap_wf m'" "map_of m = map_of m'"
  shows "mset m = mset m'"
proof -
  have "set m = set m'"
    using assms map_of_inject_set by (metis gomap_wf_def)
  moreover have "distinct m" "distinct m'"
    using assms(1,2) by (auto simp: gomap_wf_def distinct_map)
  ultimately show ?thesis by (simp add: set_eq_iff_mset_eq_distinct)
qed

section \<open>Lists\<close>

definition last_n :: "nat \<Rightarrow> 'a list \<Rightarrow> 'a list" where
  "last_n n xs = drop (length xs - n) xs"

lemma length_last_n [simp]: "length (last_n n xs) = min n (length xs)"
  by (simp add: last_n_def)

lemma last_n_all [simp]: "length xs \<le> n \<Longrightarrow> last_n n xs = xs"
  by (simp add: last_n_def)

lemma set_last_n_subset: "set (last_n n xs) \<subseteq> set xs"
  by (simp add: last_n_def set_drop_subset)

lemma last_n_snoc: "last_n n (last_n n xs @ [x]) = last_n n (xs @ [x])"
proof (cases "length xs \<le> n")
  case True
  then show ?thesis by simp
next
  case False
  then have "Suc (length xs) - (length xs - n + n) + (length xs - n) = Suc (length xs) - n"
    by arith
  with False show ?thesis by (simp add: last_n_def)
qed

lemma last_n_append: "last_n n (last_n n xs @ ys) = last_n n (xs @ ys)"
proof (induction ys arbitrary: xs)
  case Nil
  show ?case by (simp add: last_n_def)
next
  case (Cons y ys)
  have "last_n n (last_n n xs @ y # ys) = last_n n ((last_n n xs @ [y]) @ ys)"
    by simp
  also have "\<dots> = last_n n (last_n n (last_n n xs @ [y]) @ ys)"
    by (rule Cons.IH [symmetric])
  also have "\<dots> = last_n n (last_n n (xs @ [y]) @ ys)"
    by (simp only: last_n_snoc)
  also have "\<dots> = last_n n ((xs @ [y]) @ ys)"
    by (rule Cons.IH)
  finally show ?case by simp
qed

lemma sum_list_map_filter_partition:
  fixes f :: "'a \<Rightarrow> 'b :: comm_monoid_add"
  shows "sum_list (map f xs) = sum_list (map f (filter P xs)) + sum_list (map f (filter (\<lambda>x. \<not> P x) xs))"
  by (induction xs) (auto simp: ac_simps)

lemma sum_list_concat_map:
  fixes f :: "'a \<Rightarrow> 'b :: comm_monoid_add"
  shows "sum_list (map f (concat xss)) = sum_list (map (\<lambda>xs. sum_list (map f xs)) xss)"
  by (induction xss) auto

lemma map_fst_update_dom: "fst ` set (AList.update k v m) = insert k (fst ` set m)"
  by (simp add: dom_update)

lemma foldl_snoc_map: "foldl (\<lambda>out x. out @ [f x]) out xs = out @ map f xs"
  by (induction xs arbitrary: out) simp_all

lemma gomap_wf_mem_iff: "gomap_wf m \<Longrightarrow> (k, v) \<in> set m \<longleftrightarrow> map_of m k = Some v"
  by (simp add: gomap_wf_def)

section \<open>Loops that may fail\<close>

lemma set_delete_subset: "set (AList.delete k m) \<subseteq> set m"
  by (auto simp: AList.delete_eq)

lemma map_filter_mem: "y \<in> set (List.map_filter f xs) \<longleftrightarrow> (\<exists>x \<in> set xs. f x = Some y)"
  by (induction xs) (auto simp: map_filter_simps split: option.splits)

lemma sorted_wrt_last: "sorted_wrt R xs \<Longrightarrow> x \<in> set xs \<Longrightarrow> R x (last xs) \<or> x = last xs"
  by (induction xs) auto

lemma map_of_rev_unique:
  assumes "\<And>v'. (k, v') \<in> set kvs \<longleftrightarrow> u = Some v'"
  shows "map_of (rev kvs) k = u"
proof (cases "map_of (rev kvs) k")
  case None
  then have "\<forall>v'. (k, v') \<notin> set kvs" by (force simp: map_of_eq_None_iff)
  with assms None show ?thesis by (cases u) auto
next
  case (Some v)
  then have "(k, v) \<in> set kvs" using map_of_SomeD by fastforce
  with assms Some show ?thesis by simp
qed

lemma find_append: "find P (xs @ ys) = (case find P xs of None \<Rightarrow> find P ys | Some x \<Rightarrow> Some x)"
  by (induction xs) auto

lemma find_SomeD: "find P xs = Some x \<Longrightarrow> x \<in> set xs \<and> P x"
  by (induction xs) (auto split: if_splits)

fun ofold :: "('s \<Rightarrow> 'a \<Rightarrow> 's option) \<Rightarrow> 's \<Rightarrow> 'a list \<Rightarrow> 's option" where
  "ofold f s [] = Some s"
| "ofold f s (x # xs) = Option.bind (f s x) (\<lambda>s'. ofold f s' xs)"

lemma ofold_total: "(\<And>s x. x \<in> set xs \<Longrightarrow> f s x = Some (g s x)) \<Longrightarrow> ofold f s xs = Some (foldl g s xs)"
  by (induction xs arbitrary: s) simp_all

section \<open>Grouping\<close>

text \<open>
  The loop that appends the values of every entry to the group of its new key; entries without a new key
  are dropped.
\<close>

definition group_step :: "('a \<Rightarrow> 'k option) \<Rightarrow> ('k, 'v list) gomap \<Rightarrow> 'a \<times> 'v list \<Rightarrow> ('k, 'v list) gomap" where
  "group_step f idx e =
     (case f (fst e) of None \<Rightarrow> idx | Some k \<Rightarrow> AList.update k (gget [] idx k @ snd e) idx)"

definition group_by :: "('a \<Rightarrow> 'k option) \<Rightarrow> ('a \<times> 'v list) list \<Rightarrow> ('k, 'v list) gomap" where
  "group_by f es = foldl (group_step f) [] es"

definition group_of :: "('a \<Rightarrow> 'k option) \<Rightarrow> 'k \<Rightarrow> ('a \<times> 'v list) list \<Rightarrow> 'v list" where
  "group_of f k es = concat (map snd (filter (\<lambda>e. f (fst e) = Some k) es))"

lemma group_by_Nil [simp]: "group_by f [] = []"
  and group_by_snoc: "group_by f (es @ [e]) = group_step f (group_by f es) e"
  by (simp_all add: group_by_def)

lemma group_of_append [simp]: "group_of f k (es @ es') = group_of f k es @ group_of f k es'"
  by (simp add: group_of_def)

lemma gomap_wf_group_by [simp]: "gomap_wf (group_by f es)"
  by (induction es rule: rev_induct) (auto simp: group_by_snoc group_step_def split: option.split)

lemma gget_group_by: "gget [] (group_by f es) k = group_of f k es"
  by (induction es rule: rev_induct)
    (auto simp: group_by_snoc group_step_def group_of_def split: option.split)

lemma keys_group_by: "fst ` set (group_by f es) = {k. \<exists>e \<in> set es. f (fst e) = Some k}"
  by (induction es rule: rev_induct)
    (auto simp: group_by_snoc group_step_def dom_update split: option.split)

lemma map_of_group_by:
  "map_of (group_by f es) k = (if \<exists>e \<in> set es. f (fst e) = Some k then Some (group_of f k es) else None)"
proof (cases "map_of (group_by f es) k")
  case None
  then have "k \<notin> fst ` set (group_by f es)" by (simp add: map_of_eq_None_iff)
  with None show ?thesis by (auto simp: keys_group_by)
next
  case (Some v)
  then have "k \<in> fst ` set (group_by f es)" by (metis domI dom_map_of_conv_image_fst)
  moreover have "v = group_of f k es" using Some gget_group_by [of f es k] by (simp add: gget_def)
  ultimately show ?thesis using Some by (auto simp: keys_group_by)
qed

text \<open>Nothing is lost or duplicated: the groups together hold the values of the entries that have a key.\<close>

lemma sum_update_group:
  fixes h :: "'v list \<Rightarrow> 'b :: comm_monoid_add"
  assumes "gomap_wf m" "h [] = 0" "h (gget [] m k @ v) = h (gget [] m k) + h v"
  shows "sum_list (map (\<lambda>e. h (snd e)) (AList.update k (gget [] m k @ v) m)) = sum_list (map (\<lambda>e. h (snd e)) m) + h v"
  using assms
proof (induction m)
  case (Cons e m)
  obtain k' w where e: "e = (k', w)" by (cases e)
  show ?case
  proof (cases "k = k'")
    case True
    with Cons.prems show ?thesis by (simp add: e ac_simps)
  next
    case False
    with Cons show ?thesis by (simp add: e gomap_wf_def ac_simps)
  qed
qed simp

lemma sum_group_by:
  fixes h :: "'v list \<Rightarrow> 'b :: comm_monoid_add"
  assumes "h [] = 0" "\<And>x y. h (x @ y) = h x + h y"
  shows "sum_list (map (\<lambda>e. h (snd e)) (group_by f es)) = sum_list (map (\<lambda>e. h (snd e)) (filter (\<lambda>e. f (fst e) \<noteq> None) es))"
  by (induction es rule: rev_induct)
    (auto simp: group_by_snoc group_step_def assms sum_update_group [OF gomap_wf_group_by] split: option.split)

text \<open>Regrouping groups is grouping by the composed key.\<close>

lemma group_of_group_by:
  assumes "\<And>a k. f a = Some k \<Longrightarrow> g k = h a" "\<And>a. f a = None \<Longrightarrow> h a = None"
  shows "mset (group_of g k (group_by f es)) = mset (group_of h k es)"
proof -
  let ?H = "\<lambda>es. sum_list (map (\<lambda>e. mset (snd e)) (filter (\<lambda>e. g (fst e) = Some k) es))"
  have split: "mset (group_of g' k es) = sum_list (map (\<lambda>e. mset (snd e)) (filter (\<lambda>e. g' (fst e) = Some k) es))"
    for g' :: "_ \<Rightarrow> _ option" and es by (simp add: group_of_def mset_concat comp_def)
  have upd: "?H (AList.update k' (gget [] m k' @ v) m) = ?H m + (if g k' = Some k then mset v else {#})"
    if "gomap_wf m" for m k' v
    using that
    by (induction m) (auto simp: gomap_wf_def ac_simps)
  have "?H (group_by f es) = sum_list (map (\<lambda>e. mset (snd e)) (filter (\<lambda>e. h (fst e) = Some k) es))"
  proof (induction es rule: rev_induct)
    case (snoc e es)
    show ?case
    proof (cases "f (fst e)")
      case None
      with snoc assms(2) show ?thesis by (simp add: group_by_snoc group_step_def)
    next
      case (Some k')
      with assms(1) have "g k' = h (fst e)" by simp
      with snoc Some show ?thesis by (simp add: group_by_snoc group_step_def upd)
    qed
  qed simp
  then show ?thesis by (simp add: split)
qed

section \<open>Stores\<close>

text \<open>What a store promises: a lookup finds what was put last under the key. Folding puts, the last entry of a key wins.\<close>

locale keyed_store =
  fixes get :: "'s \<Rightarrow> 'k \<Rightarrow> 'r option"
    and put :: "'k \<Rightarrow> 'r \<Rightarrow> 's \<Rightarrow> 's"
  assumes get_put: "get (put k r s) k' = (if k' = k then Some r else get s k')"
begin

lemma get_puts:
  "get (foldl (\<lambda>s (k, r). put k r s) s krs) k' = (case map_of (rev krs) k' of Some r \<Rightarrow> Some r | None \<Rightarrow> get s k')"
  by (induction krs arbitrary: s) (auto simp: get_put map_add_def split: option.splits)

lemma get_puts_other:
  "k' \<notin> fst ` set krs \<Longrightarrow> get (foldl (\<lambda>s (k, r). put k r s) s krs) k' = get s k'"
  by (induction krs arbitrary: s) (auto simp: get_put)

end

interpretation alist: keyed_store map_of AList.update
  by unfold_locales simp

section \<open>Transition systems\<close>

text \<open>
  What a state machine of the development promises: the states it reaches are those that finitely many steps lead to from
  a starting state. What holds at the start and is kept by every step holds in them; what no step changes is as at the start.
\<close>

locale transition_system =
  fixes start :: "'s \<Rightarrow> bool"
    and step :: "'s \<Rightarrow> 's \<Rightarrow> bool"
    and reachable :: "'s \<Rightarrow> bool"
  assumes reachable_steps: "reachable s \<longleftrightarrow> (\<exists>s0. start s0 \<and> step\<^sup>*\<^sup>* s0 s)"
begin

lemma invariant:
  assumes "reachable s" "\<And>s. start s \<Longrightarrow> I s" "\<And>s s'. step s s' \<Longrightarrow> I s \<Longrightarrow> I s'"
  shows "I s"
proof -
  obtain s0 where s0: "start s0" "step\<^sup>*\<^sup>* s0 s" using assms(1) by (auto simp: reachable_steps)
  from s0(2) show ?thesis by (induction rule: rtranclp_induct) (auto intro: assms(2,3) s0(1))
qed

lemma unchanged:
  assumes "reachable s" "\<And>s s'. step s s' \<Longrightarrow> f s' = f s"
  shows "\<exists>s0. start s0 \<and> f s = f s0"
  using assms(1) by (rule invariant) (auto simp: assms(2))

end

text \<open>The form in which the components define the states they reach.\<close>

lemma reachable_by_steps:
  assumes "\<And>s. start s \<Longrightarrow> reachable s" "\<And>s s'. reachable s \<Longrightarrow> step s s' \<Longrightarrow> reachable s'"
    and "\<And>P s. reachable s \<Longrightarrow> (\<And>s. start s \<Longrightarrow> P s) \<Longrightarrow> (\<And>s s'. P s \<Longrightarrow> step s s' \<Longrightarrow> P s') \<Longrightarrow> P s"
  shows "transition_system start step reachable"
proof
  fix s
  have "reachable s" if "start s0" "step\<^sup>*\<^sup>* s0 s" for s0
    using that(2) by (induction rule: rtranclp_induct) (auto intro: assms(1,2) that(1))
  moreover have "\<exists>s0. start s0 \<and> step\<^sup>*\<^sup>* s0 s" if "reachable s"
    using that by (rule assms(3)) (auto intro: rtranclp.rtrancl_into_rtrancl)
  ultimately show "reachable s \<longleftrightarrow> (\<exists>s0. start s0 \<and> step\<^sup>*\<^sup>* s0 s)" by blast
qed

end
