(* ===== verification/Go_Runtime.thy ===== *)
theory Go_Runtime
  imports UMC_Prelude "HOL-Library.Word"
begin

text \<open>
  The part of Go and its standard library that the sources use: \<^verbatim>\<open>strings\<close>, \<^verbatim>\<open>path/filepath\<close>,
  \<^verbatim>\<open>time\<close>, and fixed width integers. A string is the list of its bytes. A \<^verbatim>\<open>uint64\<close>
  is a \<^typ>\<open>64 word\<close>; an \<^verbatim>\<open>int64\<close> is the \<^typ>\<open>int\<close> it denotes and the conversion from
  \<^verbatim>\<open>uint64\<close> is \<^term>\<open>sint\<close>.
\<close>

section \<open>Strings\<close>

definition HasPrefix :: "string \<Rightarrow> string \<Rightarrow> bool" where
  "HasPrefix s p \<longleftrightarrow> take (length p) s = p"

definition HasSuffix :: "string \<Rightarrow> string \<Rightarrow> bool" where
  "HasSuffix s p \<longleftrightarrow> length p \<le> length s \<and> drop (length s - length p) s = p"

definition TrimPrefix :: "string \<Rightarrow> string \<Rightarrow> string" where
  "TrimPrefix s p = (if HasPrefix s p then drop (length p) s else s)"

definition TrimSuffix :: "string \<Rightarrow> string \<Rightarrow> string" where
  "TrimSuffix s p = (if HasSuffix s p then take (length s - length p) s else s)"

fun IndexOf :: "string \<Rightarrow> string \<Rightarrow> nat option" where
  "IndexOf [] p = (if p = [] then Some 0 else None)"
| "IndexOf (c # s) p = (if HasPrefix (c # s) p then Some 0 else map_option Suc (IndexOf s p))"

definition Contains :: "string \<Rightarrow> string \<Rightarrow> bool" where
  "Contains s p \<longleftrightarrow> IndexOf s p \<noteq> None"

fun SplitChar :: "char \<Rightarrow> string \<Rightarrow> string list" where
  "SplitChar c [] = [[]]"
| "SplitChar c (x # xs) =
     (if x = c then [] # SplitChar c xs
      else (case SplitChar c xs of [] \<Rightarrow> [[x]] | w # ws \<Rightarrow> (x # w) # ws))"

fun ReplaceChar :: "char \<Rightarrow> string \<Rightarrow> string \<Rightarrow> string" where
  "ReplaceChar c new [] = []"
| "ReplaceChar c new (x # xs) = (if x = c then new else [x]) @ ReplaceChar c new xs"

definition char_lower :: "char \<Rightarrow> char" where
  "char_lower c = (let n = of_char c :: nat in if 65 \<le> n \<and> n \<le> 90 then char_of (n + 32) else c)"

definition ToLower :: "string \<Rightarrow> string" where
  "ToLower s = map char_lower s"

text \<open>\<^verbatim>\<open>fmt.Sprintf("%v", b)\<close> of a bool.\<close>

definition sprint_bool :: "bool \<Rightarrow> string" where
  "sprint_bool b = (if b then ''true'' else ''false'')"

fun join_with :: "string \<Rightarrow> string list \<Rightarrow> string" where
  "join_with sep [] = []"
| "join_with sep [s] = s"
| "join_with sep (s # t # ss) = s @ sep @ join_with sep (t # ss)"

text \<open>
  \<^verbatim>\<open>filepath.Base\<close>: trailing slashes are dropped before the last element is taken. \<^verbatim>\<open>filepath.Dir\<close> of an
  absolute path: everything before the last slash, cleaned (empty and dot elements go, dot-dot elements
  take the preceding element with them).
\<close>

definition filepath_Base :: "string \<Rightarrow> string" where
  "filepath_Base p =
     (if p = '''' then ''.''
      else let q = rev (dropWhile (\<lambda>c. c = CHR ''/'') (rev p))
           in if q = '''' then ''/'' else last (SplitChar (CHR ''/'') q))"

fun clean_abs :: "string list \<Rightarrow> string list \<Rightarrow> string list" where
  "clean_abs acc [] = rev acc"
| "clean_abs acc (w # ws) =
     (if w = '''' \<or> w = ''.'' then clean_abs acc ws
      else if w = ''..'' then clean_abs (tl acc) ws
      else clean_abs (w # acc) ws)"

definition filepath_Dir_abs :: "string \<Rightarrow> string" where
  "filepath_Dir_abs p = ''/'' @ join_with ''/'' (clean_abs [] (butlast (SplitChar (CHR ''/'') p)))"

lemma HasPrefix_append [simp]: "HasPrefix (p @ s) p"
  by (simp add: HasPrefix_def)

lemma TrimPrefix_append [simp]: "TrimPrefix (p @ s) p = s"
  by (simp add: TrimPrefix_def)

lemma HasPrefix_iff: "HasPrefix s p \<longleftrightarrow> (\<exists>t. s = p @ t)"
  by (metis HasPrefix_def HasPrefix_append append_take_drop_id)

lemma SplitChar_nonempty [simp]: "SplitChar c s \<noteq> []"
  by (induction s) (auto split: list.splits)

section \<open>Time\<close>

text \<open>
  A \<^verbatim>\<open>time.Time\<close> is the number of nanoseconds since the zero \<^verbatim>\<open>Time\<close> (so \<^verbatim>\<open>IsZero\<close> is equality with
  0); a \<^verbatim>\<open>time.Duration\<close> is a number of nanoseconds that fits an \<^verbatim>\<open>int64\<close>, and \<^verbatim>\<open>Time.Sub\<close>
  saturates at its bounds.
\<close>

type_synonym gotime = int
type_synonym duration = int

definition max_duration :: duration where "max_duration = 2 ^ 63 - 1"
definition min_duration :: duration where "min_duration = - (2 ^ 63)"

definition IsZero :: "gotime \<Rightarrow> bool" where
  "IsZero t \<longleftrightarrow> t = 0"

definition time_sub :: "gotime \<Rightarrow> gotime \<Rightarrow> duration" where
  "time_sub t u = max min_duration (min max_duration (t - u))"

definition Second :: duration where "Second = 10 ^ 9"
definition Minute :: duration where "Minute = 60 * 10 ^ 9"

lemma time_sub_exact:
  "\<bar>t - u\<bar> < 2 ^ 63 \<Longrightarrow> time_sub t u = t - u"
  by (simp add: time_sub_def max_duration_def min_duration_def)

section \<open>Fixed width integers\<close>

type_synonym u64 = "64 word"

definition int64_of :: "u64 \<Rightarrow> int" where
  "int64_of w = sint w"

definition int64_wrap :: "int \<Rightarrow> int" where
  "int64_wrap x = sint (of_int x :: u64)"

definition int32_wrap :: "int \<Rightarrow> int" where
  "int32_wrap x = sint (of_int x :: 32 word)"

lemma int64_of_small:
  assumes "unat w < 2 ^ 63"
  shows "int64_of w = int (unat w)"
proof -
  have u: "uint w = int (unat w)" by simp
  have "int (unat w) < int (2 ^ 63)" using assms by (simp only: of_nat_less_iff)
  then have "uint w < 2 ^ 63" unfolding u by simp
  then have "signed_take_bit 63 (uint w) = uint w"
    by (intro signed_take_bit_int_eq_self) (auto intro: order_trans [of _ 0])
  then show ?thesis by (simp add: int64_of_def sint_uint)
qed

section \<open>Sorting\<close>

text \<open>
  \<^verbatim>\<open>sort.Sort\<close> of a short slice is an insertion sort: an element moves left while it is less than its
  predecessor. For longer slices the library uses other algorithms, with the same result where the order is
  total. \<^verbatim>\<open>insert_left\<close> works on the reversed prefix.
\<close>

fun insert_left :: "('a \<Rightarrow> 'a \<Rightarrow> bool) \<Rightarrow> 'a \<Rightarrow> 'a list \<Rightarrow> 'a list" where
  "insert_left lt x [] = [x]"
| "insert_left lt x (y # ys) = (if lt x y then y # insert_left lt x ys else x # y # ys)"

definition sort_Sort :: "('a \<Rightarrow> 'a \<Rightarrow> bool) \<Rightarrow> 'a list \<Rightarrow> 'a list" where
  "sort_Sort lt xs = rev (foldl (\<lambda>r x. insert_left lt x r) [] xs)"

fun string_less :: "string \<Rightarrow> string \<Rightarrow> bool" where
  "string_less _ [] \<longleftrightarrow> False"
| "string_less [] (_ # _) \<longleftrightarrow> True"
| "string_less (c # cs) (d # ds) \<longleftrightarrow> (of_char c :: nat) < of_char d \<or> (c = d \<and> string_less cs ds)"

lemma mset_insert_left [simp]: "mset (insert_left lt x ys) = add_mset x (mset ys)"
  by (induction ys) auto

lemma mset_insert_lefts: "mset (foldl (\<lambda>r x. insert_left lt x r) ys xs) = mset xs + mset ys"
  by (induction xs arbitrary: ys) auto

lemma mset_sort_Sort [simp]: "mset (sort_Sort lt xs) = mset xs"
  by (simp add: sort_Sort_def mset_insert_lefts)

lemma set_sort_Sort [simp]: "set (sort_Sort lt xs) = set xs"
  by (metis mset_sort_Sort set_mset_mset)

lemma length_sort_Sort [simp]: "length (sort_Sort lt xs) = length xs"
  by (metis mset_sort_Sort size_mset)

lemma set_insert_left [simp]: "set (insert_left lt x ys) = insert x (set ys)"
  by (metis mset_insert_left set_mset_add_mset_insert set_mset_mset)

lemma sorted_insert_left:
  fixes ys :: "'a :: linorder list"
  shows "sorted_wrt (\<ge>) ys \<Longrightarrow> sorted_wrt (\<ge>) (insert_left (<) x ys)"
  by (induction ys) (auto intro: order_trans)

lemma sort_Sort_eq_sort: "sort_Sort (<) xs = sort (xs :: 'a :: linorder list)"
proof (rule properties_for_sort [symmetric])
  have "sorted_wrt (\<ge>) ys \<Longrightarrow> sorted_wrt (\<ge>) (foldl (\<lambda>r x. insert_left (<) x r) ys xs)" for ys
    by (induction xs arbitrary: ys) (auto intro: sorted_insert_left)
  from this [of "[]"] show "sorted (sort_Sort (<) xs)" by (simp add: sort_Sort_def sorted_wrt_rev)
qed simp

text \<open>For a strict weak order the result is sorted: no element is less than one before it.\<close>

lemma sorted_sort_Sort:
  assumes asym: "\<And>x y. lt x y \<Longrightarrow> \<not> lt y x" and negtrans: "\<And>x y z. \<not> lt x y \<Longrightarrow> \<not> lt y z \<Longrightarrow> \<not> lt x z"
  shows "sorted_wrt (\<lambda>a b. \<not> lt b a) (sort_Sort lt xs)"
proof -
  have ins: "sorted_wrt (\<lambda>a b. \<not> lt a b) ys \<Longrightarrow> sorted_wrt (\<lambda>a b. \<not> lt a b) (insert_left lt x ys)" for x ys
    by (induction ys) (auto dest: asym negtrans)
  have "sorted_wrt (\<lambda>a b. \<not> lt a b) ys \<Longrightarrow> sorted_wrt (\<lambda>a b. \<not> lt a b) (foldl (\<lambda>r x. insert_left lt x r) ys xs)" for ys
    by (induction xs arbitrary: ys) (auto intro: ins)
  from this [of "[]"] show ?thesis by (simp add: sort_Sort_def sorted_wrt_rev)
qed

end
