(* ===== verification/Go_Float.thy ===== *)
theory Go_Float
  imports Go_Runtime Complex_Main "HOL-Library.Log_Nat"
begin

text \<open>
  Go's \<^verbatim>\<open>float64\<close>: an operation is the exact rational operation followed by rounding to 53
  significant bits, ties to even (IEEE 754 binary64, gradual underflow and overflow to infinity
  included); the sign of zero is not represented. The conversion of a float to \<^verbatim>\<open>uint64\<close> is
  implementation-defined outside the range of the type, so it takes the implementation's choice as
  an argument.
\<close>

section \<open>Rounding\<close>

definition round_half_even :: "rat \<Rightarrow> int" where
  "round_half_even x =
     (let f = \<lfloor>x\<rfloor>; d = x - of_int f
      in if d < 1 / 2 \<or> (d = 1 / 2 \<and> even f) then f else f + 1)"

text \<open>The exponent of the unit in the last place of a non-zero number.\<close>

definition ulp_exp :: "rat \<Rightarrow> int" where
  "ulp_exp x =
     (let (a, b) = quotient_of \<bar>x\<bar>; k = bitlen a - bitlen b
      in max (- 1074) ((if \<bar>x\<bar> < 2 powi k then k - 1 else k) - 52))"

definition rnd64 :: "rat \<Rightarrow> rat" where
  "rnd64 x =
     (if x = 0 then 0
      else let u = 2 powi (ulp_exp x) in of_int (round_half_even (x / u)) * u)"

lemma round_half_even_of_int [simp]: "round_half_even (of_int n) = n"
  by (simp add: round_half_even_def)

lemma round_half_even_bounds: "\<lfloor>x\<rfloor> \<le> round_half_even x" "round_half_even x \<le> \<lfloor>x\<rfloor> + 1"
  by (auto simp: round_half_even_def Let_def)

lemma round_half_even_mono:
  assumes "x \<le> y"
  shows "round_half_even x \<le> round_half_even y"
proof (cases "\<lfloor>x\<rfloor> = \<lfloor>y\<rfloor>")
  case True
  with assms show ?thesis by (auto simp: round_half_even_def Let_def)
next
  case False
  with floor_mono [OF assms] have "\<lfloor>x\<rfloor> + 1 \<le> \<lfloor>y\<rfloor>" by simp
  with round_half_even_bounds(2) [of x] round_half_even_bounds(1) [of y]
  show ?thesis by linarith
qed

lemma round_half_even_le_of_int: "x \<le> of_int n \<Longrightarrow> round_half_even x \<le> n"
  using round_half_even_mono [of x "of_int n"] by simp

lemma round_half_even_ge_of_int: "of_int n \<le> x \<Longrightarrow> n \<le> round_half_even x"
  using round_half_even_mono [of "of_int n" x] by simp

lemma bitlen_bracket:
  assumes "0 < a"
  shows "(2::rat) powi (bitlen a - 1) \<le> of_int a" "of_int a < (2::rat) powi (bitlen a)"
proof -
  have nn: "0 \<le> bitlen a - 1"
    using assms bitlen_nonneg [of a] bitlen_eq_zero_iff [of a] by linarith
  have b: "2 ^ nat (bitlen a - 1) \<le> a" "a < 2 ^ nat (bitlen a)"
    using bitlen_bounds [OF assms] by auto
  from b(1) have "(2::rat) ^ nat (bitlen a - 1) \<le> of_int a"
    by (metis of_int_le_iff of_int_numeral of_int_power)
  with nn show "(2::rat) powi (bitlen a - 1) \<le> of_int a" by (simp add: power_int_def)
  from b(2) have "of_int a < (2::rat) ^ nat (bitlen a)"
    by (metis of_int_less_iff of_int_numeral of_int_power)
  then show "of_int a < (2::rat) powi (bitlen a)"
    using bitlen_nonneg [of a] by (simp add: power_int_def)
qed

lemma quotient_bracket:
  fixes x :: rat
  assumes "0 < x" "quotient_of x = (a, b)"
  shows "2 powi (bitlen a - bitlen b - 1) < x" "x < 2 powi (bitlen a - bitlen b + 1)"
proof -
  have b: "0 < b" using assms(2) by (rule quotient_of_denom_pos)
  have x: "x = of_int a / of_int b" using assms(2) by (rule quotient_of_div)
  have a: "0 < a" using assms(1) b by (simp add: x zero_less_divide_iff)
  note A = bitlen_bracket [OF a] and B = bitlen_bracket [OF b]
  have pos: "(0::rat) < 2 powi (bitlen b - 1)" "(0::rat) < of_int b" using b by simp_all
  have "2 powi (bitlen a - bitlen b - 1) = 2 powi (bitlen a - 1) / (2::rat) powi (bitlen b)"
    by (simp add: power_int_diff)
  also have "\<dots> \<le> of_int a / 2 powi (bitlen b)"
    using A(1) by (simp add: divide_right_mono)
  also have "\<dots> < of_int a / of_int b"
    using B(2) a pos(2) by (intro divide_strict_left_mono) (auto intro: mult_pos_pos)
  finally show "2 powi (bitlen a - bitlen b - 1) < x" by (simp add: x)
  have "of_int a / of_int b \<le> of_int a / (2::rat) powi (bitlen b - 1)"
    using B(1) a pos by (intro divide_left_mono) (auto intro: mult_pos_pos)
  also have "\<dots> < 2 powi (bitlen a) / 2 powi (bitlen b - 1)"
    using A(2) pos(1) by (simp add: divide_strict_right_mono)
  also have "\<dots> = 2 powi (bitlen a - bitlen b + 1)"
    by (simp add: power_int_diff power_int_add)
  finally show "x < 2 powi (bitlen a - bitlen b + 1)" by (simp add: x)
qed

lemma ulp_exp_upper:
  fixes x :: rat
  assumes "x \<noteq> 0"
  shows "\<bar>x\<bar> < 2 powi (ulp_exp x + 53)"
proof -
  obtain a b where q: "quotient_of \<bar>x\<bar> = (a, b)" by force
  define k where "k = bitlen a - bitlen b"
  have up: "\<bar>x\<bar> < 2 powi (k + 1)"
    unfolding k_def using assms by (intro quotient_bracket(2) [OF _ q]) simp
  define e where "e = (if \<bar>x\<bar> < 2 powi k then k - 1 else k) - 52"
  have "\<bar>x\<bar> < 2 powi (e + 53)" using up by (auto simp: e_def add.commute)
  also have "(2::rat) powi (e + 53) \<le> 2 powi (max (- 1074) e + 53)"
    by (intro power_int_increasing) auto
  also have "max (- 1074) e = ulp_exp x" by (simp add: ulp_exp_def q k_def e_def)
  finally show ?thesis .
qed

lemma ulp_exp_lower:
  fixes x :: rat
  assumes "x \<noteq> 0" "- 1074 < ulp_exp x"
  shows "2 powi (ulp_exp x + 52) \<le> \<bar>x\<bar>"
proof -
  obtain a b where q: "quotient_of \<bar>x\<bar> = (a, b)" by force
  define k where "k = bitlen a - bitlen b"
  have lo: "2 powi (k - 1) < \<bar>x\<bar>"
    unfolding k_def using assms(1) by (intro quotient_bracket(1) [OF _ q]) simp
  define e where "e = (if \<bar>x\<bar> < 2 powi k then k - 1 else k) - 52"
  have "ulp_exp x = max (- 1074) e" by (simp add: ulp_exp_def q k_def e_def)
  with assms(2) have e: "ulp_exp x = e" by simp
  show ?thesis unfolding e using lo by (auto simp: e_def not_less)
qed

lemma ulp_exp_ge: "- 1074 \<le> ulp_exp x"
  by (simp add: ulp_exp_def Let_def split: prod.split)

lemma ulp_exp_mono:
  fixes x y :: rat
  assumes "x \<noteq> 0" "\<bar>x\<bar> \<le> \<bar>y\<bar>"
  shows "ulp_exp x \<le> ulp_exp y"
proof (rule ccontr)
  assume *: "\<not> ulp_exp x \<le> ulp_exp y"
  have y: "y \<noteq> 0" using assms by auto
  have "\<bar>y\<bar> < 2 powi (ulp_exp y + 53)" using y by (rule ulp_exp_upper)
  also have "(2::rat) powi (ulp_exp y + 53) \<le> 2 powi (ulp_exp x + 52)"
    using * by (intro power_int_increasing) auto
  also have "\<dots> \<le> \<bar>x\<bar>"
    using * ulp_exp_ge [of y] assms(1) by (intro ulp_exp_lower) auto
  finally show False using assms(2) by simp
qed

lemma ulp_exp_eq:
  fixes x :: rat
  assumes "2 powi e \<le> \<bar>x\<bar>" "\<bar>x\<bar> < 2 powi (e + 1)" "- 1022 \<le> e"
  shows "ulp_exp x = e - 52"
proof -
  have x: "x \<noteq> 0" using assms(1) zero_less_power_int [of "2::rat" e] by fastforce
  have "(2::rat) powi e < 2 powi (ulp_exp x + 53)" using assms(1) ulp_exp_upper [OF x] by simp
  then have lo: "e < ulp_exp x + 53" using power_int_increasing [of "ulp_exp x + 53" e "2::rat"] by force
  show ?thesis
  proof (cases "- 1074 < ulp_exp x")
    case True
    have "(2::rat) powi (ulp_exp x + 52) < 2 powi (e + 1)" using ulp_exp_lower [OF x True] assms(2) by simp
    then have "ulp_exp x + 52 < e + 1" using power_int_increasing [of "e + 1" "ulp_exp x + 52" "2::rat"] by force
    with lo show ?thesis by simp
  next
    case False
    with ulp_exp_ge [of x] lo assms(3) show ?thesis by simp
  qed
qed

lemma rnd64_0 [simp]: "rnd64 0 = 0"
  by (simp add: rnd64_def)

lemma rnd64_upper:
  assumes "0 < x"
  shows "rnd64 x \<le> 2 powi (ulp_exp x + 53)"
proof -
  let ?u = "(2::rat) powi ulp_exp x"
  have "x < 2 ^ 53 * ?u"
    using ulp_exp_upper [of x] assms by (simp add: power_int_add mult.commute)
  then have "x / ?u \<le> of_int (2 ^ 53)" by (simp add: pos_divide_le_eq)
  then have "round_half_even (x / ?u) \<le> 2 ^ 53" by (rule round_half_even_le_of_int)
  then have "(of_int (round_half_even (x / ?u)) :: rat) \<le> of_int (2 ^ 53)"
    by (simp only: of_int_le_iff)
  then show ?thesis
    using assms by (simp add: rnd64_def Let_def power_int_add mult.commute)
qed

lemma rnd64_lower:
  assumes "0 < x" "- 1074 < ulp_exp x"
  shows "2 powi (ulp_exp x + 52) \<le> rnd64 x"
proof -
  let ?u = "(2::rat) powi ulp_exp x"
  have "2 ^ 52 * ?u \<le> x"
    using ulp_exp_lower [of x] assms by (simp add: power_int_add mult.commute)
  then have "of_int (2 ^ 52) \<le> x / ?u" by (simp add: pos_le_divide_eq)
  then have "2 ^ 52 \<le> round_half_even (x / ?u)" by (rule round_half_even_ge_of_int)
  then have "of_int (2 ^ 52) \<le> (of_int (round_half_even (x / ?u)) :: rat)"
    by (simp only: of_int_le_iff)
  then show ?thesis
    using assms by (simp add: rnd64_def Let_def power_int_add mult.commute)
qed

lemma rnd64_nonneg: "0 \<le> x \<Longrightarrow> 0 \<le> rnd64 x"
  using round_half_even_ge_of_int [of 0 "x / 2 powi ulp_exp x"] by (simp add: rnd64_def Let_def)

lemma rnd64_mono_pos:
  assumes "0 < x" "x \<le> y"
  shows "rnd64 x \<le> rnd64 y"
proof (cases "ulp_exp x = ulp_exp y")
  case True
  have "x / 2 powi ulp_exp y \<le> y / 2 powi ulp_exp y"
    using assms(2) by (simp add: divide_right_mono)
  then have "round_half_even (x / 2 powi ulp_exp y) \<le> round_half_even (y / 2 powi ulp_exp y)"
    by (rule round_half_even_mono)
  with True assms show ?thesis by (simp add: rnd64_def Let_def mult_right_mono)
next
  case False
  with ulp_exp_mono [of x y] assms have less: "ulp_exp x < ulp_exp y" by simp
  have "rnd64 x \<le> 2 powi (ulp_exp x + 53)" using assms(1) by (rule rnd64_upper)
  also have "(2::rat) powi (ulp_exp x + 53) \<le> 2 powi (ulp_exp y + 52)"
    using less by (intro power_int_increasing) auto
  also have "\<dots> \<le> rnd64 y"
    using less ulp_exp_ge [of x] assms by (intro rnd64_lower) auto
  finally show ?thesis .
qed

lemma rnd64_mono: "0 \<le> x \<Longrightarrow> x \<le> y \<Longrightarrow> rnd64 x \<le> rnd64 y"
  using rnd64_mono_pos [of x y] rnd64_nonneg [of y] by (cases "x = 0") auto

lemma rnd64_exact:
  assumes "x = of_int m * 2 powi e" "ulp_exp x \<le> e"
  shows "rnd64 x = x"
proof -
  have e: "e - ulp_exp x = int (nat (e - ulp_exp x))" using assms(2) by simp
  have "x / 2 powi ulp_exp x = of_int m * 2 powi (e - ulp_exp x)"
    using assms(1) by (simp add: power_int_diff)
  also have "\<dots> = of_int (m * 2 ^ nat (e - ulp_exp x))"
    by (subst e) (simp only: power_int_of_nat of_int_mult of_int_power of_int_numeral)
  finally have q: "x / 2 powi ulp_exp x = of_int (m * 2 ^ nat (e - ulp_exp x))" .
  have "rnd64 x = x / 2 powi ulp_exp x * 2 powi ulp_exp x" if "x \<noteq> 0"
    unfolding rnd64_def Let_def q using that by (simp only: round_half_even_of_int if_False)
  then show ?thesis by (cases "x = 0") auto
qed

lemma rnd64_of_int:
  assumes "\<bar>n\<bar> \<le> 2 ^ 53"
  shows "rnd64 (of_int n) = of_int n"
proof (cases "ulp_exp (of_int n) \<le> 0")
  case True
  then show ?thesis by (intro rnd64_exact [of _ n 0]) auto
next
  case False
  then have nz: "n \<noteq> 0" using bitlen_nonneg [of 1] by (auto simp: ulp_exp_def)
  let ?e = "ulp_exp (of_int n)"
  have lo: "2 powi (?e + 52) \<le> \<bar>of_int n :: rat\<bar>"
    using False nz by (intro ulp_exp_lower) auto
  have "\<bar>of_int n :: rat\<bar> = of_int \<bar>n\<bar>" by simp
  also have "\<dots> \<le> of_int (2 ^ 53)" using assms by (simp only: of_int_le_iff)
  also have "\<dots> = 2 powi 53" by simp
  finally have up: "\<bar>of_int n :: rat\<bar> \<le> 2 powi 53" .
  have "(2::rat) powi (?e + 52) \<le> 2 powi 53" using lo up by (rule order_trans)
  then have "?e + 52 \<le> 53" by (rule power_int_le_imp_le_exp [rotated]) auto
  with False have e: "?e = 1" by simp
  from lo up e have "\<bar>of_int n :: rat\<bar> = of_int (2 ^ 53)" by simp
  then have "\<bar>n\<bar> = 2 ^ 53" by (metis of_int_abs of_int_eq_iff)
  then have "n = 2 ^ 53 \<or> n = - (2 ^ 53)" by arith
  then have "n = 2 * (n div 2)" by auto
  then have "(of_int n :: rat) = of_int (n div 2) * 2 powi 1"
    by (metis mult.commute of_int_mult of_int_numeral power_int_1_right)
  then show ?thesis using e by (intro rnd64_exact) auto
qed

lemma rnd64_pow2: "rnd64 (2 ^ j) = 2 ^ j"
proof (rule rnd64_exact [of _ 1 "int j"])
  show "(2::rat) ^ j = of_int 1 * 2 powi int j" by (simp add: power_int_of_nat)
  show "ulp_exp (2 ^ j) \<le> int j"
  proof (cases "- 1074 < ulp_exp (2 ^ j)")
    case True
    then have "2 powi (ulp_exp (2 ^ j) + 52) \<le> \<bar>(2::rat) ^ j\<bar>" by (intro ulp_exp_lower) auto
    also have "\<dots> = 2 powi int j" by (simp add: power_int_of_nat)
    finally have "ulp_exp (2 ^ j) + 52 \<le> int j" by (rule power_int_le_imp_le_exp [rotated]) auto
    then show ?thesis by simp
  next
    case False
    then show ?thesis by simp
  qed
qed

lemma ulp_exp_le:
  fixes x :: rat
  assumes "0 < x" "x < 2 powi (e + 53)" "- 1074 \<le> e"
  shows "ulp_exp x \<le> e"
proof (rule ccontr)
  assume *: "\<not> ulp_exp x \<le> e"
  have "(2::rat) powi (e + 53) \<le> 2 powi (ulp_exp x + 52)" using * by (intro power_int_increasing) auto
  also have "\<dots> \<le> \<bar>x\<bar>" using * assms by (intro ulp_exp_lower) auto
  finally show False using assms(1,2) by simp
qed

lemma round_half_even_near:
  assumes "\<bar>of_int m - x\<bar> < 1 / 2"
  shows "round_half_even x = m"
proof -
  have "of_int m - 1 / 2 < x" "x < of_int m + 1 / 2"
    using assms unfolding abs_less_iff by linarith+
  then have "\<lfloor>x\<rfloor> = m \<and> x - of_int m < 1 / 2 \<or> \<lfloor>x\<rfloor> = m - 1 \<and> 1 / 2 < x - of_int (m - 1)"
    by (cases "of_int m \<le> x") (auto simp: floor_eq_iff)
  then show ?thesis by (auto simp: round_half_even_def Let_def)
qed

text \<open>An integer that is closer than half a unit in the last place is the rounded value.\<close>

lemma rnd64_near:
  assumes "0 < x" "ulp_exp x \<le> 0" "\<bar>of_int m - x\<bar> < 2 powi (ulp_exp x) / 2"
  shows "rnd64 x = of_int m"
proof -
  let ?u = "(2::rat) powi ulp_exp x"
  have u: "0 < ?u" by simp
  have "ulp_exp x = - int (nat (- ulp_exp x))" using assms(2) by simp
  then have "?u = inverse (2 ^ nat (- ulp_exp x))" by (metis power_int_minus power_int_of_nat)
  then have m: "of_int m / ?u = of_int (m * 2 ^ nat (- ulp_exp x))" by (simp add: divide_inverse)
  have "\<bar>of_int m / ?u - x / ?u\<bar> = \<bar>of_int m - x\<bar> / ?u" using u by (simp add: abs_divide flip: diff_divide_distrib)
  also have "\<dots> < 1 / 2" using assms(3) u by (simp add: pos_divide_less_eq)
  finally have "round_half_even (x / ?u) = m * 2 ^ nat (- ulp_exp x)"
    unfolding m by (rule round_half_even_near)
  with assms(1) have "rnd64 x = of_int (m * 2 ^ nat (- ulp_exp x)) * ?u" by (simp add: rnd64_def Let_def)
  also have "\<dots> = of_int m" unfolding m [symmetric] using u by simp
  finally show ?thesis .
qed

section \<open>Values and operations\<close>

datatype float64 = Fin rat | PInf | NInf | NaN

definition f64_of_rat :: "rat \<Rightarrow> float64" where
  "f64_of_rat x =
     (let r = rnd64 x in if 2 ^ 1024 \<le> r then PInf else if r \<le> - (2 ^ 1024) then NInf else Fin r)"

definition f64_of_int :: "int \<Rightarrow> float64" where
  "f64_of_int n = f64_of_rat (of_int n)"

definition f64_of_u64 :: "u64 \<Rightarrow> float64" where
  "f64_of_u64 w = f64_of_int (uint w)"

fun f64_neg :: "float64 \<Rightarrow> float64" where
  "f64_neg (Fin a) = Fin (- a)"
| "f64_neg PInf = NInf"
| "f64_neg NInf = PInf"
| "f64_neg NaN = NaN"

fun f64_add :: "float64 \<Rightarrow> float64 \<Rightarrow> float64" where
  "f64_add (Fin a) (Fin b) = f64_of_rat (a + b)"
| "f64_add NaN _ = NaN"
| "f64_add _ NaN = NaN"
| "f64_add PInf NInf = NaN"
| "f64_add NInf PInf = NaN"
| "f64_add PInf _ = PInf"
| "f64_add _ PInf = PInf"
| "f64_add NInf _ = NInf"
| "f64_add _ NInf = NInf"

definition f64_sub :: "float64 \<Rightarrow> float64 \<Rightarrow> float64" where
  "f64_sub a b = f64_add a (f64_neg b)"

fun f64_div :: "float64 \<Rightarrow> float64 \<Rightarrow> float64" where
  "f64_div (Fin a) (Fin b) =
     (if b = 0 then (if a = 0 then NaN else if 0 < a then PInf else NInf) else f64_of_rat (a / b))"
| "f64_div (Fin a) PInf = Fin 0"
| "f64_div (Fin a) NInf = Fin 0"
| "f64_div PInf (Fin b) = (if b < 0 then NInf else PInf)"
| "f64_div NInf (Fin b) = (if b < 0 then PInf else NInf)"
| "f64_div _ _ = NaN"

fun f64_max :: "float64 \<Rightarrow> float64 \<Rightarrow> float64" where
  "f64_max PInf _ = PInf"
| "f64_max _ PInf = PInf"
| "f64_max NaN _ = NaN"
| "f64_max _ NaN = NaN"
| "f64_max NInf b = b"
| "f64_max a NInf = a"
| "f64_max (Fin a) (Fin b) = Fin (max a b)"

definition f64_neq0 :: "float64 \<Rightarrow> bool" where
  "f64_neq0 f \<longleftrightarrow> f \<noteq> Fin 0"

fun f64_less :: "float64 \<Rightarrow> float64 \<Rightarrow> bool" where
  "f64_less (Fin a) (Fin b) = (a < b)"
| "f64_less NInf (Fin _) = True"
| "f64_less NInf PInf = True"
| "f64_less (Fin _) PInf = True"
| "f64_less _ _ = False"

fun f64_floor :: "float64 \<Rightarrow> float64" where
  "f64_floor (Fin a) = Fin (of_int \<lfloor>a\<rfloor>)"
| "f64_floor f = f"

text \<open>The fraction is discarded; a value out of range is converted as the implementation likes.\<close>

definition trunc_rat :: "rat \<Rightarrow> int" where
  "trunc_rat r = (if 0 \<le> r then \<lfloor>r\<rfloor> else \<lceil>r\<rceil>)"

definition f64_to_u64 :: "(float64 \<Rightarrow> u64) \<Rightarrow> float64 \<Rightarrow> u64" where
  "f64_to_u64 conv f =
     (case f of
        Fin r \<Rightarrow> if 0 \<le> trunc_rat r \<and> trunc_rat r < 2 ^ 64 then of_int (trunc_rat r) else conv f
      | _ \<Rightarrow> conv f)"

definition f64_to_i64 :: "(float64 \<Rightarrow> int) \<Rightarrow> float64 \<Rightarrow> int" where
  "f64_to_i64 conv f =
     (case f of
        Fin r \<Rightarrow> if - (2 ^ 63) \<le> trunc_rat r \<and> trunc_rat r < 2 ^ 63 then trunc_rat r else conv f
      | _ \<Rightarrow> conv f)"

text \<open>\<^verbatim>\<open>Duration.Seconds\<close>: whole seconds plus the remaining nanoseconds over 1e9.\<close>

definition Seconds :: "duration \<Rightarrow> float64" where
  "Seconds d =
     (let s = sgn d * (\<bar>d\<bar> div Second); ns = sgn d * (\<bar>d\<bar> mod Second)
      in f64_add (f64_of_int s) (f64_div (f64_of_int ns) (f64_of_int (10 ^ 9))))"

lemma f64_of_rat_Fin:
  assumes "0 \<le> x" "x \<le> 2 ^ 1023"
  shows "f64_of_rat x = Fin (rnd64 x)"
proof -
  have "rnd64 x \<le> rnd64 (2 ^ 1023)" using assms by (rule rnd64_mono)
  also have "\<dots> = 2 ^ 1023" by (rule rnd64_pow2)
  also have "\<dots> < (2::rat) ^ 1024" by (rule power_strict_increasing) auto
  finally have "rnd64 x < 2 ^ 1024" .
  moreover have "0 \<le> rnd64 x" using assms(1) by (rule rnd64_nonneg)
  moreover have "(0::rat) < 2 ^ 1024" by (rule zero_less_power) simp
  ultimately show ?thesis unfolding f64_of_rat_def Let_def by (simp only: not_le if_False flip: not_less) auto
qed

lemma pow2_53_le: "(2::rat) ^ 53 \<le> 2 ^ 1023"
  by (rule power_increasing) auto

lemma f64_of_int_exact:
  assumes "0 \<le> n" "n \<le> 2 ^ 53"
  shows "f64_of_int n = Fin (of_int n)"
proof -
  have "(of_int n :: rat) \<le> of_int (2 ^ 53)" using assms(2) by (simp only: of_int_le_iff)
  then have "(of_int n :: rat) \<le> 2 ^ 1023" using pow2_53_le by (simp only: of_int_power of_int_numeral) 
  with assms show ?thesis
    by (simp only: f64_of_int_def f64_of_rat_Fin rnd64_of_int of_int_0_le_iff abs_of_nonneg)
qed

lemma trunc_rat_of_int [simp]: "trunc_rat (of_int n) = n"
  by (simp add: trunc_rat_def)

lemma Seconds_whole:
  assumes "0 \<le> k" "k \<le> 2 ^ 30"
  shows "Seconds (k * Second) = Fin (of_int k)"
proof -
  have d: "sgn (k * Second) * (\<bar>k * Second\<bar> div Second) = k" "\<bar>k * Second\<bar> mod Second = 0"
    using assms(1) by (auto simp: Second_def sgn_mult sgn_if)
  have "f64_div (f64_of_int 0) (f64_of_int (10 ^ 9)) = Fin 0"
    by (simp add: f64_of_int_exact f64_of_rat_Fin)
  moreover have "f64_of_int k = Fin (of_int k)" using assms by (intro f64_of_int_exact) auto
  moreover have "f64_of_rat (of_int k) = Fin (of_int k)"
    using assms by (metis f64_of_int_def f64_of_int_exact calculation(2))
  ultimately show ?thesis unfolding Seconds_def Let_def d by simp
qed

section \<open>Rounding error\<close>

lemma round_half_even_error: "\<bar>of_int (round_half_even x) - x\<bar> \<le> 1 / 2"
proof -
  have "of_int \<lfloor>x\<rfloor> \<le> x" "x < of_int \<lfloor>x\<rfloor> + 1" by (rule of_int_floor_le, rule floor_correct [THEN conjunct2, simplified])
  then show ?thesis
    unfolding round_half_even_def Let_def abs_le_iff by (cases "x - of_int \<lfloor>x\<rfloor> < 1 / 2 \<or> (x - of_int \<lfloor>x\<rfloor> = 1 / 2 \<and> even \<lfloor>x\<rfloor>)")
      (simp_all only: if_True if_False of_int_add of_int_1, linarith+)
qed

lemma rnd64_error:
  assumes "x \<noteq> 0"
  shows "\<bar>rnd64 x - x\<bar> \<le> 2 powi (ulp_exp x) / 2"
proof -
  let ?u = "(2 :: rat) powi ulp_exp x"
  have u: "0 < ?u" by simp
  have "rnd64 x - x = (of_int (round_half_even (x / ?u)) - x / ?u) * ?u"
    using assms u by (simp add: rnd64_def Let_def left_diff_distrib)
  then have "\<bar>rnd64 x - x\<bar> = \<bar>of_int (round_half_even (x / ?u)) - x / ?u\<bar> * ?u"
    using u by (simp add: abs_mult)
  also have "\<dots> \<le> 1 / 2 * ?u" using round_half_even_error u by (intro mult_right_mono) auto
  finally show ?thesis by simp
qed

text \<open>The error relative to the number, while it is not tiny.\<close>

lemma rnd64_relative:
  assumes "2 powi (- 1021) \<le> x"
  shows "\<bar>rnd64 x - x\<bar> \<le> x / 2 ^ 53"
proof -
  have x: "0 < x" using assms by (rule less_le_trans [rotated]) simp
  have "2 powi (ulp_exp x + 52) \<le> x"
  proof (cases "- 1074 < ulp_exp x")
    case True
    with ulp_exp_lower [of x] x show ?thesis by simp
  next
    case False
    then have "(2 :: rat) powi (ulp_exp x + 52) \<le> 2 powi (- 1021)" by (intro power_int_increasing) auto
    with assms show ?thesis by linarith
  qed
  moreover have "(2 :: rat) powi (ulp_exp x + 52) = 2 powi (ulp_exp x) * 2 ^ 52"
    by (subst power_int_add) (simp_all only: power_int_numeral, simp_all)
  ultimately have "2 powi (ulp_exp x) / 2 \<le> x / 2 ^ 53" by (simp add: field_simps)
  with rnd64_error [of x] x show ?thesis by linarith
qed

text \<open>A quotient of integers below \<^verbatim>\<open>2^52\<close> is rounded down correctly: rounding never reaches the next integer.\<close>

lemma quotient_normal:
  assumes "1 \<le> d" "0 < k" "k \<le> 2 ^ 30"
  shows "(2 :: rat) powi (- 1021) \<le> of_int d / of_int k"
proof -
  have k: "(0 :: rat) < of_int k" "(of_int k :: rat) \<le> of_int (2 ^ 30)" using assms(2,3) by (simp, simp only: of_int_le_iff)
  have "(2 :: rat) powi (- 1021) \<le> 2 powi (- 30)" by (intro power_int_increasing) auto
  also have "\<dots> = 1 / 2 ^ 30" by (simp add: power_int_minus field_simps)
  also have "\<dots> \<le> 1 / of_int k" using k by (intro divide_left_mono) auto
  also have "\<dots> \<le> of_int d / of_int k" using assms(1) k(1) by (intro divide_right_mono) auto
  finally show ?thesis .
qed

lemma quotient_bounds:
  assumes "0 < k"
  shows "of_int (d div k) \<le> (of_int d / of_int k :: rat)"
    and "of_int d / of_int k + 1 / of_int k \<le> (of_int (d div k) + 1 :: rat)"
proof -
  have k: "(0 :: rat) < of_int k" using assms by simp
  have "d div k * k \<le> d" using assms by (metis div_mult_mod_eq Euclidean_Rings.pos_mod_sign le_add_same_cancel1)
  then have "(of_int (d div k * k) :: rat) \<le> of_int d" by (simp only: of_int_le_iff)
  then show "of_int (d div k) \<le> (of_int d / of_int k :: rat)" using k by (simp add: pos_le_divide_eq)
  have "d + 1 \<le> (d div k + 1) * k"
    unfolding distrib_right using pos_mod_bound [OF assms, of d] div_mult_mod_eq [of d k] by linarith
  then have "(of_int (d + 1) :: rat) \<le> of_int ((d div k + 1) * k)" by (simp only: of_int_le_iff)
  then show "of_int d / of_int k + 1 / of_int k \<le> (of_int (d div k) + 1 :: rat)" using k by (simp add: field_simps)
qed

lemma floor_rnd64_quotient:
  assumes "0 \<le> d" "d \<le> 2 ^ 52" "0 < k" "k \<le> 2 ^ 30"
  shows "\<lfloor>rnd64 (of_int d / of_int k)\<rfloor> = d div k"
proof (cases "d = 0")
  case False
  let ?x = "of_int d / of_int k :: rat" and ?m = "d div k"
  have err: "\<bar>rnd64 ?x - ?x\<bar> \<le> ?x / 2 ^ 53"
    using assms(1,3,4) False by (intro rnd64_relative quotient_normal) simp_all
  have "0 \<le> ?m" using assms(1,3) by (simp add: pos_imp_zdiv_nonneg_iff)
  moreover have "?m \<le> d div 1" using assms(1,3) by (intro zdiv_mono2) auto
  ultimately have "rnd64 (of_int ?m) = of_int ?m" using assms(2) by (intro rnd64_of_int) simp
  then have lower: "of_int ?m \<le> rnd64 ?x"
    using rnd64_mono [OF _ quotient_bounds(1) [OF assms(3), of d]] \<open>0 \<le> ?m\<close> by simp
  have "?x / 2 ^ 53 < 1 / of_int k"
  proof -
    have "(of_int d :: rat) \<le> of_int (2 ^ 52)" using assms(2) by (simp only: of_int_le_iff)
    then have "of_int d / 2 ^ 53 / of_int k < 1 / (of_int k :: rat)"
      using assms(3) by (intro divide_strict_right_mono) simp_all
    then show ?thesis by (simp add: field_simps)
  qed
  then have "rnd64 ?x < of_int ?m + 1" using err quotient_bounds(2) [OF assms(3), of d] by linarith
  with lower show ?thesis by (simp add: floor_unique)
qed simp

end
