(* ===== verification/Quantity_Spec.thy ===== *)
theory Quantity_Spec
  imports Go_Float
begin

text \<open>
  The arithmetic on quantities. \<^verbatim>\<open>resource.Quantity\<close> (\<^verbatim>\<open>k8s.io/apimachinery\<close>) and \<^verbatim>\<open>inf.Dec\<close>
  (\<^verbatim>\<open>gopkg.in/inf.v0\<close>) are third-party code: their operations are a parameter of the model, the record
  \<^verbatim>\<open>quantity_ops\<close>, and what the collector relies on is the locale \<^verbatim>\<open>quantity\<close>: every quantity
  denotes a rational, the constructors and the arithmetic are exact on what is denoted, \<^verbatim>\<open>Cmp\<close> compares
  what is denoted, and \<^verbatim>\<open>QuoRound\<close> with \<^verbatim>\<open>RoundHalfUp\<close> is the quotient rounded at the given scale with
  ties away from zero. The laws are realised on unscaled-integer/scale pairs, the representation that
  \<^verbatim>\<open>inf.Dec\<close> has.
\<close>

type_synonym 'q resourceList = "(string, 'q) gomap option"

definition rl_items :: "('k, 'v) gomap option \<Rightarrow> ('k, 'v) gomap" where
  "rl_items rl = (case rl of None \<Rightarrow> [] | Some m \<Rightarrow> m)"

lemma rl_items_simps [simp]: "rl_items None = []" "rl_items (Some m) = m"
  by (simp_all add: rl_items_def)

record ('q, 'd) quantity_ops =
  qo_zero :: 'q
  qo_NewQuantity :: "int \<Rightarrow> 'q"
  qo_NewScaledQuantity :: "int \<Rightarrow> int \<Rightarrow> 'q"
  qo_NewMilliQuantity :: "int \<Rightarrow> 'q"
  qo_Add :: "'q \<Rightarrow> 'q \<Rightarrow> 'q"
  qo_Sub :: "'q \<Rightarrow> 'q \<Rightarrow> 'q"
  qo_Cmp :: "'q \<Rightarrow> 'q \<Rightarrow> int"
  qo_AsDec :: "'q \<Rightarrow> 'd"
  qo_NewDec :: "int \<Rightarrow> int \<Rightarrow> 'd"
  qo_QuoRoundHalfUp :: "'d \<Rightarrow> 'd \<Rightarrow> int \<Rightarrow> 'd"
  qo_Mul :: "'d \<Rightarrow> 'd \<Rightarrow> 'd"
  qo_NewDecimalQuantity :: "'d \<Rightarrow> 'q"
  qo_AsApproximateFloat64 :: "'q \<Rightarrow> float64"
  qo_Cpu :: "'q resourceList \<Rightarrow> 'q"
  qo_Memory :: "'q resourceList \<Rightarrow> 'q"
  qo_Value :: "'q \<Rightarrow> int"
  qo_MilliValue :: "'q \<Rightarrow> int"

definition Nano :: int where "Nano = - 9"

definition round_half_up :: "rat \<Rightarrow> int" where
  "round_half_up r = (if 0 \<le> r then \<lfloor>r + 1 / 2\<rfloor> else - \<lfloor>1 / 2 - r\<rfloor>)"

lemma round_half_up_error: "\<bar>of_int (round_half_up r) - r\<bar> \<le> 1 / 2"
proof (cases "0 \<le> r")
  case True
  have "of_int \<lfloor>r + 1 / 2\<rfloor> \<le> r + 1 / 2" "r + 1 / 2 < of_int \<lfloor>r + 1 / 2\<rfloor> + 1"
    by (rule of_int_floor_le, rule floor_correct [THEN conjunct2, simplified])
  then show ?thesis using True unfolding round_half_up_def abs_le_iff by (simp only: if_True) linarith
next
  case False
  have "of_int \<lfloor>1 / 2 - r\<rfloor> \<le> 1 / 2 - r" "1 / 2 - r < of_int \<lfloor>1 / 2 - r\<rfloor> + 1"
    by (rule of_int_floor_le, rule floor_correct [THEN conjunct2, simplified])
  then show ?thesis using False unfolding round_half_up_def abs_le_iff by (simp only: if_False of_int_minus) linarith
qed

lemma round_half_up_of_int [simp]: "round_half_up (of_int n) = n"
proof -
  have "\<lfloor>(of_int n :: rat) + 1 / 2\<rfloor> = n" by linarith
  moreover have "\<lfloor>1 / 2 - (of_int n :: rat)\<rfloor> = - n" by linarith
  ultimately show ?thesis by (simp add: round_half_up_def)
qed

lemma round_half_up_nonneg: "0 \<le> r \<Longrightarrow> 0 \<le> round_half_up r"
  by (simp add: round_half_up_def)

lemma round_half_up_mono:
  assumes "a \<le> b"
  shows "round_half_up a \<le> round_half_up b"
proof -
  consider "0 \<le> a" | "a < 0" "b < 0" | "a < 0" "0 \<le> b" by linarith
  then show ?thesis
  proof cases
    case 1
    with assms show ?thesis by (simp add: round_half_up_def floor_mono)
  next
    case 2
    with assms show ?thesis by (simp add: round_half_up_def floor_mono)
  next
    case 3
    then have "0 \<le> \<lfloor>1 / 2 - a\<rfloor>" "0 \<le> \<lfloor>b + 1 / 2\<rfloor>" by simp_all
    then have "- \<lfloor>1 / 2 - a\<rfloor> \<le> \<lfloor>b + 1 / 2\<rfloor>" by linarith
    with 3 show ?thesis by (simp only: round_half_up_def not_le if_True if_False flip: not_less) simp
  qed
qed

section \<open>The contract\<close>

locale quantity =
  fixes Q :: "('q, 'd) quantity_ops"
    and val :: "'q \<Rightarrow> rat"
    and dval :: "'d \<Rightarrow> rat"
  assumes val_zero: "val (qo_zero Q) = 0"
    and val_NewQuantity: "val (qo_NewQuantity Q n) = of_int n"
    and val_NewScaledQuantity: "val (qo_NewScaledQuantity Q n s) = of_int n * 10 powi s"
    and val_NewMilliQuantity: "val (qo_NewMilliQuantity Q n) = of_int n / 1000"
    and val_Add: "val (qo_Add Q x y) = val x + val y"
    and val_Sub: "val (qo_Sub Q x y) = val x - val y"
    and Cmp_less: "qo_Cmp Q x y < 0 \<longleftrightarrow> val x < val y"
    and dval_AsDec: "dval (qo_AsDec Q x) = val x"
    and dval_NewDec: "dval (qo_NewDec Q n s) = of_int n * 10 powi (- s)"
    and dval_QuoRoundHalfUp:
      "dval d' \<noteq> 0 \<Longrightarrow>
       dval (qo_QuoRoundHalfUp Q d d' s) = of_int (round_half_up (dval d / dval d' * 10 powi s)) * 10 powi (- s)"
    and dval_Mul: "dval (qo_Mul Q d d') = dval d * dval d'"
    and val_NewDecimalQuantity: "val (qo_NewDecimalQuantity Q d) = dval d"
    and val_Cpu: "val (qo_Cpu Q rl) = (case map_of (rl_items rl) ''cpu'' of None \<Rightarrow> 0 | Some q \<Rightarrow> val q)"
    and val_Memory: "val (qo_Memory Q rl) = (case map_of (rl_items rl) ''memory'' of None \<Rightarrow> 0 | Some q \<Rightarrow> val q)"
    and Value_ceiling: "0 \<le> val x \<Longrightarrow> \<lceil>val x\<rceil> < 2 ^ 63 \<Longrightarrow> qo_Value Q x = \<lceil>val x\<rceil>"
    and MilliValue_ceiling: "0 \<le> val x \<Longrightarrow> \<lceil>1000 * val x\<rceil> < 2 ^ 63 \<Longrightarrow> qo_MilliValue Q x = \<lceil>1000 * val x\<rceil>"
begin

lemmas val_simps =
  val_zero val_NewQuantity val_NewScaledQuantity val_NewMilliQuantity val_Add val_Sub Cmp_less
  dval_AsDec dval_NewDec dval_Mul val_NewDecimalQuantity

lemma val_fold_Add:
  "val (foldl (\<lambda>r v. qo_Add Q r v) z vs) = val z + sum_list (map val vs)"
  by (induction vs arbitrary: z) (simp_all add: val_Add)

end

section \<open>Decimal representation\<close>

text \<open>A decimal is \<^verbatim>\<open>unscaled * 10 ^ (- scale)\<close>; \<^verbatim>\<open>rescaling\<close> aligns two of them.\<close>

record decimal =
  unscaled :: int
  dscale :: int

definition dec_val :: "decimal \<Rightarrow> rat" where
  "dec_val d = of_int (unscaled d) * 10 powi (- dscale d)"

definition dec :: "int \<Rightarrow> int \<Rightarrow> decimal" where
  "dec u s = \<lparr>unscaled = u, dscale = s\<rparr>"

definition unscaled_at :: "int \<Rightarrow> decimal \<Rightarrow> int" where
  "unscaled_at s d = unscaled d * 10 ^ nat (s - dscale d)"

definition dec_add :: "decimal \<Rightarrow> decimal \<Rightarrow> decimal" where
  "dec_add x y = (let s = max (dscale x) (dscale y) in dec (unscaled_at s x + unscaled_at s y) s)"

definition dec_neg :: "decimal \<Rightarrow> decimal" where
  "dec_neg x = dec (- unscaled x) (dscale x)"

definition dec_cmp :: "decimal \<Rightarrow> decimal \<Rightarrow> int" where
  "dec_cmp x y =
     (let s = max (dscale x) (dscale y) in sgn (unscaled_at s x - unscaled_at s y))"

definition dec_quo :: "decimal \<Rightarrow> decimal \<Rightarrow> int \<Rightarrow> decimal" where
  "dec_quo x y s = dec (round_half_up (dec_val x / dec_val y * 10 powi s)) s"

definition dec_named :: "string \<Rightarrow> decimal resourceList \<Rightarrow> decimal" where
  "dec_named k rl = gget (dec 0 0) (rl_items rl) k"

definition decimal_ops :: "(decimal, decimal) quantity_ops" where
  "decimal_ops =
     \<lparr>qo_zero = dec 0 0,
      qo_NewQuantity = (\<lambda>n. dec n 0),
      qo_NewScaledQuantity = (\<lambda>n s. dec n (- s)),
      qo_NewMilliQuantity = (\<lambda>n. dec n 3),
      qo_Add = dec_add,
      qo_Sub = (\<lambda>x y. dec_add x (dec_neg y)),
      qo_Cmp = dec_cmp,
      qo_AsDec = (\<lambda>x. x),
      qo_NewDec = dec,
      qo_QuoRoundHalfUp = dec_quo,
      qo_Mul = (\<lambda>x y. dec (unscaled x * unscaled y) (dscale x + dscale y)),
      qo_NewDecimalQuantity = (\<lambda>x. x),
      qo_AsApproximateFloat64 = (\<lambda>x. f64_of_rat (dec_val x)),
      qo_Cpu = dec_named ''cpu'',
      qo_Memory = dec_named ''memory'', qo_Value = (\<lambda>x. \<lceil>dec_val x\<rceil>), qo_MilliValue = (\<lambda>x. \<lceil>1000 * dec_val x\<rceil>)\<rparr>"

lemma dec_sel [simp]: "unscaled (dec u s) = u" "dscale (dec u s) = s"
  by (simp_all add: dec_def)

lemma dec_val_dec: "dec_val (dec u s) = of_int u * 10 powi (- s)"
  by (simp add: dec_val_def)

lemma dec_val_unscaled_at:
  assumes "dscale d \<le> s"
  shows "of_int (unscaled_at s d) * 10 powi (- s) = dec_val d"
proof -
  have "(10::rat) powi (- dscale d) = 10 powi (int (nat (s - dscale d)) + (- s))"
    using assms by simp
  also have "\<dots> = 10 ^ nat (s - dscale d) * 10 powi (- s)"
    by (subst power_int_add) (simp_all only: power_int_of_nat, simp_all)
  finally show ?thesis by (simp add: dec_val_def unscaled_at_def)
qed

lemma dec_val_add: "dec_val (dec_add x y) = dec_val x + dec_val y"
  by (simp add: dec_add_def Let_def dec_val_dec distrib_right dec_val_unscaled_at)

lemma dec_cmp_less: "dec_cmp x y < 0 \<longleftrightarrow> dec_val x < dec_val y"
proof -
  let ?s = "max (dscale x) (dscale y)"
  have p: "(0::rat) < 10 powi (- ?s)" by simp
  have "dec_cmp x y < 0 \<longleftrightarrow> unscaled_at ?s x < unscaled_at ?s y"
    by (simp add: dec_cmp_def Let_def sgn_if)
  also have "\<dots> \<longleftrightarrow> (of_int (unscaled_at ?s x) :: rat) < of_int (unscaled_at ?s y)" by simp
  also have "\<dots> \<longleftrightarrow> of_int (unscaled_at ?s x) * 10 powi (- ?s) < (of_int (unscaled_at ?s y) * 10 powi (- ?s) :: rat)"
    using p by (simp only: mult_less_cancel_right_pos)
  finally show ?thesis by (simp add: dec_val_unscaled_at)
qed

lemma dec_val_named:
  "dec_val (dec_named k rl) = (case map_of (rl_items rl) k of None \<Rightarrow> 0 | Some q \<Rightarrow> dec_val q)"
  by (simp add: dec_named_def gget_def dec_val_dec split: option.split)

interpretation dq: quantity decimal_ops dec_val dec_val
proof
  fix n s :: int and x y d d' :: decimal and rl :: "decimal resourceList"
  note sel = decimal_ops_def quantity_ops.simps
  show "dec_val (qo_zero decimal_ops) = 0" by (simp add: sel dec_val_dec)
  show "dec_val (qo_NewQuantity decimal_ops n) = of_int n" by (simp add: sel dec_val_dec)
  show "dec_val (qo_NewScaledQuantity decimal_ops n s) = of_int n * 10 powi s" by (simp add: sel dec_val_dec)
  show "dec_val (qo_NewMilliQuantity decimal_ops n) = of_int n / 1000"
    by (simp add: sel dec_val_dec power_int_minus field_simps)
  show "dec_val (qo_Add decimal_ops x y) = dec_val x + dec_val y" by (simp add: sel dec_val_add)
  show "dec_val (qo_Sub decimal_ops x y) = dec_val x - dec_val y"
    by (simp add: sel dec_val_add) (simp add: dec_neg_def dec_val_def)
  show "(qo_Cmp decimal_ops x y < 0) = (dec_val x < dec_val y)" by (simp add: sel dec_cmp_less)
  show "dec_val (qo_AsDec decimal_ops x) = dec_val x" by (simp add: sel)
  show "dec_val (qo_NewDec decimal_ops n s) = of_int n * 10 powi (- s)" by (simp add: sel dec_val_dec)
  show "dec_val (qo_QuoRoundHalfUp decimal_ops d d' s)
    = of_int (round_half_up (dec_val d / dec_val d' * 10 powi s)) * 10 powi (- s)"
    by (simp add: sel dec_quo_def dec_val_dec)
  show "dec_val (qo_Mul decimal_ops d d') = dec_val d * dec_val d'"
    by (simp add: sel dec_val_def power_int_diff power_int_minus field_simps)
  show "dec_val (qo_NewDecimalQuantity decimal_ops d) = dec_val d" by (simp add: sel)
  show "dec_val (qo_Cpu decimal_ops rl)
    = (case map_of (rl_items rl) ''cpu'' of None \<Rightarrow> 0 | Some q \<Rightarrow> dec_val q)" by (simp add: sel dec_val_named)
  show "dec_val (qo_Memory decimal_ops rl)
    = (case map_of (rl_items rl) ''memory'' of None \<Rightarrow> 0 | Some q \<Rightarrow> dec_val q)" by (simp add: sel dec_val_named)
  show "qo_Value decimal_ops x = \<lceil>dec_val x\<rceil>" "qo_MilliValue decimal_ops x = \<lceil>1000 * dec_val x\<rceil>" by (simp_all add: sel)
qed

end
