(* ===== verification/Kube_Objects.thy ===== *)
theory Kube_Objects
  imports Quantity_Spec
begin

text \<open>
  The Kubernetes API objects that the collector reads (\<^verbatim>\<open>k8s.io/api\<close> and
  \<^verbatim>\<open>pkg/api/quotamanagementv1alpha1\<close>): records with the fields that the sources access. A pointer that may
  be nil is an option; a map field is an association list, with \<^const>\<open>None\<close> for nil where the code
  tells nil from empty. The type of quantities is a parameter.
\<close>

record ownerReference =
  or_APIVersion :: string
  or_Kind :: string
  or_Name :: string
  or_Controller :: "bool option"

record objectMeta =
  om_Name :: string
  om_Namespace :: string
  om_UID :: string
  om_Labels :: strmap
  om_Annotations :: strmap
  om_OwnerReferences :: "ownerReference list"
  om_CreationTimestamp :: gotime
  om_DeletionTimestamp :: "gotime option"

record 'q container =
  ct_Name :: string
  ct_Image :: string
  ct_Requests :: "'q resourceList"
  ct_Limits :: "'q resourceList"

record containerStatus =
  cs_Name :: string
  cs_ContainerID :: string
  cs_ImageID :: string
  cs_Running :: "gotime option"
  cs_Waiting :: bool
  cs_Terminated :: bool

record kcondition =
  kc_Type :: string
  kc_Status :: string
  kc_LastTransitionTime :: gotime

record 'q pod =
  pd_Meta :: objectMeta
  pd_NodeName :: string
  pd_PriorityClassName :: string
  pd_RuntimeClassName :: "string option"
  pd_RequiredNodeTerms :: "string list list list option"
  pd_Containers :: "'q container list"
  pd_Claims :: "string option list"
  pd_Phase :: string
  pd_Conditions :: "kcondition list"
  pd_ContainerStatuses :: "containerStatus list"

text \<open>
  \<^verbatim>\<open>pd_Claims\<close> lists the claim name of every volume, \<^const>\<open>None\<close> for other volumes. \<^verbatim>\<open>pd_RequiredNodeTerms\<close> is the required
  node affinity: for each term, for each match field, its values.
\<close>

record taint =
  tn_Key :: string
  tn_Value :: string
  tn_Effect :: string

record 'q node =
  nd_Meta :: objectMeta
  nd_Unschedulable :: bool
  nd_Taints :: "taint list"
  nd_Allocatable :: "'q resourceList"
  nd_Capacity :: "'q resourceList"
  nd_Conditions :: "kcondition list"

record namespace =
  ns_Meta :: objectMeta

record 'q persistentVolume =
  pv_Meta :: objectMeta
  pv_StorageClassName :: string
  pv_Phase :: string
  pv_Capacity :: "'q resourceList"
  pv_ClaimRef :: "(string \<times> string) option"

record 'q persistentVolumeClaim =
  pvc_Meta :: objectMeta
  pvc_VolumeName :: string
  pvc_Requests :: "'q resourceList"
  pvc_Limits :: "'q resourceList"
  pvc_Capacity :: "'q resourceList"
  pvc_Phase :: string

record scopedSelector =
  ss_ScopeName :: string
  ss_Operator :: string
  ss_Values :: "string list"

record 'q resourceQuota =
  rq_Meta :: objectMeta
  rq_ScopeSelector :: "scopedSelector list option"
  rq_SpecHard :: "'q resourceList"
  rq_Hard :: "'q resourceList"
  rq_Used :: "'q resourceList"

text \<open>\<^verbatim>\<open>ResourceQuotaDescriptor\<close>: the fields of its spec and status that the collector reads.\<close>

record 'q resourceQuotaDescriptor =
  rqd_Meta :: objectMeta
  rqd_ResourceQuotaRef :: string
  rqd_AllocationStrategyType :: string
  rqd_ProposedQuota :: "'q resourceList"

definition MaxObservedQuotaAnnotationKey :: string where
  "MaxObservedQuotaAnnotationKey = ''usagemetricscollector.sigs.k8s.io/maxObservedQuota''"

definition PodSucceeded :: string where "PodSucceeded = ''Succeeded''"
definition PodFailed :: string where "PodFailed = ''Failed''"

end
