(* ===== verification/Collector_Config.thy ===== *)
theory Collector_Config
  imports Kube_Objects
begin

text \<open>
  The configuration of the collector, \<^verbatim>\<open>pkg/api/collectorcontrollerv1alpha1/types.go\<close>: label names,
  source types, sources and operations, the masks and extensions that a configuration declares, and
  the lookups and validation defined on them.
\<close>

section \<open>Names\<close>

definition ExportedContainerLabel :: string where "ExportedContainerLabel = ''exported_container''"
definition ContainerImageLabel :: string where "ContainerImageLabel = ''container_image''"
definition ContainerImageIDLabel :: string where "ContainerImageIDLabel = ''container_image_id''"
definition ExportedNamespaceLabel :: string where "ExportedNamespaceLabel = ''exported_namespace''"
definition ExportedPodLabel :: string where "ExportedPodLabel = ''exported_pod''"
definition ExportedNodeLabel :: string where "ExportedNodeLabel = ''exported_node''"
definition NodeUnschedulableLabel :: string where "NodeUnschedulableLabel = ''node_unschedulable''"
definition WorkloadNameLabel :: string where "WorkloadNameLabel = ''workload_name''"
definition WorkloadKindLabel :: string where "WorkloadKindLabel = ''workload_kind''"
definition WorkloadAPIGroupLabel :: string where "WorkloadAPIGroupLabel = ''workload_api_group''"
definition WorkloadAPIVersionLabel :: string where "WorkloadAPIVersionLabel = ''workload_api_version''"
definition AppLabel :: string where "AppLabel = ''app''"
definition QuotaLabel :: string where "QuotaLabel = ''quota_name''"
definition AllocationStrategyLabel :: string where "AllocationStrategyLabel = ''allocation_strategy''"
definition PriorityClassLabel :: string where "PriorityClassLabel = ''priority_class''"
definition ScheduledLabel :: string where "ScheduledLabel = ''scheduled''"
definition LevelLabel :: string where "LevelLabel = ''level''"
definition PVCNameLabel :: string where "PVCNameLabel = ''exported_pvc''"
definition PVNameLabel :: string where "PVNameLabel = ''exported_pv''"
definition StorageClassLabel :: string where "StorageClassLabel = ''storage_class''"
definition CGroupLabel :: string where "CGroupLabel = ''cgroup''"
definition PhaseLabel :: string where "PhaseLabel = ''phase''"

lemmas label_name_defs =
  ExportedContainerLabel_def ContainerImageLabel_def ContainerImageIDLabel_def ExportedNamespaceLabel_def
  ExportedPodLabel_def ExportedNodeLabel_def NodeUnschedulableLabel_def WorkloadNameLabel_def
  WorkloadKindLabel_def WorkloadAPIGroupLabel_def WorkloadAPIVersionLabel_def AppLabel_def QuotaLabel_def
  AllocationStrategyLabel_def PriorityClassLabel_def ScheduledLabel_def LevelLabel_def PVCNameLabel_def
  PVNameLabel_def StorageClassLabel_def CGroupLabel_def PhaseLabel_def

type_synonym source = string

definition ResourceCPU :: string where "ResourceCPU = ''cpu''"
definition ResourceMemory :: string where "ResourceMemory = ''memory''"
definition ResourceStorage :: string where "ResourceStorage = ''storage''"
definition ResourceItems :: string where "ResourceItems = ''items''"
definition ResourcePeriods :: string where "ResourcePeriods = ''periods''"
definition ResourceTime :: string where "ResourceTime = ''time''"

text \<open>The network resources: receive and transmit, each of bytes, packets, errors and dropped.\<close>

definition NetworkResources :: "string list" where
  "NetworkResources =
     [''rx_bytes'', ''rx_packets'', ''rx_errors'', ''rx_dropped'',
      ''tx_bytes'', ''tx_packets'', ''tx_errors'', ''tx_dropped'']"

text \<open>\<^verbatim>\<open>ResourceNames\<close>, in the order \<^verbatim>\<open>sets.List\<close> gives: sorted.\<close>

definition ResourceNames :: "string list" where
  "ResourceNames =
     [''cpu'', ''items'', ''memory'', ''rx_bytes'', ''rx_dropped'', ''rx_errors'', ''rx_packets'',
      ''storage'', ''time'', ''tx_bytes'', ''tx_dropped'', ''tx_errors'', ''tx_packets'']"

definition ContainerLevel :: string where "ContainerLevel = ''container''"
definition PodLevel :: string where "PodLevel = ''pod''"
definition NamespaceLevel :: string where "NamespaceLevel = ''namespace''"
definition NodeLevel :: string where "NodeLevel = ''node''"
definition PVCLevel :: string where "PVCLevel = ''pvc''"
definition PVLevel :: string where "PVLevel = ''pv''"

definition QuotaType :: string where "QuotaType = ''quota''"
definition ContainerType :: string where "ContainerType = ''container''"
definition PodType :: string where "PodType = ''pod''"
definition NodeType :: string where "NodeType = ''node''"
definition PVCType :: string where "PVCType = ''pvc''"
definition PVType :: string where "PVType = ''pv''"
definition NamespaceType :: string where "NamespaceType = ''namespace''"
definition CGroupType :: string where "CGroupType = ''cgroup''"
definition ClusterScopedType :: string where "ClusterScopedType = ''cluster_scoped''"
definition SchedulerHealthType :: string where "SchedulerHealthType = ''scheduler_health''"

lemmas source_type_defs =
  QuotaType_def ContainerType_def PodType_def NodeType_def PVCType_def PVType_def NamespaceType_def
  CGroupType_def ClusterScopedType_def SchedulerHealthType_def

definition SourceTypes :: "string list" where
  "SourceTypes =
     [QuotaType, PodType, CGroupType, NodeType, ContainerType, PVType, PVCType, NamespaceType,
      ClusterScopedType, SchedulerHealthType]"

definition IsExtension :: "source \<Rightarrow> bool" where
  "IsExtension s = HasPrefix s ''ext_''"

definition ContainerSources :: "source list" where
  "ContainerSources =
     [''container'', ''requests_allocated'', ''limits_allocated'', ''avg_utilization'', ''utilization'',
      ''requests_allocated_minus_utilization'', ''avg_nr_periods'', ''nr_periods'',
      ''avg_nr_throttled'', ''nr_throttled'', ''oom'', ''oom_kill'']"

definition PodSources :: "source list" where "PodSources = [''pod'']"

definition RQDSources :: "source list" where
  "RQDSources =
     [''limits_quota_hard_minus_proposed'', ''limits_quota_max_observed_minus_hard'',
      ''limits_quota_proposed'', ''requests_quota_hard_minus_proposed'',
      ''requests_quota_max_observed_minus_hard'', ''requests_quota_proposed'']"

definition QuotaSources :: "source list" where
  "QuotaSources =
     [''quota'', ''limits_quota_hard_minus_used'', ''limits_quota_hard'', ''limits_quota_used'',
      ''requests_quota_hard_minus_used'', ''requests_quota_hard'', ''requests_quota_used'',
      ''pvc_requests_quota_hard'', ''pvc_requests_quota_used'',
      ''limits_quota_hard_minus_proposed'', ''limits_quota_max_observed_minus_hard'',
      ''limits_quota_proposed'', ''requests_quota_hard_minus_proposed'',
      ''requests_quota_max_observed_minus_hard'', ''requests_quota_proposed'']"

definition NodeSources :: "source list" where
  "NodeSources =
     [''node'', ''node_allocatable'', ''node_capacity'', ''node_requests'', ''node_limits'',
      ''node_allocatable_minus_requests'']"

definition PVCSources :: "source list" where
  "PVCSources = [''pvc_capacity'', ''pvc'', ''pvc_limits_allocated'', ''pvc_requests_allocated'']"

definition PVSources :: "source list" where "PVSources = [''pv'', ''pv_capacity'']"
definition NamespaceSources :: "source list" where "NamespaceSources = [''namespace'']"
definition SchedulerHealthSources :: "source list" where "SchedulerHealthSources = [''pod_schedule_wait'']"

text \<open>The aggregation operations; the configuration has them as strings.\<close>

definition SumOperation :: string where "SumOperation = ''sum''"
definition MaxOperation :: string where "MaxOperation = ''max''"
definition P95Operation :: string where "P95Operation = ''p95''"
definition AvgOperation :: string where "AvgOperation = ''avg''"
definition MedianOperation :: string where "MedianOperation = ''median''"
definition HistogramOperation :: string where "HistogramOperation = ''hist''"

lemmas operation_defs =
  SumOperation_def MaxOperation_def P95Operation_def AvgOperation_def MedianOperation_def
  HistogramOperation_def

definition AggregationOperations :: "string list" where
  "AggregationOperations =
     [SumOperation, MaxOperation, P95Operation, AvgOperation, MedianOperation, HistogramOperation]"

definition MaxExtensionLabels :: nat where "MaxExtensionLabels = 100"

section \<open>Configuration records\<close>

record sources =
  src_Type :: string
  src_Quota :: "source list"
  src_Node :: "source list"
  src_CGroup :: "source list"
  src_Container :: "source list"
  src_Pod :: "source list"
  src_PV :: "source list"
  src_PVC :: "source list"
  src_Namespace :: "source list"
  src_ClusterScoped :: "source list"
  src_SchedulerHealth :: "source list"
  src_Alias :: strmap

definition GetSources :: "sources \<Rightarrow> source list" where
  "GetSources s =
     (if src_Type s = ContainerType then src_Container s
      else if src_Type s = QuotaType then src_Quota s
      else if src_Type s = NodeType then src_Node s
      else if src_Type s = PodType then src_Pod s
      else if src_Type s = PVType then src_PV s
      else if src_Type s = PVCType then src_PVC s
      else if src_Type s = NamespaceType then src_Namespace s
      else if src_Type s = CGroupType then src_CGroup s
      else if src_Type s = ClusterScopedType then src_ClusterScoped s
      else if src_Type s = SchedulerHealthType then src_SchedulerHealth s
      else [])"

record builtInLabelsMask =
  bm_ContainerName :: bool
  bm_PodName :: bool
  bm_NamespaceName :: bool
  bm_NodeName :: bool
  bm_NodeUnschedulable :: bool
  bm_WorkloadName :: bool
  bm_WorkloadKind :: bool
  bm_WorkloadAPIGroup :: bool
  bm_WorkloadAPIVersion :: bool
  bm_App :: bool
  bm_QuotaName :: bool
  bm_AllocationStrategy :: bool
  bm_PriorityClass :: bool
  bm_Scheduled :: bool
  bm_Level :: bool
  bm_PVCName :: bool
  bm_PVName :: bool
  bm_StorageClass :: bool
  bm_CGroup :: bool
  bm_Phase :: bool
  bm_PVType :: bool
  bm_ContainerImage :: bool
  bm_ContainerImageID :: bool

record filter_spec =
  fl_Present :: "bool option"
  fl_LabelNames :: "string list"
  fl_Labels :: "(string, string list) gomap"
  fl_ClusterNames :: "string list"

record labelsMask =
  lm_Level :: string
  lm_BuiltIn :: builtInLabelsMask
  lm_Extensions :: "(string, bool) gomap"
  lm_Filters :: "filter_spec list"
  lm_ID :: int

record exponentialBuckets =
  eb_MinimumBase :: float64
  eb_Compression :: int
  eb_ExponentOffset :: int
  eb_SaveMaxOnly :: bool

record level =
  lv_Name :: string
  lv_Mask :: labelsMask
  lv_Operation :: string
  lv_Operations :: "string list"
  lv_NoExport :: bool
  lv_HistogramBuckets :: "(string, float64 list) gomap"
  lv_RetentionName :: string
  lv_RetentionExponentialBuckets :: "(string, exponentialBuckets) gomap"

record aggregation =
  ag_Name :: string
  ag_Sources :: sources
  ag_Levels :: "level list"

definition ByType :: "aggregation list \<Rightarrow> string \<Rightarrow> aggregation list" where
  "ByType a t = filter (\<lambda>x. src_Type (ag_Sources x) = t) a"

record extensionLabel =
  el_LabelName :: string
  el_AnnotationKey :: string
  el_AnnotationKeys :: "string list"
  el_LabelKey :: string
  el_LabelKeys :: "string list"
  el_Value :: string
  el_ID :: int

record nodeTaintRequirement =
  tr_Operator :: string
  tr_Values :: "string list"

definition NodeTaintOperatorOpIn :: string where "NodeTaintOperatorOpIn = ''In''"
definition NodeTaintOperatorOpNotIn :: string where "NodeTaintOperatorOpNotIn = ''NotIn''"

record nodeTaint =
  nt_LabelName :: string
  nt_LabelValue :: string
  nt_LabelNegativeValue :: string
  nt_TaintKeys :: "nodeTaintRequirement list"
  nt_TaintValues :: "nodeTaintRequirement list"
  nt_TaintEffects :: "nodeTaintRequirement list"
  nt_ID :: int

record extensions =
  ex_Pods :: "extensionLabel list"
  ex_Namespaces :: "extensionLabel list"
  ex_Nodes :: "extensionLabel list"
  ex_Quota :: "extensionLabel list"
  ex_PVCs :: "extensionLabel list"
  ex_PVs :: "extensionLabel list"
  ex_NodeTaints :: "nodeTaint list"

record sideCarConfig =
  sc_Labels :: "extensionLabel list"

end
