(* ===== verification/Extension_Labels.thy ===== *)
theory Extension_Labels
  imports Collector_Config
begin

text \<open>
  User defined labels, \<^verbatim>\<open>pkg/collector/extension_labels.go\<close>. The generated structs of 100 fields
  \<^verbatim>\<open>Label00\<close> to \<^verbatim>\<open>Label99\<close> (keys, values, mask) are lists of length 100, field \<^verbatim>\<open>LabelNN\<close> at position NN,
  and each 100-way \<^verbatim>\<open>switch\<close> is the access at a position, with the default branch outside of it. The
  locale \<^verbatim>\<open>slots\<close> states the contract of such a struct once; keys and values both satisfy it.
\<close>

section \<open>Slots\<close>

locale slots =
  fixes get :: "'s \<Rightarrow> int \<Rightarrow> 'v"
    and set_at :: "int \<Rightarrow> 'v \<Rightarrow> 's \<Rightarrow> 's"
    and inv :: "'s \<Rightarrow> bool"
    and zero :: 'v
    and n :: nat
  assumes get_set_at: "inv s \<Longrightarrow> 0 \<le> i \<Longrightarrow> i < int n \<Longrightarrow> get (set_at i v s) j = (if j = i then v else get s j)"
    and set_at_out: "inv s \<Longrightarrow> \<not> (0 \<le> i \<and> i < int n) \<Longrightarrow> set_at i v s = s"
    and get_out: "inv s \<Longrightarrow> \<not> (0 \<le> i \<and> i < int n) \<Longrightarrow> get s i = zero"
    and inv_set_at: "inv s \<Longrightarrow> inv (set_at i v s)"
    and ext: "inv s \<Longrightarrow> inv t \<Longrightarrow> (\<And>i. get s i = get t i) \<Longrightarrow> s = t"
begin

definition set_all :: "(int \<times> 'v) list \<Rightarrow> 's \<Rightarrow> 's" where
  "set_all kvs s = foldl (\<lambda>s (i, v). set_at i v s) s kvs"

lemma set_all_Nil [simp]: "set_all [] s = s"
  and set_all_Cons [simp]: "set_all ((i, v) # kvs) s = set_all kvs (set_at i v s)"
  by (simp_all add: set_all_def)

lemma set_all_append [simp]: "set_all (kvs @ kvs') s = set_all kvs' (set_all kvs s)"
  by (simp add: set_all_def)

lemma inv_set_all: "inv s \<Longrightarrow> inv (set_all kvs s)"
  by (induction kvs arbitrary: s) (auto simp: inv_set_at)

text \<open>The last write to a position in range decides what it holds.\<close>

lemma get_set_all:
  assumes "inv s" "0 \<le> i" "i < int n"
  shows "get (set_all kvs s) i = (case map_of (rev kvs) i of None \<Rightarrow> get s i | Some v \<Rightarrow> v)"
  using assms
proof (induction kvs arbitrary: s)
  case Nil
  then show ?case by simp
next
  case (Cons kv kvs)
  obtain j v where kv: "kv = (j, v)" by (cases kv)
  have "get (set_at j v s) i = (if i = j then v else get s i)"
  proof (cases "0 \<le> j \<and> j < int n")
    case True
    with Cons.prems show ?thesis by (simp add: get_set_at)
  next
    case False
    with Cons.prems have "i \<noteq> j" by auto
    with False Cons.prems show ?thesis by (simp add: set_at_out)
  qed
  with Cons show ?case by (simp add: kv inv_set_at map_add_def split: option.split)
qed

lemma set_at_commute:
  assumes "inv s" "i \<noteq> j"
  shows "set_at i v (set_at j w s) = set_at j w (set_at i v s)"
proof (rule ext)
  fix k
  show "get (set_at i v (set_at j w s)) k = get (set_at j w (set_at i v s)) k"
    using assms by (cases "0 \<le> i \<and> i < int n"; cases "0 \<le> j \<and> j < int n")
      (simp_all add: get_set_at set_at_out inv_set_at)
qed (use assms in \<open>auto intro: inv_set_at\<close>)

end

section \<open>Keys and values\<close>

type_synonym extensionLabelsKeys = "string list"
type_synonym extensionLabelsValues = "string list"

definition slots_wf :: "'a list \<Rightarrow> bool" where
  "slots_wf xs \<longleftrightarrow> length xs = MaxExtensionLabels"

definition emptySlots :: "string list" where
  "emptySlots = replicate MaxExtensionLabels ''''"

definition in_slots :: "int \<Rightarrow> bool" where
  "in_slots i \<longleftrightarrow> 0 \<le> i \<and> i < int MaxExtensionLabels"

definition GetKey :: "extensionLabelsKeys \<Rightarrow> int \<Rightarrow> string" where
  "GetKey l index = (if in_slots index then l ! nat index else '''')"

definition SetKey :: "extensionLabelsKeys \<Rightarrow> string \<Rightarrow> int \<Rightarrow> extensionLabelsKeys" where
  "SetKey l name index = (if in_slots index then l[nat index := name] else l)"

fun index_from :: "int \<Rightarrow> string list \<Rightarrow> string \<Rightarrow> int" where
  "index_from i [] name = - 1"
| "index_from i (k # ks) name = (if name = k then i else index_from (i + 1) ks name)"

definition GetIndex :: "extensionLabelsKeys \<Rightarrow> string \<Rightarrow> int" where
  "GetIndex l name = index_from 0 l name"

definition GetValue :: "extensionLabelsValues \<Rightarrow> int \<Rightarrow> string" where
  "GetValue l index = (if in_slots index then l ! nat index else '''')"

definition SetValue :: "extensionLabelsValues \<Rightarrow> int \<Rightarrow> string \<Rightarrow> extensionLabelsValues" where
  "SetValue l index value = (if in_slots index then l[nat index := value] else l)"

definition GetValueForName :: "extensionLabelsValues \<Rightarrow> extensionLabelsKeys \<Rightarrow> string \<Rightarrow> string" where
  "GetValueForName l names name = GetValue l (GetIndex names name)"

definition SetValueForName ::
  "extensionLabelsValues \<Rightarrow> extensionLabelsKeys \<Rightarrow> string \<Rightarrow> string \<Rightarrow> extensionLabelsValues" where
  "SetValueForName l names name value = SetValue l (GetIndex names name) value"

lemma slots_wf_emptySlots [simp]: "slots_wf emptySlots"
  by (simp add: slots_wf_def emptySlots_def)

lemma slots_wf_SetKey [simp]: "slots_wf l \<Longrightarrow> slots_wf (SetKey l k i)"
  by (simp add: slots_wf_def SetKey_def)

lemma slots_wf_SetValue [simp]: "slots_wf l \<Longrightarrow> slots_wf (SetValue l i v)"
  by (simp add: slots_wf_def SetValue_def)

lemma GetKey_emptySlots [simp]: "GetKey emptySlots i = ''''"
  by (auto simp: GetKey_def emptySlots_def in_slots_def)

lemma GetValue_emptySlots [simp]: "GetValue emptySlots i = ''''"
  by (auto simp: GetValue_def emptySlots_def in_slots_def)

lemma slots_list_ext:
  assumes "slots_wf s" "slots_wf t" "\<And>i. GetValue s i = GetValue t i"
  shows "s = t"
proof (rule nth_equalityI)
  show "length s = length t" using assms(1,2) by (simp add: slots_wf_def)
  fix k assume "k < length s"
  then have "in_slots (int k)" using assms(1) by (simp add: slots_wf_def in_slots_def)
  with assms(3) [of "int k"] show "s ! k = t ! k" by (simp add: GetValue_def)
qed

lemma GetKey_GetValue: "GetKey = GetValue"
  by (intro ext) (simp add: GetKey_def GetValue_def)

interpretation vals: slots GetValue "\<lambda>i v s. SetValue s i v" slots_wf "''''" MaxExtensionLabels
proof
  fix s t :: "string list"
  assume "slots_wf s" "slots_wf t" "\<And>i. GetValue s i = GetValue t i"
  then show "s = t" by (rule slots_list_ext)
qed (auto simp: GetValue_def SetValue_def slots_wf_def in_slots_def nth_list_update nat_eq_iff2)

interpretation keys: slots GetKey "\<lambda>i v s. SetKey s v i" slots_wf "''''" MaxExtensionLabels
proof
  fix s t :: "string list"
  assume "slots_wf s" "slots_wf t" "\<And>i. GetKey s i = GetKey t i"
  then show "s = t" by (intro slots_list_ext) (simp_all add: GetKey_GetValue)
qed (auto simp: GetKey_def SetKey_def slots_wf_def in_slots_def nth_list_update nat_eq_iff2)

section \<open>Masks\<close>

text \<open>
  The contract of a mask: it keeps a set of labels, \<^verbatim>\<open>names\<close> lists the names of the labels it keeps and
  \<^verbatim>\<open>values\<close> their values in the same order, and what it keeps is all that is left of a masked value.
\<close>

locale masking =
  fixes minv :: "'m \<Rightarrow> bool"
    and vinv :: "'v \<Rightarrow> bool"
    and mask :: "'m \<Rightarrow> 'v \<Rightarrow> 'v"
    and names :: "'m \<Rightarrow> string list"
    and "values" :: "'m \<Rightarrow> 'v \<Rightarrow> string list"
  assumes vinv_mask: "minv m \<Longrightarrow> vinv v \<Longrightarrow> vinv (mask m v)"
    and length_values: "minv m \<Longrightarrow> vinv v \<Longrightarrow> length (values m v) = length (names m)"
    and values_mask: "minv m \<Longrightarrow> vinv v \<Longrightarrow> values m (mask m v) = values m v"
    and mask_eqI: "minv m \<Longrightarrow> vinv v \<Longrightarrow> vinv w \<Longrightarrow> values m v = values m w \<Longrightarrow> mask m v = mask m w"
begin

lemma mask_idem: "minv m \<Longrightarrow> vinv v \<Longrightarrow> mask m (mask m v) = mask m v"
  by (intro mask_eqI) (simp_all add: vinv_mask values_mask)

text \<open>Two masked values are the same key exactly if they are exported with the same label values.\<close>

lemma mask_eq_iff:
  assumes "minv m" "vinv v" "vinv w"
  shows "mask m v = mask m w \<longleftrightarrow> values m v = values m w"
proof
  assume "mask m v = mask m w"
  then have "values m (mask m v) = values m (mask m w)" by simp
  with assms show "values m v = values m w" by (simp add: values_mask)
next
  assume "values m v = values m w"
  with assms show "mask m v = mask m w" by (intro mask_eqI)
qed

text \<open>Distinct masked keys never share their exported label values.\<close>

lemma values_inj_on: "minv m \<Longrightarrow> inj_on (values m) (mask m ` Collect vinv)"
  by (auto simp: inj_on_def values_mask mask_eq_iff)

end

definition keep :: "bool list \<Rightarrow> 'a list \<Rightarrow> 'a list" where
  "keep bs xs = map snd (filter fst (zip bs xs))"

lemma keep_simps [simp]:
  "keep [] xs = []" "keep bs [] = []"
  "keep (b # bs) (x # xs) = (if b then x # keep bs xs else keep bs xs)"
  by (simp_all add: keep_def)

lemma length_keep_eq: "length xs = length ys \<Longrightarrow> length (keep bs xs) = length (keep bs ys)"
  by (induction xs ys arbitrary: bs rule: list_induct2) (simp, case_tac bs, auto)

record extensionLabelsMask =
  xm_keys :: extensionLabelsKeys
  xm_bits :: "bool list"

definition extensionMask_wf :: "extensionLabelsMask \<Rightarrow> bool" where
  "extensionMask_wf m \<longleftrightarrow> slots_wf (xm_keys m) \<and> slots_wf (xm_bits m)"

definition blank :: "bool list \<Rightarrow> string list \<Rightarrow> string list" where
  "blank bs xs = map2 (\<lambda>b x. if b then x else '''') bs xs"

definition Mask :: "extensionLabelsMask \<Rightarrow> extensionLabelsValues \<Rightarrow> extensionLabelsValues" where
  "Mask m l = blank (xm_bits m) l"

definition GetLabelNames :: "extensionLabelsMask \<Rightarrow> string list" where
  "GetLabelNames mk = keep (xm_bits mk) (xm_keys mk)"

definition GetLabelValues :: "extensionLabelsMask \<Rightarrow> extensionLabelsValues \<Rightarrow> string list" where
  "GetLabelValues mk m = keep (xm_bits mk) m"

definition getOverrideExtensionLabelValues ::
  "extensionLabelsMask \<Rightarrow> extensionLabelsValues \<Rightarrow> strmap \<Rightarrow> extensionLabelsValues" where
  "getOverrideExtensionLabelValues mk m overrides =
     map2 (\<lambda>labelName labelValue. gget labelValue overrides labelName) (xm_keys mk) m"

lemma blank_simps [simp]:
  "blank [] xs = []" "blank bs [] = []"
  "blank (b # bs) (x # xs) = (if b then x else '''') # blank bs xs"
  by (simp_all add: blank_def)

lemma length_blank [simp]: "length (blank bs xs) = min (length bs) (length xs)"
  by (simp add: blank_def)

lemma keep_blank: "length bs = length xs \<Longrightarrow> keep bs (blank bs xs) = keep bs xs"
  by (induction bs xs rule: list_induct2) simp_all

lemma blank_eqI:
  "length bs = length xs \<Longrightarrow> length xs = length ys \<Longrightarrow> keep bs xs = keep bs ys \<Longrightarrow> blank bs xs = blank bs ys"
  by (induction bs xs ys rule: list_induct3) (auto split: if_splits)

interpretation xmask: masking extensionMask_wf slots_wf Mask GetLabelNames GetLabelValues
proof
  fix m :: extensionLabelsMask and v w :: "string list"
  assume m: "extensionMask_wf m" and v: "slots_wf v"
  show "slots_wf (Mask m v)" using m v by (simp add: Mask_def slots_wf_def extensionMask_wf_def)
  show "length (GetLabelValues m v) = length (GetLabelNames m)"
    using m v unfolding GetLabelValues_def GetLabelNames_def
    by (intro length_keep_eq) (simp add: slots_wf_def extensionMask_wf_def)
  show "GetLabelValues m (Mask m v) = GetLabelValues m v"
    using m v by (simp add: GetLabelValues_def Mask_def keep_blank slots_wf_def extensionMask_wf_def)
  assume w: "slots_wf w" and "GetLabelValues m v = GetLabelValues m w"
  then show "Mask m v = Mask m w"
    using m v by (simp add: GetLabelValues_def Mask_def blank_eqI slots_wf_def extensionMask_wf_def)
qed

lemma GetValue_Mask:
  assumes "extensionMask_wf m" "slots_wf v" "in_slots i"
  shows "GetValue (Mask m v) i = (if xm_bits m ! nat i then GetValue v i else '''')"
  using assms by (simp add: GetValue_def Mask_def blank_def extensionMask_wf_def slots_wf_def in_slots_def nat_less_iff)

lemma GetValue_override:
  assumes "extensionMask_wf m" "slots_wf v" "in_slots i"
  shows "GetValue (getOverrideExtensionLabelValues m v ov) i = gget (GetValue v i) ov (GetKey (xm_keys m) i)"
  using assms
  by (simp add: GetValue_def GetKey_def getOverrideExtensionLabelValues_def extensionMask_wf_def
      slots_wf_def in_slots_def nat_less_iff)

lemma slots_wf_override [simp]:
  "extensionMask_wf m \<Longrightarrow> slots_wf v \<Longrightarrow> slots_wf (getOverrideExtensionLabelValues m v ov)"
  by (simp add: getOverrideExtensionLabelValues_def extensionMask_wf_def slots_wf_def)

section \<open>Reading labels from objects\<close>

record extensionLabler =
  xl_Extensions :: extensions
  xl_SideCar :: "sideCarConfig list"

definition labler_GetLabelNames :: "extensionLabler \<Rightarrow> extensionLabelsKeys" where
  "labler_GetLabelNames l =
     (let e = xl_Extensions l;
          setKeys = foldl (\<lambda>keys v. SetKey keys (el_LabelName v) (el_ID v))
      in setKeys (setKeys (setKeys (setKeys emptySlots (ex_Pods e)) (ex_Namespaces e)) (ex_Quota e)) (ex_Nodes e))"

fun first_present :: "strmap \<Rightarrow> string list \<Rightarrow> string option" where
  "first_present m [] = None"
| "first_present m (e # es) = (if e \<noteq> '''' \<and> sget m e \<noteq> '''' then Some (sget m e) else first_present m es)"

text \<open>The value that the closure of the loop sets for one extension label, if it sets one.\<close>

definition metadataValue :: "extensionLabel \<Rightarrow> objectMeta \<Rightarrow> string option" where
  "metadataValue v meta =
     (if el_LabelKey v \<noteq> '''' \<and> sget (om_Labels meta) (el_LabelKey v) \<noteq> ''''
      then Some (sget (om_Labels meta) (el_LabelKey v))
      else case first_present (om_Labels meta) (el_LabelKeys v) of
        Some x \<Rightarrow> Some x
      | None \<Rightarrow>
          if el_AnnotationKey v \<noteq> '''' \<and> sget (om_Annotations meta) (el_AnnotationKey v) \<noteq> ''''
          then Some (sget (om_Annotations meta) (el_AnnotationKey v))
          else case first_present (om_Annotations meta) (el_AnnotationKeys v) of
            Some x \<Rightarrow> Some x
          | None \<Rightarrow> if el_Value v \<noteq> '''' then Some (el_Value v) else None)"

definition SetLabelsForMetadata ::
  "extensionLabelsValues \<Rightarrow> extensionLabel list \<Rightarrow> objectMeta \<Rightarrow> extensionLabelsValues" where
  "SetLabelsForMetadata labels ext meta =
     foldl (\<lambda>l v. case metadataValue v meta of Some x \<Rightarrow> SetValue l (el_ID v) x | None \<Rightarrow> l) labels ext"

definition SetLabelsForSideCars :: "extensionLabler \<Rightarrow> extensionLabelsValues \<Rightarrow> extensionLabelsValues" where
  "SetLabelsForSideCars l labels =
     foldl (\<lambda>ls sc. foldl (\<lambda>ls scl. SetValue ls (el_ID scl) (el_Value scl)) ls (sc_Labels sc)) labels (xl_SideCar l)"

fun isMatchNodeTaintRequirements :: "nodeTaintRequirement list \<Rightarrow> string \<Rightarrow> bool" where
  "isMatchNodeTaintRequirements [] value = True"
| "isMatchNodeTaintRequirements (r # t) value =
     (if tr_Operator r = NodeTaintOperatorOpIn then value \<in> set (tr_Values r)
      else if tr_Operator r = NodeTaintOperatorOpNotIn then value \<notin> set (tr_Values r)
      else isMatchNodeTaintRequirements t value)"

definition isMatchNodeTaint :: "nodeTaint \<Rightarrow> taint \<Rightarrow> bool" where
  "isMatchNodeTaint t tn =
     (if \<not> isMatchNodeTaintRequirements (nt_TaintKeys t) (tn_Key tn) then False
      else if \<not> isMatchNodeTaintRequirements (nt_TaintValues t) (tn_Value tn) then False
      else if \<not> isMatchNodeTaintRequirements (nt_TaintEffects t) (tn_Effect tn) then False
      else True)"

fun labelValueForTaints :: "nodeTaint \<Rightarrow> taint list \<Rightarrow> string" where
  "labelValueForTaints t [] = nt_LabelNegativeValue t"
| "labelValueForTaints t (x # xs) =
     (if isMatchNodeTaint t x then (if nt_LabelValue t \<noteq> '''' then nt_LabelValue t else tn_Value x)
      else labelValueForTaints t xs)"

definition getLabelValueForNodeTaint :: "nodeTaint \<Rightarrow> 'q node \<Rightarrow> string" where
  "getLabelValueForNodeTaint t node = labelValueForTaints t (nd_Taints node)"

definition ext_SetLabelsForNode ::
  "extensionLabler \<Rightarrow> extensionLabelsValues \<Rightarrow> 'q node option \<Rightarrow> extensionLabelsValues" where
  "ext_SetLabelsForNode l labels node =
     (let labels = SetLabelsForSideCars l labels in
      case node of
        None \<Rightarrow> labels
      | Some n \<Rightarrow>
          foldl (\<lambda>ls v. SetValue ls (nt_ID v) (getLabelValueForNodeTaint v n))
            (SetLabelsForMetadata labels (ex_Nodes (xl_Extensions l)) (nd_Meta n))
            (ex_NodeTaints (xl_Extensions l)))"

definition ext_SetLabelsForNamespace ::
  "extensionLabler \<Rightarrow> extensionLabelsValues \<Rightarrow> namespace option \<Rightarrow> extensionLabelsValues" where
  "ext_SetLabelsForNamespace l labels ns =
     (let labels = SetLabelsForSideCars l labels in
      case ns of
        None \<Rightarrow> labels
      | Some n \<Rightarrow> SetLabelsForMetadata labels (ex_Namespaces (xl_Extensions l)) (ns_Meta n))"

definition ext_SetLabelsForQuota ::
  "extensionLabler \<Rightarrow> extensionLabelsValues \<Rightarrow> 'q resourceQuota option \<Rightarrow> namespace option \<Rightarrow>
   extensionLabelsValues" where
  "ext_SetLabelsForQuota l labels quota ns =
     (let labels = ext_SetLabelsForNamespace l labels ns in
      case quota of
        None \<Rightarrow> labels
      | Some q \<Rightarrow> SetLabelsForMetadata labels (ex_Quota (xl_Extensions l)) (rq_Meta q))"

definition ext_SetLabelsForPod ::
  "extensionLabler \<Rightarrow> extensionLabelsValues \<Rightarrow> 'q pod option \<Rightarrow> 'q node option \<Rightarrow> namespace option \<Rightarrow>
   extensionLabelsValues" where
  "ext_SetLabelsForPod l labels pod node ns =
     (let labels = (case pod of None \<Rightarrow> labels
                    | Some p \<Rightarrow> SetLabelsForMetadata labels (ex_Pods (xl_Extensions l)) (pd_Meta p));
          labels = ext_SetLabelsForQuota l labels (None :: 'q resourceQuota option) ns
      in ext_SetLabelsForNode l labels node)"

definition ext_SetLabelsForPersistentVolume ::
  "extensionLabler \<Rightarrow> extensionLabelsValues \<Rightarrow> 'q persistentVolume option \<Rightarrow> 'q node option \<Rightarrow>
   extensionLabelsValues" where
  "ext_SetLabelsForPersistentVolume l labels pv node =
     (let labels = (case pv of None \<Rightarrow> labels
                    | Some v \<Rightarrow> SetLabelsForMetadata labels (ex_PVs (xl_Extensions l)) (pv_Meta v))
      in ext_SetLabelsForNode l labels node)"

definition ext_SetLabelsForPersistentVolumeClaim ::
  "extensionLabler \<Rightarrow> extensionLabelsValues \<Rightarrow> 'q persistentVolumeClaim option \<Rightarrow> 'q persistentVolume option \<Rightarrow>
   namespace option \<Rightarrow> 'q pod option \<Rightarrow> 'q node option \<Rightarrow> extensionLabelsValues" where
  "ext_SetLabelsForPersistentVolumeClaim l labels pvc pv ns pod node =
     (let labels = (case pvc of None \<Rightarrow> labels
                    | Some c \<Rightarrow> SetLabelsForMetadata labels (ex_PVCs (xl_Extensions l)) (pvc_Meta c));
          labels = ext_SetLabelsForPersistentVolume l labels pv node
      in ext_SetLabelsForPod l labels pod node ns)"

subsection \<open>Each setter as one batch of slot writes\<close>

definition metadataWrites :: "extensionLabel list \<Rightarrow> objectMeta \<Rightarrow> (int \<times> string) list" where
  "metadataWrites exts meta =
     map (\<lambda>v. (el_ID v, the (metadataValue v meta))) (filter (\<lambda>v. metadataValue v meta \<noteq> None) exts)"

lemma SetLabelsForMetadata_writes:
  "SetLabelsForMetadata labels exts meta = vals.set_all (metadataWrites exts meta) labels"
  by (induction exts arbitrary: labels)
    (auto simp: SetLabelsForMetadata_def metadataWrites_def split: option.split)

lemma fold_SetValue_writes:
  "foldl (\<lambda>ls v. SetValue ls (f v) (g v)) labels xs = vals.set_all (map (\<lambda>v. (f v, g v)) xs) labels"
  by (induction xs arbitrary: labels) auto

definition sideCarWrites :: "sideCarConfig list \<Rightarrow> (int \<times> string) list" where
  "sideCarWrites scs = map (\<lambda>x. (el_ID x, el_Value x)) (concat (map sc_Labels scs))"

lemma SetLabelsForSideCars_writes:
  "SetLabelsForSideCars l labels = vals.set_all (sideCarWrites (xl_SideCar l)) labels"
proof -
  have "foldl (\<lambda>ls sc. foldl (\<lambda>ls scl. SetValue ls (el_ID scl) (el_Value scl)) ls (sc_Labels sc)) labels scs
      = vals.set_all (sideCarWrites scs) labels" for scs labels
    by (induction scs arbitrary: labels) (auto simp: sideCarWrites_def fold_SetValue_writes)
  then show ?thesis by (simp add: SetLabelsForSideCars_def)
qed

definition nodeWrites :: "extensionLabler \<Rightarrow> 'q node option \<Rightarrow> (int \<times> string) list" where
  "nodeWrites l node =
     sideCarWrites (xl_SideCar l) @
     (case node of None \<Rightarrow> []
      | Some n \<Rightarrow> metadataWrites (ex_Nodes (xl_Extensions l)) (nd_Meta n) @
          map (\<lambda>v. (nt_ID v, getLabelValueForNodeTaint v n)) (ex_NodeTaints (xl_Extensions l)))"

definition namespaceWrites :: "extensionLabler \<Rightarrow> namespace option \<Rightarrow> (int \<times> string) list" where
  "namespaceWrites l ns =
     sideCarWrites (xl_SideCar l) @
     (case ns of None \<Rightarrow> [] | Some n \<Rightarrow> metadataWrites (ex_Namespaces (xl_Extensions l)) (ns_Meta n))"

definition podWrites ::
  "extensionLabler \<Rightarrow> 'q pod option \<Rightarrow> 'q node option \<Rightarrow> namespace option \<Rightarrow> (int \<times> string) list" where
  "podWrites l pod node ns =
     (case pod of None \<Rightarrow> [] | Some p \<Rightarrow> metadataWrites (ex_Pods (xl_Extensions l)) (pd_Meta p)) @
     namespaceWrites l ns @ nodeWrites l node"

lemma ext_SetLabelsForNode_writes:
  "ext_SetLabelsForNode l labels node = vals.set_all (nodeWrites l node) labels"
  by (simp add: ext_SetLabelsForNode_def nodeWrites_def SetLabelsForSideCars_writes
      SetLabelsForMetadata_writes fold_SetValue_writes split: option.split)

lemma ext_SetLabelsForNamespace_writes:
  "ext_SetLabelsForNamespace l labels ns = vals.set_all (namespaceWrites l ns) labels"
  by (simp add: ext_SetLabelsForNamespace_def namespaceWrites_def SetLabelsForSideCars_writes
      SetLabelsForMetadata_writes split: option.split)

lemma ext_SetLabelsForPod_writes:
  "ext_SetLabelsForPod l labels pod node ns = vals.set_all (podWrites l pod node ns) labels"
  by (simp add: ext_SetLabelsForPod_def ext_SetLabelsForQuota_def podWrites_def
      ext_SetLabelsForNamespace_writes ext_SetLabelsForNode_writes SetLabelsForMetadata_writes
      split: option.split)

lemma slots_wf_setters [simp]:
  assumes "slots_wf labels"
  shows "slots_wf (SetLabelsForMetadata labels exts meta)"
    and "slots_wf (SetLabelsForSideCars l labels)"
    and "slots_wf (ext_SetLabelsForNode l labels node)"
    and "slots_wf (ext_SetLabelsForNamespace l labels ns)"
    and "slots_wf (ext_SetLabelsForPod l labels pod node' ns')"
  using assms
  by (simp_all add: SetLabelsForMetadata_writes SetLabelsForSideCars_writes ext_SetLabelsForNode_writes
      ext_SetLabelsForNamespace_writes ext_SetLabelsForPod_writes vals.inv_set_all)

lemma slots_wf_setters2 [simp]:
  assumes "slots_wf labels"
  shows "slots_wf (ext_SetLabelsForQuota l labels quota ns)"
    and "slots_wf (ext_SetLabelsForPersistentVolume l labels pv node)"
    and "slots_wf (ext_SetLabelsForPersistentVolumeClaim l labels pvc pv' ns' pod node')"
  using assms
  by (simp_all add: ext_SetLabelsForQuota_def ext_SetLabelsForPersistentVolume_def
      ext_SetLabelsForPersistentVolumeClaim_def Let_def split: option.split)

text \<open>All slots that the extension labels and side cars of a labler write, in declaration order.\<close>

definition label_ids :: "extensions \<Rightarrow> sideCarConfig list \<Rightarrow> int list" where
  "label_ids e scs =
     map el_ID (ex_Pods e) @ map el_ID (ex_Quota e) @ map el_ID (ex_Nodes e) @ map el_ID (ex_Namespaces e) @
     map nt_ID (ex_NodeTaints e) @ map el_ID (ex_PVCs e) @ map el_ID (ex_PVs e) @
     map el_ID (concat (map sc_Labels scs))"

lemma metadataWrites_simps [simp]:
  "metadataWrites [] meta = []"
  "metadataWrites (v # exts) meta =
     (case metadataValue v meta of None \<Rightarrow> [] | Some x \<Rightarrow> [(el_ID v, x)]) @ metadataWrites exts meta"
  by (auto simp: metadataWrites_def split: option.split)

lemma map_of_metadataWrites_None:
  "i \<notin> set (map el_ID exts) \<Longrightarrow> map_of (rev (metadataWrites exts meta)) i = None"
  by (auto simp: metadataWrites_def map_of_eq_None_iff)

lemma map_of_metadataWrites:
  assumes "distinct (map el_ID exts)" "v \<in> set exts"
  shows "map_of (rev (metadataWrites exts meta)) (el_ID v) = metadataValue v meta"
  using assms
proof (induction exts)
  case (Cons x exts)
  show ?case
  proof (cases "v = x")
    case True
    with Cons.prems have "map_of (rev (metadataWrites exts meta)) (el_ID v) = None"
      by (intro map_of_metadataWrites_None) auto
    with True show ?thesis by (auto simp: map_add_def split: option.split)
  next
    case False
    with Cons.prems have v: "v \<in> set exts" by simp
    then have "el_ID v \<in> el_ID ` set exts" by (rule imageI)
    with Cons.prems have "el_ID v \<noteq> el_ID x" by auto
    with Cons v show ?thesis by (auto simp: map_add_def split: option.split)
  qed
qed simp

lemma map_of_taintWrites_None:
  "i \<notin> set (map nt_ID ts) \<Longrightarrow> map_of (rev (map (\<lambda>v. (nt_ID v, f v)) ts)) i = None"
  by (auto simp: map_of_eq_None_iff)

lemma map_of_sideCarWrites_None:
  "i \<notin> set (map el_ID (concat (map sc_Labels scs))) \<Longrightarrow> map_of (rev (sideCarWrites scs)) i = None"
  by (auto simp: sideCarWrites_def map_of_eq_None_iff)

section \<open>Indexes\<close>

record labelIndexes =
  li_labelIdsByNames :: "(string, int) gomap"
  li_labelNamesByIds :: "(int, string) gomap"
  li_labelsById :: "(int, extensionLabel) gomap"
  li_taintLabelsById :: "(int, nodeTaint) gomap"

definition indexLabel :: "labelIndexes \<Rightarrow> extensionLabel \<Rightarrow> labelIndexes" where
  "indexLabel c e =
     c\<lparr>li_labelIdsByNames := AList.update (el_LabelName e) (el_ID e) (li_labelIdsByNames c),
       li_labelNamesByIds := AList.update (el_ID e) (el_LabelName e) (li_labelNamesByIds c),
       li_labelsById := AList.update (el_ID e) e (li_labelsById c)\<rparr>"

definition indexTaint :: "labelIndexes \<Rightarrow> nodeTaint \<Rightarrow> labelIndexes" where
  "indexTaint c t =
     c\<lparr>li_labelIdsByNames := AList.update (nt_LabelName t) (nt_ID t) (li_labelIdsByNames c),
       li_labelNamesByIds := AList.update (nt_ID t) (nt_LabelName t) (li_labelNamesByIds c),
       li_taintLabelsById := AList.update (nt_ID t) t (li_taintLabelsById c)\<rparr>"

definition initExtensionLabelIndexes :: "extensions \<Rightarrow> sideCarConfig list \<Rightarrow> labelIndexes" where
  "initExtensionLabelIndexes e scs =
     (let c = \<lparr>li_labelIdsByNames = [], li_labelNamesByIds = [], li_labelsById = [], li_taintLabelsById = []\<rparr>;
          c = foldl indexLabel c (ex_Pods e);
          c = foldl indexLabel c (ex_Namespaces e);
          c = foldl indexLabel c (ex_Quota e);
          c = foldl indexLabel c (ex_Nodes e);
          c = foldl indexTaint c (ex_NodeTaints e);
          c = foldl indexLabel c (ex_PVCs e);
          c = foldl indexLabel c (ex_PVs e)
      in foldl (\<lambda>c sc. foldl indexLabel c (sc_Labels sc)) c scs)"

text \<open>The (id, name) pairs in the order in which they are indexed.\<close>

definition id_names :: "extensions \<Rightarrow> sideCarConfig list \<Rightarrow> (int \<times> string) list" where
  "id_names e scs =
     map (\<lambda>x. (el_ID x, el_LabelName x)) (ex_Pods e @ ex_Namespaces e @ ex_Quota e @ ex_Nodes e) @
     map (\<lambda>t. (nt_ID t, nt_LabelName t)) (ex_NodeTaints e) @
     map (\<lambda>x. (el_ID x, el_LabelName x)) (ex_PVCs e @ ex_PVs e @ concat (map sc_Labels scs))"

lemma namesByIds_indexLabels:
  "map_of (li_labelNamesByIds (foldl indexLabel c xs)) =
   map_of (li_labelNamesByIds c) ++ map_of (rev (map (\<lambda>x. (el_ID x, el_LabelName x)) xs))"
  by (induction xs arbitrary: c) (auto simp: indexLabel_def map_add_def fun_eq_iff split: option.split)

lemma namesByIds_indexTaints:
  "map_of (li_labelNamesByIds (foldl indexTaint c xs)) =
   map_of (li_labelNamesByIds c) ++ map_of (rev (map (\<lambda>x. (nt_ID x, nt_LabelName x)) xs))"
  by (induction xs arbitrary: c) (auto simp: indexTaint_def map_add_def fun_eq_iff split: option.split)

lemma namesByIds_initExtensionLabelIndexes:
  "map_of (li_labelNamesByIds (initExtensionLabelIndexes e scs)) = map_of (rev (id_names e scs))"
proof -
  have sc: "foldl (\<lambda>c sc. foldl indexLabel c (sc_Labels sc)) c scs = foldl indexLabel c (concat (map sc_Labels scs))"
    for c scs
    by (induction scs arbitrary: c) simp_all
  show ?thesis
    by (simp only: initExtensionLabelIndexes_def Let_def sc namesByIds_indexLabels namesByIds_indexTaints
        id_names_def rev_append map_append map_of_append map_add_assoc labelIndexes.simps map_of.simps empty_map_add)
qed

end
