(* ===== verification/Builtin_Labels.thy ===== *)
theory Builtin_Labels
  imports Extension_Labels
begin

text \<open>
  The built in labels, \<^verbatim>\<open>pkg/collector/builtin_labels.go\<close>: the struct of label values, the names and values
  that a mask keeps, masking, overriding, and the setters that read labels from Kubernetes objects. The
  masking functions satisfy the contract \<^verbatim>\<open>masking\<close> of \<^verbatim>\<open>Extension_Labels\<close>.
\<close>

section \<open>Values and masks\<close>

record builtInLabelsValues =
  bv_ContainerName :: string
  bv_ContainerImage :: string
  bv_ContainerImageID :: string
  bv_PodName :: string
  bv_NamespaceName :: string
  bv_NodeName :: string
  bv_NodeUnschedulable :: string
  bv_WorkloadName :: string
  bv_WorkloadKind :: string
  bv_WorkloadAPIGroup :: string
  bv_WorkloadAPIVersion :: string
  bv_App :: string
  bv_QuotaName :: string
  bv_AllocationStrategy :: string
  bv_PriorityClass :: string
  bv_Scheduled :: string
  bv_PVCName :: string
  bv_PVName :: string
  bv_StorageClass :: string
  bv_CGroup :: string
  bv_Phase :: string
  bv_Level :: string

definition emptyBuiltIn :: builtInLabelsValues where
  "emptyBuiltIn =
     \<lparr>bv_ContainerName = '''',
      bv_ContainerImage = '''',
      bv_ContainerImageID = '''',
      bv_PodName = '''',
      bv_NamespaceName = '''',
      bv_NodeName = '''',
      bv_NodeUnschedulable = '''',
      bv_WorkloadName = '''',
      bv_WorkloadKind = '''',
      bv_WorkloadAPIGroup = '''',
      bv_WorkloadAPIVersion = '''',
      bv_App = '''',
      bv_QuotaName = '''',
      bv_AllocationStrategy = '''',
      bv_PriorityClass = '''',
      bv_Scheduled = '''',
      bv_PVCName = '''',
      bv_PVName = '''',
      bv_StorageClass = '''',
      bv_CGroup = '''',
      bv_Phase = '''',
      bv_Level = ''''\<rparr>"

definition getBuiltInLabelNames :: "builtInLabelsMask \<Rightarrow> string list" where
  "getBuiltInLabelNames mk =
     (if bm_ContainerName mk then [ExportedContainerLabel] else []) @
     (if bm_ContainerImage mk then [ContainerImageLabel] else []) @
     (if bm_ContainerImageID mk then [ContainerImageIDLabel] else []) @
     (if bm_PodName mk then [ExportedPodLabel] else []) @
     (if bm_NamespaceName mk then [ExportedNamespaceLabel] else []) @
     (if bm_NodeName mk then [ExportedNodeLabel] else []) @
     (if bm_NodeUnschedulable mk then [NodeUnschedulableLabel] else []) @
     (if bm_WorkloadName mk then [WorkloadNameLabel] else []) @
     (if bm_WorkloadKind mk then [WorkloadKindLabel] else []) @
     (if bm_WorkloadAPIGroup mk then [WorkloadAPIGroupLabel] else []) @
     (if bm_WorkloadAPIVersion mk then [WorkloadAPIVersionLabel] else []) @
     (if bm_App mk then [AppLabel] else []) @
     (if bm_PriorityClass mk then [PriorityClassLabel] else []) @
     (if bm_Scheduled mk then [ScheduledLabel] else []) @
     (if bm_Level mk then [LevelLabel] else []) @
     (if bm_QuotaName mk then [QuotaLabel] else []) @
     (if bm_AllocationStrategy mk then [AllocationStrategyLabel] else []) @
     (if bm_PVCName mk then [PVCNameLabel] else []) @
     (if bm_PVName mk then [PVNameLabel] else []) @
     (if bm_StorageClass mk then [StorageClassLabel] else []) @
     (if bm_CGroup mk then [CGroupLabel] else []) @
     (if bm_Phase mk then [PhaseLabel] else [])"

definition builtInMask :: "builtInLabelsMask \<Rightarrow> builtInLabelsValues \<Rightarrow> builtInLabelsValues" where
  "builtInMask mk m =
     \<lparr>bv_ContainerName = (if bm_ContainerName mk then bv_ContainerName m else ''''),
      bv_ContainerImage = (if bm_ContainerImage mk then bv_ContainerImage m else ''''),
      bv_ContainerImageID = (if bm_ContainerImageID mk then bv_ContainerImageID m else ''''),
      bv_PodName = (if bm_PodName mk then bv_PodName m else ''''),
      bv_NamespaceName = (if bm_NamespaceName mk then bv_NamespaceName m else ''''),
      bv_NodeName = (if bm_NodeName mk then bv_NodeName m else ''''),
      bv_NodeUnschedulable = (if bm_NodeUnschedulable mk then bv_NodeUnschedulable m else ''''),
      bv_WorkloadName = (if bm_WorkloadName mk then bv_WorkloadName m else ''''),
      bv_WorkloadKind = (if bm_WorkloadKind mk then bv_WorkloadKind m else ''''),
      bv_WorkloadAPIGroup = (if bm_WorkloadAPIGroup mk then bv_WorkloadAPIGroup m else ''''),
      bv_WorkloadAPIVersion = (if bm_WorkloadAPIVersion mk then bv_WorkloadAPIVersion m else ''''),
      bv_App = (if bm_App mk then bv_App m else ''''),
      bv_QuotaName = (if bm_QuotaName mk then bv_QuotaName m else ''''),
      bv_AllocationStrategy = (if bm_AllocationStrategy mk then bv_AllocationStrategy m else ''''),
      bv_PriorityClass = (if bm_PriorityClass mk then bv_PriorityClass m else ''''),
      bv_Scheduled = (if bm_Scheduled mk then bv_Scheduled m else ''''),
      bv_PVCName = (if bm_PVCName mk then bv_PVCName m else ''''),
      bv_PVName = (if bm_PVName mk then bv_PVName m else ''''),
      bv_StorageClass = (if bm_StorageClass mk then bv_StorageClass m else ''''),
      bv_CGroup = (if bm_CGroup mk then bv_CGroup m else ''''),
      bv_Phase = (if bm_Phase mk then bv_Phase m else ''''),
      bv_Level = (if bm_Level mk then bv_Level m else '''')\<rparr>"

definition getBuiltInLabelValues :: "builtInLabelsMask \<Rightarrow> builtInLabelsValues \<Rightarrow> string list" where
  "getBuiltInLabelValues mk m =
     (if bm_ContainerName mk then [bv_ContainerName m] else []) @
     (if bm_ContainerImage mk then [bv_ContainerImage m] else []) @
     (if bm_ContainerImageID mk then [bv_ContainerImageID m] else []) @
     (if bm_PodName mk then [bv_PodName m] else []) @
     (if bm_NamespaceName mk then [bv_NamespaceName m] else []) @
     (if bm_NodeName mk then [bv_NodeName m] else []) @
     (if bm_NodeUnschedulable mk then [bv_NodeUnschedulable m] else []) @
     (if bm_WorkloadName mk then [bv_WorkloadName m] else []) @
     (if bm_WorkloadKind mk then [bv_WorkloadKind m] else []) @
     (if bm_WorkloadAPIGroup mk then [bv_WorkloadAPIGroup m] else []) @
     (if bm_WorkloadAPIVersion mk then [bv_WorkloadAPIVersion m] else []) @
     (if bm_App mk then [bv_App m] else []) @
     (if bm_PriorityClass mk then [bv_PriorityClass m] else []) @
     (if bm_Scheduled mk then [bv_Scheduled m] else []) @
     (if bm_Level mk then [bv_Level m] else []) @
     (if bm_QuotaName mk then [bv_QuotaName m] else []) @
     (if bm_AllocationStrategy mk then [bv_AllocationStrategy m] else []) @
     (if bm_PVCName mk then [bv_PVCName m] else []) @
     (if bm_PVName mk then [bv_PVName m] else []) @
     (if bm_StorageClass mk then [bv_StorageClass m] else []) @
     (if bm_CGroup mk then [bv_CGroup m] else []) @
     (if bm_Phase mk then [bv_Phase m] else [])"

definition getOverrideBuiltInLabelValues :: "builtInLabelsValues \<Rightarrow> strmap \<Rightarrow> builtInLabelsValues" where
  "getOverrideBuiltInLabelValues m overrides =
     (let f = (\<lambda>labelName labelValue. gget labelValue overrides labelName) in
      \<lparr>bv_ContainerName = f ExportedContainerLabel (bv_ContainerName m),
       bv_ContainerImage = f ContainerImageLabel (bv_ContainerImage m),
       bv_ContainerImageID = f ContainerImageIDLabel (bv_ContainerImageID m),
       bv_PodName = f ExportedPodLabel (bv_PodName m),
       bv_NamespaceName = f ExportedNamespaceLabel (bv_NamespaceName m),
       bv_NodeName = f ExportedNodeLabel (bv_NodeName m),
       bv_NodeUnschedulable = f NodeUnschedulableLabel (bv_NodeUnschedulable m),
       bv_WorkloadName = f WorkloadNameLabel (bv_WorkloadName m),
       bv_WorkloadKind = f WorkloadKindLabel (bv_WorkloadKind m),
       bv_WorkloadAPIGroup = f WorkloadAPIGroupLabel (bv_WorkloadAPIGroup m),
       bv_WorkloadAPIVersion = f WorkloadAPIVersionLabel (bv_WorkloadAPIVersion m),
       bv_App = f AppLabel (bv_App m),
       bv_QuotaName = f QuotaLabel (bv_QuotaName m),
       bv_AllocationStrategy = f AllocationStrategyLabel (bv_AllocationStrategy m),
       bv_PriorityClass = f PriorityClassLabel (bv_PriorityClass m),
       bv_Scheduled = f ScheduledLabel (bv_Scheduled m),
       bv_PVCName = f PVCNameLabel (bv_PVCName m),
       bv_PVName = f PVNameLabel (bv_PVName m),
       bv_StorageClass = f StorageClassLabel (bv_StorageClass m),
       bv_CGroup = f CGroupLabel (bv_CGroup m),
       bv_Phase = f PhaseLabel (bv_Phase m),
       bv_Level = f LevelLabel (bv_Level m)\<rparr>)"

text \<open>The fields in export order, and the names and mask bits aligned with them.\<close>

definition bv_fields :: "builtInLabelsValues \<Rightarrow> string list" where
  "bv_fields v =
     [bv_ContainerName v,
      bv_ContainerImage v,
      bv_ContainerImageID v,
      bv_PodName v,
      bv_NamespaceName v,
      bv_NodeName v,
      bv_NodeUnschedulable v,
      bv_WorkloadName v,
      bv_WorkloadKind v,
      bv_WorkloadAPIGroup v,
      bv_WorkloadAPIVersion v,
      bv_App v,
      bv_PriorityClass v,
      bv_Scheduled v,
      bv_Level v,
      bv_QuotaName v,
      bv_AllocationStrategy v,
      bv_PVCName v,
      bv_PVName v,
      bv_StorageClass v,
      bv_CGroup v,
      bv_Phase v]"

definition bm_bits :: "builtInLabelsMask \<Rightarrow> bool list" where
  "bm_bits m =
     [bm_ContainerName m,
      bm_ContainerImage m,
      bm_ContainerImageID m,
      bm_PodName m,
      bm_NamespaceName m,
      bm_NodeName m,
      bm_NodeUnschedulable m,
      bm_WorkloadName m,
      bm_WorkloadKind m,
      bm_WorkloadAPIGroup m,
      bm_WorkloadAPIVersion m,
      bm_App m,
      bm_PriorityClass m,
      bm_Scheduled m,
      bm_Level m,
      bm_QuotaName m,
      bm_AllocationStrategy m,
      bm_PVCName m,
      bm_PVName m,
      bm_StorageClass m,
      bm_CGroup m,
      bm_Phase m]"

definition builtInNames :: "string list" where
  "builtInNames =
     [ExportedContainerLabel,
      ContainerImageLabel,
      ContainerImageIDLabel,
      ExportedPodLabel,
      ExportedNamespaceLabel,
      ExportedNodeLabel,
      NodeUnschedulableLabel,
      WorkloadNameLabel,
      WorkloadKindLabel,
      WorkloadAPIGroupLabel,
      WorkloadAPIVersionLabel,
      AppLabel,
      PriorityClassLabel,
      ScheduledLabel,
      LevelLabel,
      QuotaLabel,
      AllocationStrategyLabel,
      PVCNameLabel,
      PVNameLabel,
      StorageClassLabel,
      CGroupLabel,
      PhaseLabel]"

lemma keep_Cons_append: "keep (b # bs) (x # xs) = (if b then [x] else []) @ keep bs xs"
  by simp

lemma getBuiltInLabelNames_keep: "getBuiltInLabelNames m = keep (bm_bits m) builtInNames"
  by (simp only: getBuiltInLabelNames_def bm_bits_def builtInNames_def keep_Cons_append keep_simps(1) append_Nil2)

lemma getBuiltInLabelValues_keep: "getBuiltInLabelValues m v = keep (bm_bits m) (bv_fields v)"
  by (simp only: getBuiltInLabelValues_def bm_bits_def bv_fields_def keep_Cons_append keep_simps(1) append_Nil2)

lemma bv_fields_builtInMask: "bv_fields (builtInMask m v) = blank (bm_bits m) (bv_fields v)"
  by (simp only: builtInMask_def bm_bits_def bv_fields_def blank_simps builtInLabelsValues.simps)

lemma bv_fields_override:
  "bv_fields (getOverrideBuiltInLabelValues v ov) = map2 (\<lambda>k x. gget x ov k) builtInNames (bv_fields v)"
  by (simp only: getOverrideBuiltInLabelValues_def Let_def bv_fields_def builtInNames_def
      builtInLabelsValues.simps zip_Cons_Cons list.map prod.case zip_Nil)

lemma bv_fields_inject: "bv_fields v = bv_fields w \<longleftrightarrow> v = w"
  by (auto simp: bv_fields_def)

lemma length_bv_fields [simp]: "length (bv_fields v) = 22"
  and length_bm_bits [simp]: "length (bm_bits m) = 22"
  and length_builtInNames [simp]: "length builtInNames = 22"
  by (simp_all add: bv_fields_def bm_bits_def builtInNames_def)

lemma distinct_builtInNames: "distinct builtInNames"
  by (simp add: builtInNames_def label_name_defs)

lemma set_keep_subset: "set (keep bs xs) \<subseteq> set xs"
  by (auto simp: keep_def dest: set_zip_rightD)

lemma distinct_keep: "distinct xs \<Longrightarrow> distinct (keep bs xs)"
proof (induction xs arbitrary: bs)
  case (Cons x xs)
  then show ?case using set_keep_subset [of _ xs] by (cases bs) auto
qed simp

interpretation bmask: masking "\<lambda>_. True" "\<lambda>_. True" builtInMask getBuiltInLabelNames getBuiltInLabelValues
proof
  fix m v w
  show "length (getBuiltInLabelValues m v) = length (getBuiltInLabelNames m)"
    unfolding getBuiltInLabelValues_keep getBuiltInLabelNames_keep by (intro length_keep_eq) simp
  show "getBuiltInLabelValues m (builtInMask m v) = getBuiltInLabelValues m v"
    by (simp add: getBuiltInLabelValues_keep bv_fields_builtInMask keep_blank)
  assume "getBuiltInLabelValues m v = getBuiltInLabelValues m w"
  then have "bv_fields (builtInMask m v) = bv_fields (builtInMask m w)"
    unfolding bv_fields_builtInMask getBuiltInLabelValues_keep by (intro blank_eqI) simp_all
  then show "builtInMask m v = builtInMask m w" by (simp only: bv_fields_inject)
qed simp

section \<open>Setters\<close>

text \<open>\<^verbatim>\<open>workload\<close> of \<^verbatim>\<open>metric.go\<close>.\<close>

record workload =
  wl_Name :: string
  wl_Kind :: string
  wl_APIGroup :: string
  wl_APIVersion :: string

definition Undefined :: string where "Undefined = ''undefined''"

record builtInLabler =
  bl_UseQuotaNameForPriorityClass :: bool

definition bi_SetLabelsForContainer :: "builtInLabelsValues \<Rightarrow> 'q container option \<Rightarrow> builtInLabelsValues" where
  "bi_SetLabelsForContainer labels c =
     (case c of
        None \<Rightarrow> labels
      | Some c \<Rightarrow> labels\<lparr>bv_ContainerName := ct_Name c, bv_ContainerImage := ct_Image c\<rparr>)"

definition bi_SetLabelsForContainerStatus ::
  "builtInLabelsValues \<Rightarrow> containerStatus option \<Rightarrow> builtInLabelsValues" where
  "bi_SetLabelsForContainerStatus labels c =
     (case c of None \<Rightarrow> labels | Some c \<Rightarrow> labels\<lparr>bv_ContainerImageID := cs_ImageID c\<rparr>)"

definition bi_SetLabelsForPod ::
  "builtInLabelsValues \<Rightarrow> 'q pod option \<Rightarrow> workload \<Rightarrow> 'q node option \<Rightarrow> builtInLabelsValues" where
  "bi_SetLabelsForPod labels p w node =
     (case p of
        None \<Rightarrow> labels\<lparr>bv_PodName := Undefined\<rparr>
      | Some p \<Rightarrow>
         (let labels = labels\<lparr>bv_PodName := om_Name (pd_Meta p),
                              bv_NamespaceName := om_Namespace (pd_Meta p),
                              bv_NodeName := pd_NodeName p\<rparr>;
              labels = (case node of None \<Rightarrow> labels
                        | Some n \<Rightarrow> labels\<lparr>bv_NodeUnschedulable := sprint_bool (nd_Unschedulable n)\<rparr>)
          in labels\<lparr>bv_WorkloadAPIGroup := wl_APIGroup w,
                    bv_WorkloadAPIVersion := wl_APIVersion w,
                    bv_WorkloadKind := wl_Kind w,
                    bv_WorkloadName := wl_Name w,
                    bv_App := sget (om_Labels (pd_Meta p)) ''app'',
                    bv_PriorityClass := pd_PriorityClassName p,
                    bv_Scheduled := sprint_bool (pd_NodeName p \<noteq> '''')\<rparr>))"

definition bi_SetLabelsForNode :: "builtInLabelsValues \<Rightarrow> 'q node option \<Rightarrow> builtInLabelsValues" where
  "bi_SetLabelsForNode labels node =
     (case node of
        None \<Rightarrow> labels\<lparr>bv_NodeName := Undefined\<rparr>
      | Some n \<Rightarrow> labels\<lparr>bv_NodeName := om_Name (nd_Meta n),
                         bv_NodeUnschedulable := sprint_bool (nd_Unschedulable n)\<rparr>)"

definition bi_SetLabelsForCGroup :: "builtInLabelsValues \<Rightarrow> string \<Rightarrow> builtInLabelsValues" where
  "bi_SetLabelsForCGroup labels aggregationLevel = labels\<lparr>bv_CGroup := filepath_Base aggregationLevel\<rparr>"

definition scope_priority :: "scopedSelector \<Rightarrow> string option" where
  "scope_priority s =
     (if ss_ScopeName s = ''PriorityClass'' \<and> length (ss_Values s) = 1 \<and> ss_Operator s = ''In''
      then Some (ss_Values s ! 0) else None)"

fun scope_priorities :: "builtInLabelsValues \<Rightarrow> scopedSelector list \<Rightarrow> builtInLabelsValues" where
  "scope_priorities labels [] = labels"
| "scope_priorities labels (s # ss) =
     (case scope_priority s of
        None \<Rightarrow> scope_priorities labels ss
      | Some pc \<Rightarrow>
          if bv_PriorityClass labels \<noteq> pc \<and> bv_PriorityClass labels \<noteq> ''''
          then labels\<lparr>bv_PriorityClass := ''undefined''\<rparr>
          else scope_priorities (labels\<lparr>bv_PriorityClass := pc\<rparr>) ss)"

definition bi_SetLabelsForQuota ::
  "builtInLabler \<Rightarrow> builtInLabelsValues \<Rightarrow> 'q resourceQuota option \<Rightarrow> 'q resourceQuotaDescriptor option \<Rightarrow>
   builtInLabelsValues" where
  "bi_SetLabelsForQuota l labels quota rqd =
     (case quota of
        None \<Rightarrow> labels\<lparr>bv_QuotaName := Undefined\<rparr>
      | Some q \<Rightarrow>
         (let labels = labels\<lparr>bv_AllocationStrategy :=
                                (case rqd of None \<Rightarrow> Undefined | Some r \<Rightarrow> rqd_AllocationStrategyType r)\<rparr>;
              labels = labels\<lparr>bv_NamespaceName := om_Namespace (rq_Meta q), bv_QuotaName := om_Name (rq_Meta q)\<rparr>
          in if bl_UseQuotaNameForPriorityClass l
             then labels\<lparr>bv_PriorityClass := om_Name (rq_Meta q)\<rparr>
             else case rq_ScopeSelector q of
                    None \<Rightarrow> labels
                  | Some exprs \<Rightarrow> scope_priorities labels exprs))"

definition bi_SetLabelsForNamespace :: "builtInLabelsValues \<Rightarrow> namespace option \<Rightarrow> builtInLabelsValues" where
  "bi_SetLabelsForNamespace labels ns =
     (case ns of
        None \<Rightarrow> labels\<lparr>bv_NamespaceName := Undefined\<rparr>
      | Some n \<Rightarrow> labels\<lparr>bv_NamespaceName := om_Name (ns_Meta n)\<rparr>)"

definition bi_SetLabelsForPVCQuota ::
  "builtInLabelsValues \<Rightarrow> 'q resourceQuota \<Rightarrow> string \<Rightarrow> builtInLabelsValues" where
  "bi_SetLabelsForPVCQuota labels quota resource =
     foldl (\<lambda>ls rsName. if resource = rsName
                         then ls\<lparr>bv_StorageClass := hd (SplitChar (CHR ''.'') rsName)\<rparr> else ls)
       labels (map fst (rl_items (rq_SpecHard quota)))"

definition bi_setLabelsForPersistentVolume ::
  "builtInLabelsValues \<Rightarrow> 'q persistentVolume option \<Rightarrow> builtInLabelsValues" where
  "bi_setLabelsForPersistentVolume labels pv =
     (case pv of
        None \<Rightarrow> labels\<lparr>bv_PVName := Undefined\<rparr>
      | Some v \<Rightarrow> labels\<lparr>bv_PVName := om_Name (pv_Meta v), bv_StorageClass := pv_StorageClassName v,
                         bv_Phase := pv_Phase v\<rparr>)"

definition bi_setLabelsForPersistentVolumeClaim ::
  "builtInLabelsValues \<Rightarrow> 'q persistentVolumeClaim option \<Rightarrow> builtInLabelsValues" where
  "bi_setLabelsForPersistentVolumeClaim labels pvc =
     (case pvc of
        None \<Rightarrow> labels\<lparr>bv_PVCName := Undefined\<rparr>
      | Some c \<Rightarrow> labels\<lparr>bv_PVCName := om_Name (pvc_Meta c), bv_NamespaceName := om_Namespace (pvc_Meta c),
                         bv_Phase := pvc_Phase c\<rparr>)"

definition bi_SetLabelsForPersistentVolume ::
  "builtInLabelsValues \<Rightarrow> 'q persistentVolume option \<Rightarrow> 'q persistentVolumeClaim option \<Rightarrow> 'q node option \<Rightarrow>
   builtInLabelsValues" where
  "bi_SetLabelsForPersistentVolume labels pv pvc node =
     (case pv of
        None \<Rightarrow> labels\<lparr>bv_PVName := Undefined\<rparr>
      | Some v \<Rightarrow>
         (let labels = (case node of
                          None \<Rightarrow> labels\<lparr>bv_NodeName := sget (om_Annotations (pv_Meta v)) ''kubernetes.io/hostname''\<rparr>
                        | Some _ \<Rightarrow> bi_SetLabelsForNode labels node);
              labels = bi_setLabelsForPersistentVolumeClaim labels pvc
          in bi_setLabelsForPersistentVolume labels pv))"

definition bi_SetLabelsForPersistentVolumeClaim ::
  "builtInLabelsValues \<Rightarrow> 'q persistentVolumeClaim option \<Rightarrow> 'q persistentVolume option \<Rightarrow>
   'q pod option \<Rightarrow> workload \<Rightarrow> 'q node option \<Rightarrow> builtInLabelsValues" where
  "bi_SetLabelsForPersistentVolumeClaim labels pvc pv pod w node =
     (case pvc of
        None \<Rightarrow> labels\<lparr>bv_PVCName := Undefined\<rparr>
      | Some _ \<Rightarrow>
         (let labels = bi_SetLabelsForPod labels pod w node;
              labels = bi_setLabelsForPersistentVolume labels pv
          in bi_setLabelsForPersistentVolumeClaim labels pvc))"

definition bi_SetLabelsForClusterScoped :: "builtInLabelsValues \<Rightarrow> strmap \<Rightarrow> builtInLabelsValues" where
  "bi_SetLabelsForClusterScoped labels discoveredLabels =
     labels\<lparr>bv_PriorityClass := sget discoveredLabels ''priority_class''\<rparr>"

end
