(* ===== verification/Labels.thy ===== *)
theory Labels
  imports Builtin_Labels "HOL-Library.Monad_Syntax"
begin

text \<open>
  Labels of a time series, \<^verbatim>\<open>pkg/collector/labels.go\<close> and the label part of \<^verbatim>\<open>pkg/collector/types.go\<close>: the
  pair of built in and extension values that keys every metric, the setters that fill it, the internal
  masks that initialisation derives from the configuration, masking, overriding and the exported names
  and values. A \<^const>\<open>None\<close> is the nil pointer dereference that follows the lookup of an internal mask that
  was never initialised.
\<close>

record LabelsValues =
  ls_BuiltIn :: builtInLabelsValues
  ls_Extension :: extensionLabelsValues

definition emptyLabels :: LabelsValues where
  "emptyLabels = \<lparr>ls_BuiltIn = emptyBuiltIn, ls_Extension = emptySlots\<rparr>"

definition labels_wf :: "LabelsValues \<Rightarrow> bool" where
  "labels_wf l \<longleftrightarrow> slots_wf (ls_Extension l)"

lemma labels_wf_empty [simp]: "labels_wf emptyLabels"
  by (simp add: labels_wf_def emptyLabels_def)

section \<open>Setters\<close>

record Labeler =
  lb_BuiltIn :: builtInLabler
  lb_Extension :: extensionLabler

definition SetLabelsForContainer :: "LabelsValues \<Rightarrow> 'q container option \<Rightarrow> LabelsValues" where
  "SetLabelsForContainer labels c =
     labels\<lparr>ls_BuiltIn := bi_SetLabelsForContainer (ls_BuiltIn labels) c\<rparr>"

definition SetLabelsForContainerStatus :: "LabelsValues \<Rightarrow> containerStatus option \<Rightarrow> LabelsValues" where
  "SetLabelsForContainerStatus labels c =
     labels\<lparr>ls_BuiltIn := bi_SetLabelsForContainerStatus (ls_BuiltIn labels) c\<rparr>"

definition SetLabelsForPod ::
  "Labeler \<Rightarrow> LabelsValues \<Rightarrow> 'q pod option \<Rightarrow> workload \<Rightarrow> 'q node option \<Rightarrow> namespace option \<Rightarrow> LabelsValues" where
  "SetLabelsForPod l labels pod w node ns =
     \<lparr>ls_BuiltIn = bi_SetLabelsForPod (ls_BuiltIn labels) pod w node,
      ls_Extension = ext_SetLabelsForPod (lb_Extension l) (ls_Extension labels) pod node ns\<rparr>"

definition SetLabelsForNode :: "Labeler \<Rightarrow> LabelsValues \<Rightarrow> 'q node option \<Rightarrow> LabelsValues" where
  "SetLabelsForNode l labels node =
     \<lparr>ls_BuiltIn = bi_SetLabelsForNode (ls_BuiltIn labels) node,
      ls_Extension = ext_SetLabelsForNode (lb_Extension l) (ls_Extension labels) node\<rparr>"

definition SetLabelsFoCGroup :: "LabelsValues \<Rightarrow> string \<Rightarrow> LabelsValues" where
  "SetLabelsFoCGroup labels aggregationLevel =
     labels\<lparr>ls_BuiltIn := bi_SetLabelsForCGroup (ls_BuiltIn labels) aggregationLevel\<rparr>"

definition SetLabelsForQuota ::
  "Labeler \<Rightarrow> LabelsValues \<Rightarrow> 'q resourceQuota option \<Rightarrow> 'q resourceQuotaDescriptor option \<Rightarrow> namespace option \<Rightarrow>
   LabelsValues" where
  "SetLabelsForQuota l labels quota rqd ns =
     \<lparr>ls_BuiltIn = bi_SetLabelsForQuota (lb_BuiltIn l) (ls_BuiltIn labels) quota rqd,
      ls_Extension = ext_SetLabelsForQuota (lb_Extension l) (ls_Extension labels) quota ns\<rparr>"

definition SetLabelsForNamespaces :: "Labeler \<Rightarrow> LabelsValues \<Rightarrow> namespace option \<Rightarrow> LabelsValues" where
  "SetLabelsForNamespaces l labels ns =
     \<lparr>ls_BuiltIn = bi_SetLabelsForNamespace (ls_BuiltIn labels) ns,
      ls_Extension = ext_SetLabelsForNamespace (lb_Extension l) (ls_Extension labels) ns\<rparr>"

definition SetLabelsForPVCQuota :: "LabelsValues \<Rightarrow> 'q resourceQuota \<Rightarrow> string \<Rightarrow> LabelsValues" where
  "SetLabelsForPVCQuota labels quota resource =
     labels\<lparr>ls_BuiltIn := bi_SetLabelsForPVCQuota (ls_BuiltIn labels) quota resource\<rparr>"

definition SetLabelsForPersistentVolume ::
  "Labeler \<Rightarrow> LabelsValues \<Rightarrow> 'q persistentVolume option \<Rightarrow> 'q persistentVolumeClaim option \<Rightarrow> 'q node option \<Rightarrow>
   LabelsValues" where
  "SetLabelsForPersistentVolume l labels pv pvc node =
     \<lparr>ls_BuiltIn = bi_SetLabelsForPersistentVolume (ls_BuiltIn labels) pv pvc node,
      ls_Extension = ext_SetLabelsForPersistentVolume (lb_Extension l) (ls_Extension labels) pv node\<rparr>"

definition SetLabelsForPersistentVolumeClaim ::
  "Labeler \<Rightarrow> LabelsValues \<Rightarrow> 'q persistentVolumeClaim option \<Rightarrow> 'q persistentVolume option \<Rightarrow> namespace option \<Rightarrow>
   'q pod option \<Rightarrow> workload \<Rightarrow> 'q node option \<Rightarrow> LabelsValues" where
  "SetLabelsForPersistentVolumeClaim l labels pvc pv ns pod w node =
     \<lparr>ls_BuiltIn = bi_SetLabelsForPersistentVolumeClaim (ls_BuiltIn labels) pvc pv pod w node,
      ls_Extension = ext_SetLabelsForPersistentVolumeClaim (lb_Extension l) (ls_Extension labels) pvc pv ns pod node\<rparr>"

definition SetLabelsForClusterScoped :: "LabelsValues \<Rightarrow> strmap \<Rightarrow> LabelsValues" where
  "SetLabelsForClusterScoped labels discoveredLabels =
     labels\<lparr>ls_BuiltIn := bi_SetLabelsForClusterScoped (ls_BuiltIn labels) discoveredLabels\<rparr>"

lemma labels_wf_setters [simp]:
  assumes "labels_wf l"
  shows "labels_wf (SetLabelsForContainer l c)"
    and "labels_wf (SetLabelsForContainerStatus l cs)"
    and "labels_wf (SetLabelsForPod lb l pod w node ns)"
    and "labels_wf (SetLabelsForNode lb l node')"
    and "labels_wf (SetLabelsFoCGroup l cg)"
    and "labels_wf (SetLabelsForQuota lb l q rqd ns')"
    and "labels_wf (SetLabelsForNamespaces lb l ns'')"
    and "labels_wf (SetLabelsForPVCQuota l q' r)"
    and "labels_wf (SetLabelsForPersistentVolume lb l pv pvc node'')"
    and "labels_wf (SetLabelsForPersistentVolumeClaim lb l pvc' pv' nsn pod' w' noden)"
    and "labels_wf (SetLabelsForClusterScoped l d)"
  using assms
  by (simp_all add: labels_wf_def SetLabelsForContainer_def SetLabelsForContainerStatus_def SetLabelsForPod_def
      SetLabelsForNode_def SetLabelsFoCGroup_def SetLabelsForQuota_def SetLabelsForNamespaces_def
      SetLabelsForPVCQuota_def SetLabelsForPersistentVolume_def SetLabelsForPersistentVolumeClaim_def
      SetLabelsForClusterScoped_def)

section \<open>Internal masks\<close>

record labelState =
  ci_nextId :: int
  ci_indexes :: labelIndexes
  ci_maskById :: "(int, extensionLabelsMask) gomap"

definition initInternalLabelsMask :: "labelState \<Rightarrow> labelsMask \<Rightarrow> labelsMask \<times> labelState" where
  "initInternalLabelsMask c mk =
     (let id = ci_nextId c;
          name = (\<lambda>i. gget '''' (li_labelNamesByIds (ci_indexes c)) (int i));
          extension = \<lparr>xm_keys = map name [0..<MaxExtensionLabels],
                       xm_bits = map (\<lambda>i. gget False (lm_Extensions mk) (name i)) [0..<MaxExtensionLabels]\<rparr>
      in (mk\<lparr>lm_ID := id\<rparr>,
          c\<lparr>ci_nextId := id + 1, ci_maskById := AList.update id extension (ci_maskById c)\<rparr>))"

fun initMasks :: "labelState \<Rightarrow> labelsMask list \<Rightarrow> labelsMask list \<times> labelState" where
  "initMasks c [] = ([], c)"
| "initMasks c (mk # mks) =
     (let (mk', c') = initInternalLabelsMask c mk; (mks', c'') = initMasks c' mks in (mk' # mks', c''))"

section \<open>Masking and exporting\<close>

definition mask_labels :: "labelState \<Rightarrow> labelsMask \<Rightarrow> LabelsValues \<Rightarrow> LabelsValues option" where
  "mask_labels c mk m =
     do { im \<leftarrow> map_of (ci_maskById c) (lm_ID mk);
          Some \<lparr>ls_BuiltIn = builtInMask (lm_BuiltIn mk) (ls_BuiltIn m),
                ls_Extension = Mask im (ls_Extension m)\<rparr> }"

definition overrideLabels :: "labelState \<Rightarrow> labelsMask \<Rightarrow> LabelsValues \<Rightarrow> strmap \<Rightarrow> LabelsValues option" where
  "overrideLabels c mk labels overrides =
     (if length overrides = 0 then Some labels
      else do { im \<leftarrow> map_of (ci_maskById c) (lm_ID mk);
                Some \<lparr>ls_BuiltIn = getOverrideBuiltInLabelValues (ls_BuiltIn labels) overrides,
                      ls_Extension = getOverrideExtensionLabelValues im (ls_Extension labels) overrides\<rparr> })"

text \<open>
  \<^verbatim>\<open>LabelOverrides\<close> is a global list of overriders, a parameter here. The slice \<^verbatim>\<open>values\<close> is updated in place:
  the result is its final content and the overrides.
\<close>

definition index_labels :: "string list \<Rightarrow> string list \<Rightarrow> strmap" where
  "index_labels names values = foldl (\<lambda>l (n, v). AList.update n v l) [] (zip names values)"

definition overrideStep ::
  "string list \<Rightarrow> string list \<times> strmap \<Rightarrow> (strmap \<Rightarrow> strmap) \<Rightarrow> string list \<times> strmap" where
  "overrideStep names vr ov =
     (let l = ov (index_labels names (fst vr))
      in (map2 (\<lambda>n v. gget v l n) names (fst vr),
          foldl (\<lambda>r n. case map_of l n of None \<Rightarrow> r | Some v \<Rightarrow> AList.update n v r) (snd vr) names))"

definition overrideValues ::
  "(strmap \<Rightarrow> strmap) list \<Rightarrow> string list \<Rightarrow> string list \<Rightarrow> string list \<times> strmap" where
  "overrideValues overriders values names = foldl (overrideStep names) (values, []) overriders"

definition getLabelValues :: "labelState \<Rightarrow> labelsMask \<Rightarrow> LabelsValues \<Rightarrow> string list option" where
  "getLabelValues c mk m =
     (let b = getBuiltInLabelValues (lm_BuiltIn mk)
                ((ls_BuiltIn m)\<lparr>bv_Level := (if bm_Level (lm_BuiltIn mk) then lm_Level mk else '''')\<rparr>)
      in do { im \<leftarrow> map_of (ci_maskById c) (lm_ID mk);
              Some (b @ GetLabelValues im (ls_Extension m)) })"

definition getLabelNames :: "labelState \<Rightarrow> labelsMask \<Rightarrow> string list option" where
  "getLabelNames c mk =
     do { im \<leftarrow> map_of (ci_maskById c) (lm_ID mk);
          Some (getBuiltInLabelNames (lm_BuiltIn mk) @ GetLabelNames im) }"

section \<open>Initialisation\<close>

text \<open>The identifiers that \<^verbatim>\<open>init\<close> hands out, one counter through all groups of labels.\<close>

fun number_from :: "(int \<Rightarrow> 'a \<Rightarrow> 'a) \<Rightarrow> int \<Rightarrow> 'a list \<Rightarrow> 'a list" where
  "number_from f i [] = []"
| "number_from f i (x # xs) = f i x # number_from f (i + 1) xs"

abbreviation set_el_ID :: "int \<Rightarrow> extensionLabel \<Rightarrow> extensionLabel" where
  "set_el_ID i x \<equiv> x\<lparr>el_ID := i\<rparr>"

fun number_sideCars :: "int \<Rightarrow> sideCarConfig list \<Rightarrow> sideCarConfig list" where
  "number_sideCars i [] = []"
| "number_sideCars i (sc # scs) =
     sc\<lparr>sc_Labels := number_from set_el_ID i (sc_Labels sc)\<rparr> # number_sideCars (i + int (length (sc_Labels sc))) scs"

definition initLabelIds :: "extensions \<Rightarrow> sideCarConfig list \<Rightarrow> extensions \<times> sideCarConfig list" where
  "initLabelIds e scs =
     (let n1 = int (length (ex_Pods e));
          n2 = n1 + int (length (ex_Quota e));
          n3 = n2 + int (length (ex_Nodes e));
          n4 = n3 + int (length (ex_Namespaces e));
          n5 = n4 + int (length (ex_NodeTaints e));
          n6 = n5 + int (length (ex_PVCs e));
          n7 = n6 + int (length (ex_PVs e))
      in (\<lparr>ex_Pods = number_from set_el_ID 0 (ex_Pods e),
           ex_Namespaces = number_from set_el_ID n3 (ex_Namespaces e),
           ex_Nodes = number_from set_el_ID n2 (ex_Nodes e),
           ex_Quota = number_from set_el_ID n1 (ex_Quota e),
           ex_PVCs = number_from set_el_ID n5 (ex_PVCs e),
           ex_PVs = number_from set_el_ID n6 (ex_PVs e),
           ex_NodeTaints = number_from (\<lambda>i t. t\<lparr>nt_ID := i\<rparr>) n4 (ex_NodeTaints e)\<rparr>,
          number_sideCars n7 scs))"

text \<open>The label state after \<^verbatim>\<open>init\<close>: numbered labels, their indexes, and one internal mask per level.\<close>

definition initLabels ::
  "extensions \<Rightarrow> sideCarConfig list \<Rightarrow> labelsMask list \<Rightarrow> (extensions \<times> sideCarConfig list) \<times> labelsMask list \<times> labelState"
where
  "initLabels e scs mks =
     (let (e', scs') = initLabelIds e scs
      in ((e', scs'),
          initMasks \<lparr>ci_nextId = 0, ci_indexes = initExtensionLabelIndexes e' scs', ci_maskById = []\<rparr> mks))"

section \<open>Identifiers\<close>

lemma upto_append: "i \<le> j \<Longrightarrow> j \<le> k \<Longrightarrow> [i..j - 1] @ [j..k - 1] = [i..k - 1 :: int]"
proof (induction "nat (j - i)" arbitrary: i)
  case 0
  then show ?case by simp
next
  case (Suc n)
  then have "i < j" by simp
  then have *: "[i..j - 1] = i # [i + 1..j - 1]" "[i..k - 1] = i # [i + 1..k - 1]"
    using Suc.prems by (simp_all add: upto_rec1)
  have "[i + 1..j - 1] @ [j..k - 1] = [i + 1..k - 1]"
    using Suc.hyps \<open>i < j\<close> Suc.prems by (intro Suc.hyps(1)) simp_all
  with * show ?case by simp
qed

lemma length_number_from [simp]: "length (number_from f i xs) = length xs"
  by (induction xs arbitrary: i) simp_all

lemma map_number_from:
  assumes "\<And>i x. g (f i x) = i"
  shows "map g (number_from f i xs) = [i..i + int (length xs) - 1]"
  by (induction xs arbitrary: i) (simp_all add: assms upto_rec1 algebra_simps)

lemma ids_number_sideCars:
  "map el_ID (concat (map sc_Labels (number_sideCars i scs))) =
   [i..i + int (length (concat (map sc_Labels scs))) - 1]"
proof (induction scs arbitrary: i)
  case (Cons sc scs)
  then show ?case
    using upto_append [of i "i + int (length (sc_Labels sc))" "i + int (length (concat (map sc_Labels (sc # scs))))"]
    by (simp add: map_number_from algebra_simps)
qed simp

definition label_count :: "extensions \<Rightarrow> sideCarConfig list \<Rightarrow> nat" where
  "label_count e scs =
     length (ex_Pods e) + length (ex_Quota e) + length (ex_Nodes e) + length (ex_Namespaces e) +
     length (ex_NodeTaints e) + length (ex_PVCs e) + length (ex_PVs e) + length (concat (map sc_Labels scs))"

lemma label_ids_upto:
  assumes "initLabelIds e scs = (e', scs')"
  shows "label_ids e' scs' = [0..int (label_count e scs) - 1]"
proof -
  have *: "[i..j - 1] @ [j..k - 1] @ xs = [i..k - 1] @ xs" if "i \<le> j" "j \<le> k" for i j k :: int and xs
    using upto_append [OF that] by simp
  have **: "e' = fst (initLabelIds e scs)" "scs' = snd (initLabelIds e scs)" using assms by simp_all
  have [simp]: "map nt_ID (number_from (\<lambda>i t. t\<lparr>nt_ID := i\<rparr>) i xs) = [i..i + int (length xs) - 1]" for i xs
    by (rule map_number_from) simp
  have [simp]: "map el_ID (number_from set_el_ID i xs) = [i..i + int (length xs) - 1]" for i xs
    by (rule map_number_from) simp
  show ?thesis
    unfolding ** initLabelIds_def Let_def label_ids_def fst_conv snd_conv extensions.simps
      ids_number_sideCars label_count_def
    by (simp add: * upto_append algebra_simps del: map_concat)
qed

section \<open>Initialised masks\<close>

definition masks_inv :: "labelState \<Rightarrow> bool" where
  "masks_inv c \<longleftrightarrow> (\<forall>i im. map_of (ci_maskById c) i = Some im \<longrightarrow> i < ci_nextId c \<and> extensionMask_wf im)"

text \<open>What \<^verbatim>\<open>initInternalLabelsMask\<close> establishes for the mask it returns.\<close>

definition mask_of :: "labelIndexes \<Rightarrow> (string, bool) gomap \<Rightarrow> extensionLabelsMask" where
  "mask_of ix exts =
     \<lparr>xm_keys = map (\<lambda>i. gget '''' (li_labelNamesByIds ix) (int i)) [0..<MaxExtensionLabels],
      xm_bits = map (\<lambda>i. gget False exts (gget '''' (li_labelNamesByIds ix) (int i))) [0..<MaxExtensionLabels]\<rparr>"

lemma extensionMask_wf_mask_of [simp]: "extensionMask_wf (mask_of ix exts)"
  by (simp add: mask_of_def extensionMask_wf_def slots_wf_def)

lemma initInternalLabelsMask_eq:
  "initInternalLabelsMask c mk =
   (mk\<lparr>lm_ID := ci_nextId c\<rparr>,
    c\<lparr>ci_nextId := ci_nextId c + 1,
      ci_maskById := AList.update (ci_nextId c) (mask_of (ci_indexes c) (lm_Extensions mk)) (ci_maskById c)\<rparr>)"
  by (simp add: initInternalLabelsMask_def mask_of_def Let_def)

definition addMask :: "labelState \<Rightarrow> labelsMask \<Rightarrow> labelState" where
  "addMask c mk = snd (initInternalLabelsMask c mk)"

lemma addMask_simps [simp]:
  "ci_nextId (addMask c mk) = ci_nextId c + 1"
  "ci_indexes (addMask c mk) = ci_indexes c"
  "map_of (ci_maskById (addMask c mk)) i =
     (if i = ci_nextId c then Some (mask_of (ci_indexes c) (lm_Extensions mk)) else map_of (ci_maskById c) i)"
  by (simp_all add: addMask_def initInternalLabelsMask_eq)

lemma initMasks_Cons:
  "initMasks c (mk # mks) =
   (mk\<lparr>lm_ID := ci_nextId c\<rparr> # fst (initMasks (addMask c mk) mks), snd (initMasks (addMask c mk) mks))"
  by (simp add: Let_def addMask_def split: prod.split) (simp add: initInternalLabelsMask_eq)

declare initMasks.simps(2) [simp del]

lemma masks_inv_addMask: "masks_inv c \<Longrightarrow> masks_inv (addMask c mk)"
  by (fastforce simp: masks_inv_def)

lemma initMasks_frame:
  "ci_indexes (snd (initMasks c mks)) = ci_indexes c"
  "ci_nextId (snd (initMasks c mks)) = ci_nextId c + int (length mks)"
  "i < ci_nextId c \<Longrightarrow> map_of (ci_maskById (snd (initMasks c mks))) i = map_of (ci_maskById c) i"
  by (induction mks arbitrary: c) (simp_all add: initMasks_Cons)

lemma masks_inv_initMasks: "masks_inv c \<Longrightarrow> masks_inv (snd (initMasks c mks))"
  by (induction mks arbitrary: c) (simp_all add: initMasks_Cons masks_inv_addMask)

lemma length_initMasks [simp]: "length (fst (initMasks c mks)) = length mks"
  by (induction mks arbitrary: c) (simp_all add: initMasks_Cons)

lemma initMasks_nth:
  assumes "j < length mks"
  shows "fst (initMasks c mks) ! j = (mks ! j)\<lparr>lm_ID := ci_nextId c + int j\<rparr>
       \<and> map_of (ci_maskById (snd (initMasks c mks))) (ci_nextId c + int j)
           = Some (mask_of (ci_indexes c) (lm_Extensions (mks ! j)))"
  using assms
proof (induction mks arbitrary: c j)
  case (Cons mk mks)
  show ?case
  proof (cases j)
    case 0
    then show ?thesis by (simp add: initMasks_Cons initMasks_frame(3))
  next
    case (Suc k)
    with Cons.prems have "k < length mks" by simp
    from Cons.IH [OF this, of "addMask c mk"] Suc show ?thesis
      by (simp add: initMasks_Cons algebra_simps)
  qed
qed simp

section \<open>The contract of masks, for whole labels\<close>

definition mask_with :: "labelsMask \<times> extensionLabelsMask \<Rightarrow> LabelsValues \<Rightarrow> LabelsValues" where
  "mask_with m l = \<lparr>ls_BuiltIn = builtInMask (lm_BuiltIn (fst m)) (ls_BuiltIn l),
                    ls_Extension = Mask (snd m) (ls_Extension l)\<rparr>"

definition set_level :: "labelsMask \<Rightarrow> builtInLabelsValues \<Rightarrow> builtInLabelsValues" where
  "set_level mk b = b\<lparr>bv_Level := (if bm_Level (lm_BuiltIn mk) then lm_Level mk else '''')\<rparr>"

definition values_with :: "labelsMask \<times> extensionLabelsMask \<Rightarrow> LabelsValues \<Rightarrow> string list" where
  "values_with m l =
     getBuiltInLabelValues (lm_BuiltIn (fst m)) (set_level (fst m) (ls_BuiltIn l)) @
     GetLabelValues (snd m) (ls_Extension l)"

definition names_with :: "labelsMask \<times> extensionLabelsMask \<Rightarrow> string list" where
  "names_with m = getBuiltInLabelNames (lm_BuiltIn (fst m)) @ GetLabelNames (snd m)"

definition override_with :: "labelsMask \<times> extensionLabelsMask \<Rightarrow> LabelsValues \<Rightarrow> strmap \<Rightarrow> LabelsValues" where
  "override_with m l ov =
     \<lparr>ls_BuiltIn = getOverrideBuiltInLabelValues (ls_BuiltIn l) ov,
      ls_Extension = getOverrideExtensionLabelValues (snd m) (ls_Extension l) ov\<rparr>"

text \<open>The keys the setters produce never carry a level: only \<^verbatim>\<open>getLabelValues\<close> fills it in.\<close>

definition key_wf :: "LabelsValues \<Rightarrow> bool" where
  "key_wf l \<longleftrightarrow> labels_wf l \<and> bv_Level (ls_BuiltIn l) = ''''"

lemma key_wf_labels_wf: "key_wf l \<Longrightarrow> labels_wf l"
  by (simp add: key_wf_def)

lemma with_lookup:
  assumes "map_of (ci_maskById c) (lm_ID mk) = Some im"
  shows "mask_labels c mk l = Some (mask_with (mk, im) l)"
    and "getLabelValues c mk l = Some (values_with (mk, im) l)"
    and "getLabelNames c mk = Some (names_with (mk, im))"
    and "ov \<noteq> [] \<Longrightarrow> overrideLabels c mk l ov = Some (override_with (mk, im) l ov)"
  using assms
  by (simp_all add: mask_labels_def mask_with_def getLabelValues_def values_with_def getLabelNames_def
      names_with_def overrideLabels_def override_with_def set_level_def)

lemma bv_Level_builtInMask: "bv_Level v = '''' \<Longrightarrow> bv_Level (builtInMask m v) = ''''"
  by (simp add: builtInMask_def)

lemma builtInMask_set_level:
  "builtInMask (lm_BuiltIn mk) (set_level mk v) =
   (builtInMask (lm_BuiltIn mk) v)\<lparr>bv_Level := (if bm_Level (lm_BuiltIn mk) then lm_Level mk else '''')\<rparr>"
  by (simp add: builtInMask_def set_level_def)

lemma set_level_builtInMask:
  "set_level mk (builtInMask (lm_BuiltIn mk) v) = builtInMask (lm_BuiltIn mk) (set_level mk v)"
  by (simp add: builtInMask_def set_level_def)

lemma bv_update_Level_cancel:
  assumes "v\<lparr>bv_Level := x\<rparr> = w\<lparr>bv_Level := x\<rparr>" "bv_Level v = bv_Level w"
  shows "v = (w :: builtInLabelsValues)"
  using assms by (cases v; cases w) simp

interpretation lmask: masking "\<lambda>m. extensionMask_wf (snd m)" key_wf mask_with names_with values_with
proof
  fix m :: "labelsMask \<times> extensionLabelsMask" and v w
  assume m: "extensionMask_wf (snd m)" and v: "key_wf v"
  have vx: "slots_wf (ls_Extension v)" using v by (simp add: key_wf_def labels_wf_def)
  show "key_wf (mask_with m v)"
    using m v vx xmask.vinv_mask by (simp add: key_wf_def labels_wf_def mask_with_def bv_Level_builtInMask)
  show "length (values_with m v) = length (names_with m)"
    using m vx by (simp add: values_with_def names_with_def bmask.length_values xmask.length_values)
  show "values_with m (mask_with m v) = values_with m v"
    using m vx
    by (simp add: values_with_def mask_with_def set_level_builtInMask bmask.values_mask xmask.values_mask)
  assume w: "key_wf w" and eq: "values_with m v = values_with m w"
  have wx: "slots_wf (ls_Extension w)" using w by (simp add: key_wf_def labels_wf_def)
  have "length (getBuiltInLabelValues (lm_BuiltIn (fst m)) a) = length (getBuiltInLabelValues (lm_BuiltIn (fst m)) b)"
    for a b by (simp add: bmask.length_values)
  with eq have b: "getBuiltInLabelValues (lm_BuiltIn (fst m)) (set_level (fst m) (ls_BuiltIn v))
      = getBuiltInLabelValues (lm_BuiltIn (fst m)) (set_level (fst m) (ls_BuiltIn w))"
    and x: "GetLabelValues (snd m) (ls_Extension v) = GetLabelValues (snd m) (ls_Extension w)"
    unfolding values_with_def by (simp_all only: append_eq_append_conv simp_thms disj_not1)
  from b have "builtInMask (lm_BuiltIn (fst m)) (set_level (fst m) (ls_BuiltIn v))
      = builtInMask (lm_BuiltIn (fst m)) (set_level (fst m) (ls_BuiltIn w))"
    by (rule bmask.mask_eqI [OF TrueI TrueI TrueI])
  then have "builtInMask (lm_BuiltIn (fst m)) (ls_BuiltIn v) = builtInMask (lm_BuiltIn (fst m)) (ls_BuiltIn w)"
    unfolding builtInMask_set_level using v w
    by (elim bv_update_Level_cancel) (simp add: key_wf_def bv_Level_builtInMask)
  with xmask.mask_eqI [OF m vx wx x] show "mask_with m v = mask_with m w"
    by (simp only: mask_with_def)
qed

section \<open>Overrides\<close>

lemma map_of_collect_overrides:
  "map_of (foldl (\<lambda>r n. case map_of l n of None \<Rightarrow> r | Some v \<Rightarrow> AList.update n v r) r names) k =
   (if k \<in> set names \<and> map_of l k \<noteq> None then map_of l k else map_of r k)"
  by (induction names arbitrary: r) (auto split: option.split)

lemma overrideValues_step:
  assumes "length vs0 = length names"
  shows "map2 (\<lambda>n v. gget v l n) names (map2 (\<lambda>n v. gget v r n) names vs0) =
         map2 (\<lambda>n v. gget v (foldl (\<lambda>r n. case map_of l n of None \<Rightarrow> r | Some v \<Rightarrow> AList.update n v r) r names) n)
           names vs0"
proof (rule nth_equalityI)
  fix i assume "i < length (map2 (\<lambda>n v. gget v l n) names (map2 (\<lambda>n v. gget v r n) names vs0))"
  then have "i < length names" by simp
  then have "names ! i \<in> set names" by simp
  with assms \<open>i < length names\<close> show "map2 (\<lambda>n v. gget v l n) names (map2 (\<lambda>n v. gget v r n) names vs0) ! i =
      map2 (\<lambda>n v. gget v (foldl (\<lambda>r n. case map_of l n of None \<Rightarrow> r | Some v \<Rightarrow> AList.update n v r) r names) n)
           names vs0 ! i"
    by (auto simp: gget_def map_of_collect_overrides split: option.split)
qed simp

text \<open>The values after all overriders are the original ones updated by the collected overrides.\<close>

lemma overrideStep_values:
  assumes "length vs0 = length names" "fst vr = map2 (\<lambda>n v. gget v (snd vr) n) names vs0"
  shows "fst (overrideStep names vr ov) = map2 (\<lambda>n v. gget v (snd (overrideStep names vr ov)) n) names vs0"
  unfolding overrideStep_def Let_def fst_conv snd_conv by (subst assms(2)) (rule overrideValues_step [OF assms(1)])

lemma overrideValues_values:
  assumes "length values = length names"
  shows "fst (overrideValues ovs values names) = map2 (\<lambda>n v. gget v (snd (overrideValues ovs values names)) n) names values"
proof -
  have "fst vr = map2 (\<lambda>n v. gget v (snd vr) n) names values \<Longrightarrow>
    fst (foldl (overrideStep names) vr ovs) =
    map2 (\<lambda>n v. gget v (snd (foldl (overrideStep names) vr ovs)) n) names values" for vr
    by (induction ovs arbitrary: vr) (simp_all add: overrideStep_values [OF assms])
  moreover have "values = map2 (\<lambda>n v. gget v [] n) names values"
    using assms by (intro nth_equalityI) simp_all
  ultimately show ?thesis unfolding overrideValues_def by (metis fst_conv snd_conv)
qed

lemma length_overrideValues:
  "length values = length names \<Longrightarrow> length (fst (overrideValues ovs values names)) = length names"
  by (subst overrideValues_values) simp_all

lemma keep_map2: "length xs = length ys \<Longrightarrow> keep bs (map2 f xs ys) = map2 f (keep bs xs) (keep bs ys)"
proof (induction xs ys arbitrary: bs rule: list_induct2)
  case (Cons x xs y ys)
  then show ?case by (cases bs) simp_all
qed simp

lemma set_level_override:
  assumes "map_of ov LevelLabel = None \<or> \<not> bm_Level (lm_BuiltIn mk)"
  shows "getBuiltInLabelValues (lm_BuiltIn mk) (set_level mk (getOverrideBuiltInLabelValues b ov)) =
         getBuiltInLabelValues (lm_BuiltIn mk) (getOverrideBuiltInLabelValues (set_level mk b) ov)"
  using assms
  by (auto simp: getBuiltInLabelValues_def getOverrideBuiltInLabelValues_def set_level_def gget_def)

lemma values_with_override:
  assumes "extensionMask_wf (snd m)" "labels_wf l"
    and "map_of ov LevelLabel = None \<or> \<not> bm_Level (lm_BuiltIn (fst m))"
  shows "values_with m (override_with m l ov) = map2 (\<lambda>n v. gget v ov n) (names_with m) (values_with m l)"
proof -
  have b: "getBuiltInLabelValues (lm_BuiltIn (fst m)) (set_level (fst m) (getOverrideBuiltInLabelValues (ls_BuiltIn l) ov))
    = map2 (\<lambda>n v. gget v ov n) (getBuiltInLabelNames (lm_BuiltIn (fst m)))
        (getBuiltInLabelValues (lm_BuiltIn (fst m)) (set_level (fst m) (ls_BuiltIn l)))"
    unfolding set_level_override [OF assms(3)]
    by (simp add: getBuiltInLabelValues_keep getBuiltInLabelNames_keep bv_fields_override keep_map2)
  have x: "GetLabelValues (snd m) (getOverrideExtensionLabelValues (snd m) (ls_Extension l) ov)
    = map2 (\<lambda>n v. gget v ov n) (GetLabelNames (snd m)) (GetLabelValues (snd m) (ls_Extension l))"
    using assms(1,2)
    by (simp add: GetLabelValues_def GetLabelNames_def getOverrideExtensionLabelValues_def keep_map2
        extensionMask_wf_def slots_wf_def labels_wf_def)
  show ?thesis
    by (simp add: values_with_def names_with_def override_with_def b x bmask.length_values)
qed

section \<open>An example configuration\<close>

definition ex_label :: "string \<Rightarrow> extensionLabel" where
  "ex_label n = \<lparr>el_LabelName = n, el_AnnotationKey = '''', el_AnnotationKeys = [], el_LabelKey = n,
                 el_LabelKeys = [], el_Value = '''', el_ID = 0\<rparr>"

definition ex_extensions :: extensions where
  "ex_extensions = \<lparr>ex_Pods = [ex_label ''team'', ex_label ''tier''], ex_Namespaces = [], ex_Nodes = [ex_label ''zone''],
                    ex_Quota = [], ex_PVCs = [], ex_PVs = [], ex_NodeTaints = []\<rparr>"

definition ex_builtInMask :: builtInLabelsMask where
  "ex_builtInMask =
     \<lparr>bm_ContainerName = False, bm_PodName = False, bm_NamespaceName = True, bm_NodeName = False,
      bm_NodeUnschedulable = False, bm_WorkloadName = True, bm_WorkloadKind = False, bm_WorkloadAPIGroup = False,
      bm_WorkloadAPIVersion = False, bm_App = False, bm_QuotaName = False, bm_AllocationStrategy = False,
      bm_PriorityClass = False, bm_Scheduled = False, bm_Level = False, bm_PVCName = False, bm_PVName = False,
      bm_StorageClass = False, bm_CGroup = False, bm_Phase = False, bm_PVType = False,
      bm_ContainerImage = False, bm_ContainerImageID = False\<rparr>"

definition ex_mask :: labelsMask where
  "ex_mask = \<lparr>lm_Level = ''workload'', lm_BuiltIn = ex_builtInMask, lm_Extensions = [(''team'', True)],
              lm_Filters = [], lm_ID = 0\<rparr>"

definition ex_labels :: "string \<Rightarrow> string \<Rightarrow> LabelsValues" where
  "ex_labels pod workload =
     emptyLabels\<lparr>ls_BuiltIn := emptyBuiltIn\<lparr>bv_PodName := pod, bv_WorkloadName := workload\<rparr>\<rparr>"

lemma key_wf_ex_labels [simp]: "key_wf (ex_labels p w)"
  by (simp add: ex_labels_def key_wf_def labels_wf_def emptyLabels_def emptyBuiltIn_def)

definition ex_init :: "(extensions \<times> sideCarConfig list) \<times> labelsMask list \<times> labelState" where
  "ex_init = initLabels ex_extensions [] [ex_mask]"

lemma ex_init_masks: "fst (snd ex_init) = [ex_mask]"
  by (simp add: ex_init_def initLabels_def initMasks_Cons ex_mask_def split: prod.split)

lemma ex_init_eq:
  "initLabels ex_extensions [] [ex_mask] = ((fst (fst ex_init), snd (fst ex_init)), [ex_mask], snd (snd ex_init))"
  by (metis ex_init_def ex_init_masks prod.collapse)

section \<open>Properties\<close>

lemma initLabels_masks:
  assumes "initLabels e scs mks = ((e', scs'), mks', c)"
  shows "mks' = fst (initMasks \<lparr>ci_nextId = 0, ci_indexes = initExtensionLabelIndexes e' scs', ci_maskById = []\<rparr> mks)"
    and "c = snd (initMasks \<lparr>ci_nextId = 0, ci_indexes = initExtensionLabelIndexes e' scs', ci_maskById = []\<rparr> mks)"
    and "initLabelIds e scs = (e', scs')"
  using assms by (auto simp: initLabels_def split: prod.splits)

lemma initLabels_lookup:
  assumes "initLabels e scs mks = ((e', scs'), mks', c)" "mk \<in> set mks'"
  shows "map_of (ci_maskById c) (lm_ID mk) = Some (mask_of (initExtensionLabelIndexes e' scs') (lm_Extensions mk))"
proof -
  note i = initLabels_masks [OF assms(1)]
  from assms(2) obtain j where j: "j < length mks" "mk = mks' ! j"
    unfolding i(1) by (metis in_set_conv_nth length_initMasks)
  from initMasks_nth [OF j(1), of "\<lparr>ci_nextId = 0, ci_indexes = initExtensionLabelIndexes e' scs', ci_maskById = []\<rparr>"]
  show ?thesis unfolding j(2) i(1,2) by (simp del: ci_maskById_def)
qed

text \<open>
  Initialisation gives every level mask its own internal mask: the identifiers of the masks that
  \<^verbatim>\<open>initInternalLabelsMask\<close> numbers are 0, 1, 2, ... in order, each is found in
  \<^verbatim>\<open>extensionLabelMaskById\<close>, slot \<^verbatim>\<open>i\<close> of what is found holds the name of the label with identifier \<^verbatim>\<open>i\<close> and
  is kept exactly if the level's configuration lists that name as true.
\<close>

theorem init_masks_complete:
  assumes "initLabels e scs mks = ((e', scs'), mks', c)"
  shows "map lm_ID mks' = map int [0..<length mks]
       \<and> (\<forall>mk \<in> set mks'. \<exists>im. map_of (ci_maskById c) (lm_ID mk) = Some im \<and> extensionMask_wf im
            \<and> (\<forall>i. in_slots i \<longrightarrow>
                 GetKey (xm_keys im) i = (case map_of (rev (id_names e' scs')) i of None \<Rightarrow> '''' | Some n \<Rightarrow> n)
               \<and> xm_bits im ! nat i = gget False (lm_Extensions mk) (GetKey (xm_keys im) i)))"
proof (intro conjI ballI)
  note i = initLabels_masks [OF assms]
  show "map lm_ID mks' = map int [0..<length mks]"
    unfolding i(1) by (rule nth_equalityI) (simp_all add: initMasks_nth)
  fix mk assume "mk \<in> set mks'"
  from initLabels_lookup [OF assms this]
  show "\<exists>im. map_of (ci_maskById c) (lm_ID mk) = Some im \<and> extensionMask_wf im
            \<and> (\<forall>i. in_slots i \<longrightarrow>
                 GetKey (xm_keys im) i = (case map_of (rev (id_names e' scs')) i of None \<Rightarrow> '''' | Some n \<Rightarrow> n)
               \<and> xm_bits im ! nat i = gget False (lm_Extensions mk) (GetKey (xm_keys im) i))"
    using extensionMask_wf_mask_of [of "initExtensionLabelIndexes e' scs'" "lm_Extensions mk"]
    by (auto simp: mask_of_def GetKey_def in_slots_def nat_less_iff gget_def
        namesByIds_initExtensionLabelIndexes)
qed

theorem init_masks_complete_witness:
  "map lm_ID [ex_mask] = [0] \<and> (\<exists>im. map_of (ci_maskById (snd (snd ex_init))) 0 = Some im \<and> extensionMask_wf im)"
  using init_masks_complete [OF ex_init_eq] by (auto simp: ex_mask_def)

text \<open>
  C13. The exported label names and label values of a metric always line up: after initialisation, for every
  level mask and every key, \<^verbatim>\<open>getLabelNames\<close> and \<^verbatim>\<open>getLabelValues\<close> return slices of the same length (no nil
  mask is dereferenced and the constructor of the exported metric gets as many values as names).
\<close>

theorem exported_labels_aligned:
  assumes "initLabels e scs mks = ((e', scs'), mks', c)" "mk \<in> set mks'" "key_wf l"
  shows "\<exists>ns vs. getLabelNames c mk = Some ns \<and> getLabelValues c mk l = Some vs \<and> length vs = length ns"
  using assms(3) by (simp add: with_lookup [OF initLabels_lookup [OF assms(1,2)]] lmask.length_values)

theorem exported_labels_aligned_witness:
  "\<exists>ns vs. getLabelNames (snd (snd ex_init)) ex_mask = Some ns
     \<and> getLabelValues (snd (snd ex_init)) ex_mask (ex_labels ''p'' ''w'') = Some vs \<and> length vs = length ns"
  using exported_labels_aligned [OF ex_init_eq, of ex_mask "ex_labels ''p'' ''w''"] by simp

text \<open>
  C12. Two keys are merged by a level mask exactly if they are exported with the same label values, so a
  level never exports two series with the same labels; masking is idempotent and keeps what is exported.
\<close>

theorem masked_keys_are_exported_series:
  assumes "initLabels e scs mks = ((e', scs'), mks', c)" "mk \<in> set mks'" "key_wf l" "key_wf l'"
  shows "(mask_labels c mk l = mask_labels c mk l' \<longleftrightarrow> getLabelValues c mk l = getLabelValues c mk l')
       \<and> Option.bind (mask_labels c mk l) (mask_labels c mk) = mask_labels c mk l
       \<and> Option.bind (mask_labels c mk l) (getLabelValues c mk) = getLabelValues c mk l"
  using assms(3,4)
  by (simp add: with_lookup [OF initLabels_lookup [OF assms(1,2)]] lmask.mask_eq_iff lmask.mask_idem
      lmask.values_mask)

theorem masked_keys_are_exported_series_witness:
  "(mask_labels (snd (snd ex_init)) ex_mask (ex_labels ''p'' ''w'')
      = mask_labels (snd (snd ex_init)) ex_mask (ex_labels ''q'' ''w''))
   = (getLabelValues (snd (snd ex_init)) ex_mask (ex_labels ''p'' ''w'')
      = getLabelValues (snd (snd ex_init)) ex_mask (ex_labels ''q'' ''w''))"
  using masked_keys_are_exported_series [OF ex_init_eq, of ex_mask "ex_labels ''p'' ''w''" "ex_labels ''q'' ''w''"]
  by simp

text \<open>
  The overrides collected for the filters are the ones exported: the label values of the overridden key
  are the values that the filters of \<^verbatim>\<open>aggregateMetric\<close> see, unless an overrider changes the level label,
  which \<^verbatim>\<open>getLabelValues\<close> replaces by the level of the mask.
\<close>

theorem override_consistent:
  assumes "initLabels e scs mks = ((e', scs'), mks', c)" "mk \<in> set mks'" "key_wf l"
    and "getLabelNames c mk = Some ns" "getLabelValues c mk l = Some vs"
    and "overrideValues ovs vs ns = (vs', r)"
    and "map_of r LevelLabel = None"
  shows "\<exists>l'. overrideLabels c mk l r = Some l' \<and> getLabelValues c mk l' = Some vs'"
proof -
  let ?m = "(mk, mask_of (initExtensionLabelIndexes e' scs') (lm_Extensions mk))"
  note w = with_lookup [OF initLabels_lookup [OF assms(1,2)]]
  have ns: "ns = names_with ?m" and vs: "vs = values_with ?m l" using assms(4,5) by (simp_all add: w)
  have len: "length vs = length ns" unfolding ns vs using assms(3) by (simp add: lmask.length_values)
  have vs': "vs' = map2 (\<lambda>n v. gget v r n) ns vs" using overrideValues_values [OF len, of ovs] assms(6) by simp
  show ?thesis
  proof (cases "r = []")
    case True
    then have "vs' = vs" unfolding vs' using len by (intro nth_equalityI) simp_all
    with True assms(5) show ?thesis by (simp add: overrideLabels_def)
  next
    case False
    then show ?thesis
      using values_with_override [of ?m l r] assms(3,7) by (simp add: w vs' ns vs key_wf_def)
  qed
qed

theorem override_consistent_witness:
  "\<exists>ns vs l'. getLabelNames (snd (snd ex_init)) ex_mask = Some ns
     \<and> getLabelValues (snd (snd ex_init)) ex_mask (ex_labels ''p'' ''w'') = Some vs
     \<and> overrideLabels (snd (snd ex_init)) ex_mask (ex_labels ''p'' ''w'')
         (snd (overrideValues [\<lambda>_. [(''workload_name'', ''other'')]] vs ns)) = Some l'
     \<and> getLabelValues (snd (snd ex_init)) ex_mask l'
         = Some (fst (overrideValues [\<lambda>_. [(''workload_name'', ''other'')]] vs ns))"
proof -
  note w = with_lookup [OF initLabels_lookup [OF ex_init_eq, of ex_mask]]
  let ?m = "(ex_mask, mask_of (initExtensionLabelIndexes (fst (fst ex_init)) (snd (fst ex_init))) (lm_Extensions ex_mask))"
  let ?ov = "overrideValues [\<lambda>_. [(''workload_name'', ''other'')]] (values_with ?m (ex_labels ''p'' ''w'')) (names_with ?m)"
  have "map_of (snd ?ov) LevelLabel = None"
    by (simp only: overrideValues_def foldl.simps overrideStep_def Let_def snd_conv map_of_collect_overrides)
      (simp add: LevelLabel_def)
  then show ?thesis
    using override_consistent [OF ex_init_eq, of ex_mask "ex_labels ''p'' ''w''" "names_with ?m"
        "values_with ?m (ex_labels ''p'' ''w'')" "[\<lambda>_. [(''workload_name'', ''other'')]]" "fst ?ov" "snd ?ov"]
    by (simp add: w)
qed

text \<open>
  C14. Initialisation numbers the extension labels and the side car labels consecutively from 0, in the order
  pods, quota, nodes, namespaces, node taints, claims, volumes, side cars: no two share a slot, and all of
  them have one exactly if there are at most 100.
\<close>

theorem label_ids_consecutive:
  assumes "initLabelIds e scs = (e', scs')"
  shows "label_ids e' scs' = [0..int (label_count e scs) - 1] \<and> distinct (label_ids e' scs')
       \<and> ((\<forall>i \<in> set (label_ids e' scs'). in_slots i) \<longleftrightarrow> label_count e scs \<le> MaxExtensionLabels)"
proof -
  have "(\<forall>i \<in> {0..int n - 1}. i < int N) \<longleftrightarrow> n \<le> N" for n N :: nat
    by (cases n) auto
  then show ?thesis
    unfolding label_ids_upto [OF assms] in_slots_def by (auto simp: distinct_upto)
qed

theorem label_ids_consecutive_witness:
  "label_ids (fst (initLabelIds ex_extensions [])) (snd (initLabelIds ex_extensions [])) = [0..2]"
  using label_ids_consecutive [of ex_extensions "[]" "fst (initLabelIds ex_extensions [])"
      "snd (initLabelIds ex_extensions [])"]
  by (simp add: label_count_def ex_extensions_def)

text \<open>
  C15. Labels of a pod: once the labels are numbered and fit the slots, the value that \<^verbatim>\<open>SetLabelsForPod\<close> gives the
  slot of a pod extension label is the one read from the pod's metadata (its label, its alternative
  labels, its annotation, its alternative annotations, the configured default, in this order of preference)
  and otherwise what the slot held; the labels of the namespace, of the node and of the side cars do not interfere.
\<close>

theorem pod_extension_label_value:
  assumes "initLabelIds e scs = (e', scs')" "label_count e scs \<le> MaxExtensionLabels"
    and "lb_Extension lb = \<lparr>xl_Extensions = e', xl_SideCar = scs'\<rparr>"
    and "v \<in> set (ex_Pods e')" "labels_wf labels"
  shows "GetValue (ls_Extension (SetLabelsForPod lb labels (Some pod) w node ns)) (el_ID v) =
         (case metadataValue v (pd_Meta pod) of None \<Rightarrow> GetValue (ls_Extension labels) (el_ID v) | Some x \<Rightarrow> x)"
proof -
  have ids: "distinct (label_ids e' scs')" "\<forall>i \<in> set (label_ids e' scs'). 0 \<le> i \<and> i < int MaxExtensionLabels"
    using assms(2) by (auto simp: label_ids_upto [OF assms(1)] distinct_upto)
  let ?i = "el_ID v"
  have "?i \<in> el_ID ` set (ex_Pods e')" using assms(4) by (rule imageI)
  then have mem: "?i \<in> set (label_ids e' scs')" "?i \<in> set (map el_ID (ex_Pods e'))"
    by (simp_all add: label_ids_def)
  with ids(2) have i: "0 \<le> ?i" "?i < int MaxExtensionLabels" by blast+
  have d: "distinct (map el_ID (ex_Pods e'))" using ids(1) by (simp only: label_ids_def distinct_append)
  define rest where "rest = map el_ID (ex_Quota e') @ map el_ID (ex_Nodes e') @ map el_ID (ex_Namespaces e') @
     map nt_ID (ex_NodeTaints e') @ map el_ID (ex_PVCs e') @ map el_ID (ex_PVs e') @
     map el_ID (concat (map sc_Labels scs'))"
  have "distinct (map el_ID (ex_Pods e') @ rest)" using ids(1) by (simp only: label_ids_def rest_def)
  with mem(2) have "?i \<notin> set rest" by (metis disjoint_iff distinct_append)
  then have other: "?i \<notin> set (map el_ID (ex_Namespaces e'))" "?i \<notin> set (map el_ID (ex_Nodes e'))"
    "?i \<notin> set (map nt_ID (ex_NodeTaints e'))" "?i \<notin> set (map el_ID (concat (map sc_Labels scs')))"
    by (simp_all only: rest_def set_append Un_iff de_Morgan_disj simp_thms)
  have "map_of (rev (podWrites (lb_Extension lb) (Some pod) node ns)) ?i = metadataValue v (pd_Meta pod)"
    using other d assms(4)
    by (auto simp: podWrites_def namespaceWrites_def nodeWrites_def assms(3) map_add_def
        map_of_metadataWrites map_of_metadataWrites_None map_of_sideCarWrites_None
        map_of_taintWrites_None split: option.split)
  with assms(5) i show ?thesis
    by (simp add: SetLabelsForPod_def ext_SetLabelsForPod_writes vals.get_set_all labels_wf_def)
qed

definition ex_pod :: "string \<Rightarrow> strmap \<Rightarrow> 'q pod" where
  "ex_pod n ls =
     \<lparr>pd_Meta = \<lparr>om_Name = n, om_Namespace = ''default'', om_UID = '''', om_Labels = ls, om_Annotations = [],
                  om_OwnerReferences = [], om_CreationTimestamp = 0, om_DeletionTimestamp = None\<rparr>,
      pd_NodeName = '''', pd_PriorityClassName = '''', pd_RuntimeClassName = None, pd_RequiredNodeTerms = None, pd_Containers = [], pd_Claims = [], pd_Phase = ''Running'',
      pd_Conditions = [], pd_ContainerStatuses = []\<rparr>"

theorem pod_extension_label_value_witness:
  "GetValue (ls_Extension (SetLabelsForPod
      \<lparr>lb_BuiltIn = \<lparr>bl_UseQuotaNameForPriorityClass = False\<rparr>,
       lb_Extension = \<lparr>xl_Extensions = fst (initLabelIds ex_extensions []), xl_SideCar = []\<rparr>\<rparr>
      emptyLabels (Some (ex_pod ''p'' [(''tier'', ''gold'')] :: rat pod))
      \<lparr>wl_Name = '''', wl_Kind = '''', wl_APIGroup = '''', wl_APIVersion = ''''\<rparr> None None)) 1 = ''gold''"
  using pod_extension_label_value [of ex_extensions "[]" "fst (initLabelIds ex_extensions [])" "[]"
      "\<lparr>lb_BuiltIn = \<lparr>bl_UseQuotaNameForPriorityClass = False\<rparr>,
       lb_Extension = \<lparr>xl_Extensions = fst (initLabelIds ex_extensions []), xl_SideCar = []\<rparr>\<rparr>"
      "(ex_label ''tier'')\<lparr>el_ID := 1\<rparr>" emptyLabels "ex_pod ''p'' [(''tier'', ''gold'')] :: rat pod"
      "\<lparr>wl_Name = '''', wl_Kind = '''', wl_APIGroup = '''', wl_APIVersion = ''''\<rparr>" None None]
  by (simp add: initLabelIds_def Let_def ex_extensions_def label_count_def MaxExtensionLabels_def
      metadataValue_def ex_label_def ex_pod_def)

end
