(* ===== verification/Percentile.thy ===== *)
theory Percentile
  imports Go_Float
begin

text \<open>
  The index of the 95th percentile that \<^verbatim>\<open>aggregate\<close> (\<^verbatim>\<open>pkg/collector/operations.go\<close>) computes in float64,
  \<^verbatim>\<open>int(math.Floor(float64(len(values)-1) * 0.95))\<close>, and its exact value: the constant is slightly less than
  95/100, but rounding makes up for it.
\<close>

definition p95_const :: rat where "p95_const = 4278419646001971 / 4503599627370496"

definition percentileIndex :: "nat \<Rightarrow> int" where
  "percentileIndex n = \<lfloor>rnd64 (rnd64 (of_int (int n - 1)) * p95_const)\<rfloor>"

lemma p95_times: "of_int k * p95_const = of_int (19 * k) / 20 - of_int k / (5 * 2 ^ 52)"
  by (simp add: p95_const_def field_simps)

lemma percentile_fraction:
  assumes "0 \<le> k" "k \<le> 2 ^ 44" "19 * k mod 20 \<noteq> 0"
  shows "\<lfloor>rnd64 (of_int k * p95_const)\<rfloor> = 19 * k div 20"
proof -
  define m where "m = 19 * k div 20"
  define r where "r = 19 * k mod 20"
  have k: "19 * k = 20 * m + r" "1 \<le> r" "r \<le> 19"
    using assms(3) pos_mod_bound [of 20 "19 * k"] pos_mod_sign [of 20 "19 * k"] by (auto simp: m_def r_def)
  have m: "0 \<le> m" "m < 2 ^ 44" using k assms(1,2) by simp_all
  let ?x = "of_int k * p95_const"
  have x: "?x = of_int m + of_int r / 20 - of_int k / (5 * 2 ^ 52)"
    unfolding p95_times k(1) by (simp add: field_simps)
  have kk: "0 \<le> (of_int k :: rat)" "(of_int k :: rat) \<le> 2 ^ 44"
    using assms(1,2) by (simp_all flip: of_int_le_numeral_power_cancel_iff)
  have small: "0 \<le> (of_int k :: rat) / (5 * 2 ^ 52)" "(of_int k :: rat) / (5 * 2 ^ 52) \<le> 1 / 1280"
    using kk by (simp_all add: field_simps)
  have rr: "(1::rat) \<le> of_int r" "(of_int r :: rat) \<le> 19" using k(2,3) by simp_all
  have lo: "of_int m \<le> ?x" and hi: "?x \<le> of_int (64 * m + 63) * 2 powi (- 6)"
    unfolding x using small rr by (simp_all add: power_int_minus field_simps)
  let ?y = "of_int (64 * m + 63) * 2 powi (- 6) :: rat"
  have y: "0 < ?y" "?y < of_int (m + 1)" using m(1) by (simp_all add: power_int_minus field_simps)
  have "(of_int (m + 1) :: rat) \<le> of_int (2 ^ 44)" using m(2) by (simp only: of_int_le_iff)
  also have "\<dots> \<le> 2 powi (- 6 + 53)" by simp
  finally have "ulp_exp ?y \<le> - 6" using y by (intro ulp_exp_le) simp_all
  then have "rnd64 ?y = ?y" by (intro rnd64_exact [OF refl])
  with rnd64_mono [OF _ hi] lo m(1) have up: "rnd64 ?x \<le> ?y"
    by (metis of_int_0_le_iff order_trans)
  have "rnd64 (of_int m) \<le> rnd64 ?x" using lo m(1) by (intro rnd64_mono) simp_all
  moreover have "rnd64 (of_int m) = of_int m" using m by (intro rnd64_of_int) simp
  ultimately have "of_int m \<le> rnd64 ?x" by simp
  with up y(2) show ?thesis unfolding m_def [symmetric] by (simp add: floor_eq_iff)
qed

lemma percentile_exact:
  assumes "0 < j" "j \<le> 2 ^ 40"
  shows "rnd64 (of_int (20 * j) * p95_const) = of_int (19 * j)"
proof -
  let ?x = "of_int (20 * j) * p95_const"
  have x: "?x = of_int (19 * j) - of_int (4 * j) / 2 ^ 52"
    unfolding p95_times by (simp add: field_simps)
  have jj: "0 < (of_int j :: rat)" "(of_int j :: rat) \<le> 2 ^ 40"
    using assms by (simp_all flip: of_int_le_numeral_power_cancel_iff)
  have pos: "0 < ?x" and le: "?x < 2 powi (0 + 53)" unfolding x using jj by (simp_all add: field_simps)
  let ?u = "(2::rat) powi ulp_exp ?x"
  have "?x \<noteq> 0" using pos by (rule less_imp_neq [symmetric])
  from ulp_exp_upper [OF this] pos have "?x < 2 powi (ulp_exp ?x + 53)" by (simp only: abs_of_pos)
  also have "(2::rat) powi (ulp_exp ?x + 53) = ?u * 2 ^ 53" by (simp add: power_int_add)
  finally have "of_int (19 * j) - of_int (4 * j) / 2 ^ 52 < ?u * 2 ^ 53" unfolding x .
  then have "of_int (4 * j) / 2 ^ 52 < ?u / 2" using jj by (simp add: field_simps)
  moreover have "\<bar>of_int (19 * j) - ?x\<bar> = of_int (4 * j) / 2 ^ 52" unfolding x using jj by simp
  ultimately have "\<bar>of_int (19 * j) - ?x\<bar> < ?u / 2" by simp
  moreover have "ulp_exp ?x \<le> 0" using pos le by (intro ulp_exp_le) simp_all
  ultimately show ?thesis using pos by (intro rnd64_near)
qed

lemma percentileIndex_eq:
  assumes "0 < n" "n \<le> 2 ^ 40"
  shows "percentileIndex n = 19 * (int n - 1) div 20"
proof -
  define k where "k = int n - 1"
  have "int n \<le> 2 ^ 40" using assms(2) by (metis of_nat_le_iff of_nat_numeral of_nat_power)
  then have k: "0 \<le> k" "k < 2 ^ 40" using assms(1) by (simp_all add: k_def)
  have "rnd64 (of_int k) = of_int k" using k by (intro rnd64_of_int) simp
  moreover have "\<lfloor>rnd64 (of_int k * p95_const)\<rfloor> = 19 * k div 20"
  proof (cases "19 * k mod 20 = 0")
    case True
    then have "20 dvd k" by presburger
    then obtain j where j: "k = 20 * j" by blast
    show ?thesis
    proof (cases "j = 0")
      case False
      with j k have "0 < j" "j \<le> 2 ^ 40" by simp_all
      moreover have "19 * (20 * j) div 20 = 19 * j" by simp
      ultimately show ?thesis unfolding j by (simp only: percentile_exact floor_of_int)
    qed (simp add: j)
  next
    case False
    with k show ?thesis by (intro percentile_fraction) simp_all
  qed
  ultimately show ?thesis by (simp add: percentileIndex_def k_def)
qed

end
