(* ===== verification/Aggregation.thy ===== *)
theory Aggregation
  imports Labels Percentile
begin

text \<open>
  Aggregation of metrics, \<^verbatim>\<open>pkg/collector/operations.go\<close>, \<^verbatim>\<open>metric.go\<close>, the division of \<^verbatim>\<open>util.go\<close> and
  \<^verbatim>\<open>AggregateAndCollect\<close> of \<^verbatim>\<open>collector.go\<close>. Maps that the code ranges over are association lists, so that a
  theorem for all lists covers every iteration order. A \<^const>\<open>None\<close> is a run time panic (index out of range,
  nil dereference). The goroutines that compute the operations of one level only read the grouped values,
  so the loop over the operations stands for every interleaving of them.
\<close>

section \<open>Operations on quantities\<close>

definition divide :: "('q, 'd) quantity_ops \<Rightarrow> 'd \<Rightarrow> 'd \<Rightarrow> int \<Rightarrow> 'd" where
  "divide Q x y precision = qo_QuoRoundHalfUp Q x y precision"

definition divideQtyQty :: "('q, 'd) quantity_ops \<Rightarrow> 'q \<Rightarrow> 'q \<Rightarrow> int \<Rightarrow> 'q" where
  "divideQtyQty Q x y precision = qo_NewDecimalQuantity Q (divide Q (qo_AsDec Q x) (qo_AsDec Q y) precision)"

definition divideQtyInt64 :: "('q, 'd) quantity_ops \<Rightarrow> 'q \<Rightarrow> int \<Rightarrow> int \<Rightarrow> 'q" where
  "divideQtyInt64 Q x y precision = qo_NewDecimalQuantity Q (divide Q (qo_AsDec Q x) (qo_NewDec Q y 0) precision)"

definition divideInt64Qty :: "('q, 'd) quantity_ops \<Rightarrow> int \<Rightarrow> 'q \<Rightarrow> int \<Rightarrow> 'q" where
  "divideInt64Qty Q x y precision = qo_NewDecimalQuantity Q (divide Q (qo_NewDec Q x 0) (qo_AsDec Q y) precision)"

definition multipleQtyInt64 :: "('q, 'd) quantity_ops \<Rightarrow> 'q \<Rightarrow> int \<Rightarrow> 'q" where
  "multipleQtyInt64 Q x y = qo_NewDecimalQuantity Q (qo_Mul Q (qo_AsDec Q x) (qo_NewDec Q y 0))"

definition AveragePrecision :: int where "AveragePrecision = 6"

text \<open>
  \<^verbatim>\<open>sort.Sort(quantities)\<close>: a sorted permutation with respect to \<^verbatim>\<open>Less\<close>; the order of elements that compare
  equal is not specified, and no theorem depends on it.
\<close>

fun insert_q :: "('q, 'd) quantity_ops \<Rightarrow> 'q \<Rightarrow> 'q list \<Rightarrow> 'q list" where
  "insert_q Q x [] = [x]"
| "insert_q Q x (y # ys) = (if qo_Cmp Q y x < 0 then y # insert_q Q x ys else x # y # ys)"

definition sort_q :: "('q, 'd) quantity_ops \<Rightarrow> 'q list \<Rightarrow> 'q list" where
  "sort_q Q xs = foldr (insert_q Q) xs []"

definition medianIndex :: "nat \<Rightarrow> int" where
  "medianIndex n = sgn (int n - 1) * (\<bar>int n - 1\<bar> div 2)"

definition at_index :: "'a list \<Rightarrow> int \<Rightarrow> 'a option" where
  "at_index xs i = (if 0 \<le> i \<and> i < int (length xs) then Some (xs ! nat i) else None)"

text \<open>
  The result and the content of the slice afterwards: percentile and median sort an unsorted slice in
  place.
\<close>

definition aggregate :: "('q, 'd) quantity_ops \<Rightarrow> string \<Rightarrow> 'q list \<Rightarrow> bool \<Rightarrow> ('q list \<times> 'q list) option" where
  "aggregate Q op vs srt =
     (let result = qo_zero Q in
      if op = SumOperation then Some ([foldl (qo_Add Q) result vs], vs)
      else if op = MaxOperation then
        (if srt then do { x \<leftarrow> at_index vs (int (length vs) - 1); Some ([x], vs) }
         else Some ([foldl (\<lambda>r v. if qo_Cmp Q r v < 0 then v else r) result vs], vs))
      else if op = AvgOperation then
        (if length vs = 0 then Some ([], vs)
         else Some ([divideQtyInt64 Q (foldl (qo_Add Q) result vs) (int (length vs)) AveragePrecision], vs))
      else if op = P95Operation then
        (let vs = (if srt then vs else sort_q Q vs)
         in do { x \<leftarrow> at_index vs (percentileIndex (length vs)); Some ([x], vs) })
      else if op = MedianOperation then
        (let vs = (if srt then vs else sort_q Q vs)
         in do { x \<leftarrow> at_index vs (medianIndex (length vs)); Some ([x], vs) })
      else if op = HistogramOperation then Some (vs, vs)
      else Some ([result], vs))"

section \<open>Metrics\<close>

record metricName =
  mn_Prefix :: string
  mn_Level :: string
  mn_Operation :: string
  mn_Source :: source
  mn_SourceAlias :: string
  mn_ResourceAlias :: string
  mn_Resource :: string
  mn_SourceType :: string

definition MetricName_String :: "metricName \<Rightarrow> string" where
  "MetricName_String m =
     (if mn_SourceAlias m \<noteq> ''''
      then join_with ''_'' [mn_Prefix m, mn_Level m, mn_Operation m, mn_SourceAlias m, mn_ResourceAlias m]
      else join_with ''_'' [mn_Prefix m, mn_Level m, mn_Operation m, mn_Source m, mn_ResourceAlias m])"

record 'q metric =
  mt_Mask :: labelsMask
  mt_Name :: metricName
  mt_Buckets :: "(string, float64 list) gomap"
  mt_Values :: "(LabelsValues, 'q list) gomap"

section \<open>Aggregating one metric\<close>

definition filter_ok :: "string \<Rightarrow> strmap \<Rightarrow> filter_spec \<Rightarrow> bool" where
  "filter_ok cn index f \<longleftrightarrow>
     list_all (\<lambda>k. case fl_Present f of
                     None \<Rightarrow> True
                   | Some p \<Rightarrow> if p then sget index k \<noteq> '''' else sget index k = '''') (fl_LabelNames f) \<and>
     list_all (\<lambda>(k, v). sget index k \<in> set v) (fl_Labels f) \<and>
     (fl_ClusterNames f = [] \<or> cn \<in> set (fl_ClusterNames f))"

definition nonempty_index :: "string list \<Rightarrow> string list \<Rightarrow> strmap" where
  "nonempty_index names values =
     foldl (\<lambda>l (n, v). if v \<noteq> '''' then AList.update n v l else l) [] (zip names values)"

text \<open>The environment of a run: the registered overriders and \<^verbatim>\<open>CLUSTER_NAME\<close>.\<close>

record env =
  ev_overriders :: "(strmap \<Rightarrow> strmap) list"
  ev_cluster :: string

definition mapStep ::
  "env \<Rightarrow> labelState \<Rightarrow> labelsMask \<Rightarrow> string list \<Rightarrow> (LabelsValues, 'q list) gomap \<Rightarrow> LabelsValues \<times> 'q list \<Rightarrow>
   (LabelsValues, 'q list) gomap option" where
  "mapStep ev c mk labelNames indexed kv =
     do { labels \<leftarrow> mask_labels c mk (fst kv);
          values \<leftarrow> getLabelValues c mk labels;
          let (values, overrides) = overrideValues (ev_overriders ev) values labelNames;
          overrideLabels \<leftarrow> overrideLabels c mk labels overrides;
          Some (if length (lm_Filters mk) = 0
                   \<or> list_all (filter_ok (ev_cluster ev) (nonempty_index labelNames values)) (lm_Filters mk)
                then AList.update overrideLabels (gget [] indexed overrideLabels @ snd kv) indexed
                else indexed) }"

definition sorts_values :: "string list \<Rightarrow> bool" where
  "sorts_values ops \<longleftrightarrow> list_ex (\<lambda>op. op = P95Operation \<or> op = MedianOperation) ops"

definition aggregateIndexed ::
  "('q, 'd) quantity_ops \<Rightarrow> string \<Rightarrow> bool \<Rightarrow> (LabelsValues, 'q list) gomap \<Rightarrow> (LabelsValues, 'q list) gomap option" where
  "aggregateIndexed Q op srt indexed =
     ofold (\<lambda>res (k, vs). if 0 < length vs
              then do { (r, _) \<leftarrow> aggregate Q op vs srt; Some (AList.update k r res) }
              else Some res) [] indexed"

definition aggregateMetric ::
  "('q, 'd) quantity_ops \<Rightarrow> env \<Rightarrow> labelState \<Rightarrow> string list \<Rightarrow> 'q metric \<Rightarrow> labelsMask \<Rightarrow>
   (string, 'q metric) gomap option" where
  "aggregateMetric Q ev c ops m mk =
     do { labelNames \<leftarrow> getLabelNames c mk;
          indexed \<leftarrow> ofold (mapStep ev c mk labelNames) [] (mt_Values m);
          let srt = sorts_values ops;
          let indexed = (if srt then map (\<lambda>(k, vs). (k, sort_q Q vs)) indexed else indexed);
          ofold (\<lambda>results op.
             do { vals \<leftarrow> aggregateIndexed Q op srt indexed;
                  Some (AList.update op \<lparr>mt_Mask = mk,
                          mt_Name = \<lparr>mn_Prefix = '''', mn_Level = '''', mn_Operation = '''', mn_Source = '''',
                                     mn_SourceAlias = '''', mn_ResourceAlias = '''', mn_Resource = '''',
                                     mn_SourceType = ''''\<rparr>,
                          mt_Buckets = [], mt_Values = vals\<rparr> results) }) [] ops }"

section \<open>Exporting\<close>

datatype 'q exported =
    Gauge string "string list" "string list" 'q
  | Histogram string "float64 list" "string list" "(string list \<times> 'q list) list"

definition collectMetric :: "labelState \<Rightarrow> 'q metric \<Rightarrow> 'q exported list option" where
  "collectMetric c m =
     do { names \<leftarrow> getLabelNames c (mt_Mask m);
          ofold (\<lambda>out (k, v).
             do { labels \<leftarrow> getLabelValues c (mt_Mask m) k;
                  x \<leftarrow> at_index v 0;
                  if length labels = length names
                  then Some (out @ [Gauge (MetricName_String (mt_Name m)) names labels x]) else None })
            [] (mt_Values m) }"

definition collectHistogramMetric :: "labelState \<Rightarrow> 'q metric \<Rightarrow> 'q exported list option" where
  "collectHistogramMetric c m =
     do { names \<leftarrow> getLabelNames c (mt_Mask m);
          obs \<leftarrow> ofold (\<lambda>out (k, v).
             do { labels \<leftarrow> getLabelValues c (mt_Mask m) k;
                  if length labels = length names then Some (out @ [(labels, v)]) else None })
            [] (mt_Values m);
          Some [Histogram (MetricName_String (mt_Name m)) (gget [] (mt_Buckets m) (mn_ResourceAlias (mt_Name m)))
                  names obs] }"

section \<open>Aggregating all levels\<close>

text \<open>The settings of the collector that \<^verbatim>\<open>AggregateAndCollect\<close> reads, and its two outputs.\<close>

record aggEnv = env +
  ae_Prefix :: string
  ae_SaveSamplesLocally :: bool

record 'q collected =
  co_exported :: "'q exported list"
  co_retained :: "(level \<times> 'q metric) list"

definition aggregatedName :: "aggEnv \<Rightarrow> aggregation \<Rightarrow> level \<Rightarrow> metricName \<Rightarrow> string \<Rightarrow> metricName" where
  "aggregatedName ae a l name op =
     \<lparr>mn_Prefix = ae_Prefix ae, mn_Level = lm_Level (lv_Mask l), mn_Operation = op, mn_Source = mn_Source name,
      mn_SourceAlias = sget (src_Alias (ag_Sources a)) (mn_Source name),
      mn_ResourceAlias = mn_ResourceAlias name, mn_Resource = mn_Resource name, mn_SourceType = mn_SourceType name\<rparr>"

definition collectOp ::
  "labelState \<Rightarrow> aggEnv \<Rightarrow> aggregation \<Rightarrow> level \<Rightarrow> metricName \<Rightarrow> 'q metric \<times> 'q collected \<Rightarrow> string \<times> 'q metric \<Rightarrow>
   ('q metric \<times> 'q collected) option" where
  "collectOp c ae a l name s opm =
     (let op = fst opm;
          metric = (snd opm)\<lparr>mt_Name := aggregatedName ae a l name op\<rparr>;
          out = snd s;
          out = (if lv_RetentionName l \<noteq> '''' \<and> ae_SaveSamplesLocally ae
                 then out\<lparr>co_retained := co_retained out @ [(l, metric)]\<rparr> else out)
      in if lv_NoExport l then Some (metric, out)
         else if op = HistogramOperation
         then (let metric = metric\<lparr>mt_Buckets := lv_HistogramBuckets l\<rparr>
               in do { e \<leftarrow> collectHistogramMetric c metric;
                       Some (metric, out\<lparr>co_exported := co_exported out @ e\<rparr>) })
         else do { e \<leftarrow> collectMetric c metric;
                   Some (metric, out\<lparr>co_exported := co_exported out @ e\<rparr>) })"

fun aggregateLevels ::
  "('q, 'd) quantity_ops \<Rightarrow> labelState \<Rightarrow> aggEnv \<Rightarrow> aggregation \<Rightarrow> metricName \<Rightarrow> 'q metric \<Rightarrow> 'q collected \<Rightarrow> level list \<Rightarrow>
   'q collected option" where
  "aggregateLevels Q c ae a name metric out [] = Some out"
| "aggregateLevels Q c ae a name metric out (l # ls) =
     (if 0 < length (lv_Operations l) \<and> ls \<noteq> [] then aggregateLevels Q c ae a name metric out ls
      else
        (let ops = lv_Operations l @ (if lv_Operation l \<noteq> '''' then [lv_Operation l] else [])
         in do { aggs \<leftarrow> aggregateMetric Q (env.truncate ae) c ops metric (lv_Mask l);
                 s \<leftarrow> ofold (collectOp c ae a l name) (metric, out) aggs;
                 aggregateLevels Q c ae a name (fst s) (snd s) ls }))"

definition AggregateAndCollect ::
  "('q, 'd) quantity_ops \<Rightarrow> labelState \<Rightarrow> aggEnv \<Rightarrow> aggregation \<Rightarrow> (metricName, 'q metric) gomap \<Rightarrow> 'q collected option" where
  "AggregateAndCollect Q c ae a m =
     ofold (\<lambda>out (name, metric). aggregateLevels Q c ae a name metric out (ag_Levels a))
       \<lparr>co_exported = [], co_retained = []\<rparr>
       (filter (\<lambda>(k, v). mn_Source k \<in> set (GetSources (ag_Sources a))) m)"

section \<open>Correctness of the operations\<close>

lemma mset_insert_q [simp]: "mset (insert_q Q x ys) = add_mset x (mset ys)"
  by (induction ys) auto

lemma mset_sort_q [simp]: "mset (sort_q Q xs) = mset xs"
  by (induction xs) (simp_all add: sort_q_def)

lemma length_sort_q [simp]: "length (sort_q Q xs) = length xs"
  by (metis mset_sort_q size_mset)

lemma set_sort_q [simp]: "set (sort_q Q xs) = set xs"
  by (metis mset_sort_q set_mset_mset)

lemma sort_q_Nil_iff [simp]: "sort_q Q xs = [] \<longleftrightarrow> xs = []"
  by (metis length_0_conv length_sort_q)

text \<open>Order statistics of a sorted list.\<close>

lemma order_statistic:
  fixes f :: "'a \<Rightarrow> 'b :: linorder"
  assumes "sorted (map f ys)" "i < length ys"
  shows "i + 1 \<le> length (filter (\<lambda>y. f y \<le> f (ys ! i)) ys)"
    and "length ys - i \<le> length (filter (\<lambda>y. f (ys ! i) \<le> f y) ys)"
proof -
  have le: "f (ys ! j) \<le> f (ys ! k)" if "j \<le> k" "k < length ys" for j k
    using sorted_nth_mono [OF assms(1), of j k] that by simp
  have "filter (\<lambda>y. f y \<le> f (ys ! i)) (take (Suc i) ys) = take (Suc i) ys"
    using assms(2) le by (auto simp: filter_id_conv in_set_conv_nth less_Suc_eq_le)
  then have "length (take (Suc i) ys) \<le> length (filter (\<lambda>y. f y \<le> f (ys ! i)) (take (Suc i) ys @ drop (Suc i) ys))"
    by (simp del: append_take_drop_id)
  with assms(2) show "i + 1 \<le> length (filter (\<lambda>y. f y \<le> f (ys ! i)) ys)" by simp
  have "filter (\<lambda>y. f (ys ! i) \<le> f y) (drop i ys) = drop i ys"
    using le by (auto simp: filter_id_conv in_set_conv_nth)
  then have "length (drop i ys) \<le> length (filter (\<lambda>y. f (ys ! i) \<le> f y) (take i ys @ drop i ys))"
    by (simp del: append_take_drop_id)
  then show "length ys - i \<le> length (filter (\<lambda>y. f (ys ! i) \<le> f y) ys)" by simp
qed

lemma length_filter_mset: "mset xs = mset ys \<Longrightarrow> length (filter P xs) = length (filter P ys)"
  by (metis mset_filter size_mset)

text \<open>An element with at least \<^verbatim>\<open>i + 1\<close> values up to it and at least \<^verbatim>\<open>length vs - i\<close> from it on.\<close>

definition order_stat :: "('q \<Rightarrow> rat) \<Rightarrow> 'q list \<Rightarrow> nat \<Rightarrow> 'q \<Rightarrow> bool" where
  "order_stat val vs i r \<longleftrightarrow> r \<in> set vs \<and> i + 1 \<le> length (filter (\<lambda>v. val v \<le> val r) vs)
     \<and> length vs - i \<le> length (filter (\<lambda>v. val r \<le> val v) vs)"

context quantity
begin

lemma sorted_insert_q: "sorted (map val ys) \<Longrightarrow> sorted (map val (insert_q Q x ys))"
proof (induction ys)
  case (Cons y ys)
  have "set (insert_q Q x ys) = insert x (set ys)"
    using mset_insert_q [of Q x ys] by (metis set_mset_add_mset_insert set_mset_mset)
  with Cons show ?case by (auto simp: Cmp_less not_less intro: order_trans)
qed simp

lemma sorted_sort_q [simp]: "sorted (map val (sort_q Q xs))"
  by (induction xs) (simp_all add: sort_q_def sorted_insert_q)

lemma val_max_fold:
  "val (foldl (\<lambda>r v. if qo_Cmp Q r v < 0 then v else r) z vs) = foldl max (val z) (map val vs)"
  by (induction vs arbitrary: z) (simp_all add: Cmp_less max_def not_less)

lemma val_max_spec:
  "val (foldl (\<lambda>r v. if qo_Cmp Q r v < 0 then v else r) z vs) = Max (insert (val z) (val ` set vs))"
proof -
  have "foldl max (x :: rat) xs = Max (insert x (set xs))" for x xs
  proof (induction xs arbitrary: x)
    case (Cons a xs)
    then show ?case by (cases "xs = []") (simp_all add: max.assoc max.commute max.left_commute)
  qed simp
  then show ?thesis by (simp add: val_max_fold)
qed

lemma val_divideQtyInt64:
  assumes "n \<noteq> 0"
  shows "val (divideQtyInt64 Q x n p) = of_int (round_half_up (val x / of_int n * 10 powi p)) * 10 powi (- p)"
  using assms by (simp add: divideQtyInt64_def divide_def val_simps dval_QuoRoundHalfUp)

lemma divideQtyInt64_error:
  assumes "n \<noteq> 0"
  shows "\<bar>val (divideQtyInt64 Q x n p) - val x / of_int n\<bar> \<le> 10 powi (- p) / 2"
proof -
  let ?u = "(10::rat) powi (- p)" and ?v = "(10::rat) powi p"
  have uv: "?v * ?u = 1" by (simp add: power_int_minus)
  have "val (divideQtyInt64 Q x n p) - val x / of_int n
      = (of_int (round_half_up (val x / of_int n * ?v)) - val x / of_int n * ?v) * ?u"
    using assms uv by (simp add: val_divideQtyInt64 algebra_simps)
  also have "\<bar>\<dots>\<bar> = \<bar>of_int (round_half_up (val x / of_int n * ?v)) - val x / of_int n * ?v\<bar> * ?u"
    by (simp add: abs_mult)
  also have "\<dots> \<le> 1 / 2 * ?u" by (intro mult_right_mono round_half_up_error) simp
  finally show ?thesis by simp
qed

text \<open>What each operation returns, in terms of the denoted values.\<close>

lemma aggregate_Sum:
  "\<exists>r. aggregate Q SumOperation vs srt = Some ([r], vs) \<and> val r = sum_list (map val vs)"
  by (simp add: aggregate_def val_fold_Add val_zero)

lemma aggregate_Avg:
  assumes "vs \<noteq> []"
  shows "\<exists>r. aggregate Q AvgOperation vs srt = Some ([r], vs)
           \<and> \<bar>val r - sum_list (map val vs) / of_nat (length vs)\<bar> \<le> 1 / 2000000"
proof -
  have "\<bar>val (divideQtyInt64 Q (foldl (qo_Add Q) (qo_zero Q) vs) (int (length vs)) 6)
      - sum_list (map val vs) / of_nat (length vs)\<bar> \<le> 10 powi (- 6) / 2"
    using divideQtyInt64_error [of "int (length vs)" "foldl (qo_Add Q) (qo_zero Q) vs" 6] assms
    by (simp add: val_fold_Add val_zero)
  then show ?thesis
    using assms by (simp add: aggregate_def operation_defs AveragePrecision_def power_int_minus)
qed

lemma aggregate_Max_unsorted:
  "\<exists>r. aggregate Q MaxOperation vs False = Some ([r], vs) \<and> val r = Max (insert 0 (val ` set vs))"
  by (simp add: aggregate_def operation_defs val_max_spec val_zero)

lemma aggregate_Max_sorted:
  assumes "vs \<noteq> []" "sorted (map val vs)"
  shows "\<exists>r. aggregate Q MaxOperation vs True = Some ([r], vs) \<and> val r = Max (val ` set vs)"
proof -
  have i: "int (length vs) - 1 = int (length vs - 1)" using assms(1) by (cases vs) auto
  have "at_index vs (int (length vs) - 1) = Some (last vs)"
    using assms(1) unfolding i by (simp add: at_index_def last_conv_nth)
  moreover have "val (last vs) = Max (val ` set vs)"
  proof (rule Max_eqI [symmetric])
    fix y assume "y \<in> val ` set vs"
    then obtain j where "j < length vs" "y = val (vs ! j)" by (auto simp: in_set_conv_nth)
    with sorted_nth_mono [OF assms(2), of j "length vs - 1"] assms(1) show "y \<le> val (last vs)"
      by (simp add: last_conv_nth)
  qed (use assms(1) in auto)
  ultimately show ?thesis by (simp add: aggregate_def operation_defs)
qed

text \<open>Percentile and median: the element at an index of the sorted values, wherever they are sorted.\<close>

lemma order_stat_sorted:
  assumes "sorted (map val ys)" "mset ys = mset vs" "i < length ys"
  shows "order_stat val vs i (ys ! i)"
proof -
  have "length ys = length vs" "set ys = set vs"
    using assms(2) by (metis size_mset, metis set_mset_mset)
  with assms order_statistic [OF assms(1,3)] show ?thesis
    using length_filter_mset [OF assms(2)] nth_mem [OF assms(3)] by (simp add: order_stat_def)
qed

lemma medianIndex_bounds: "0 < n \<Longrightarrow> medianIndex n = int ((n - 1) div 2)"
  by (cases n) (auto simp: medianIndex_def sgn_if zdiv_int)

lemma aggregate_Median:
  assumes "vs \<noteq> []" "srt \<Longrightarrow> sorted (map val vs)"
  shows "\<exists>r ws. aggregate Q MedianOperation vs srt = Some ([r], ws) \<and> order_stat val vs ((length vs - 1) div 2) r"
proof -
  let ?ws = "if srt then vs else sort_q Q vs"
  have ws: "sorted (map val ?ws)" "mset ?ws = mset vs" "length ?ws = length vs" using assms(2) by auto
  have i: "(length vs - 1) div 2 < length ?ws" using assms(1) by (simp add: ws(3)) (cases vs; simp)
  have "medianIndex (length ?ws) = int ((length vs - 1) div 2)"
    using assms(1) by (simp add: ws(3) medianIndex_bounds)
  then have "at_index ?ws (medianIndex (length ?ws)) = Some (?ws ! ((length vs - 1) div 2))"
    using i by (simp add: at_index_def)
  then have "aggregate Q MedianOperation vs srt = Some ([?ws ! ((length vs - 1) div 2)], ?ws)"
    by (simp add: aggregate_def operation_defs Let_def)
  with order_stat_sorted [OF ws(1,2) i] show ?thesis by blast
qed

lemma aggregate_P95:
  assumes "vs \<noteq> []" "length vs \<le> 2 ^ 40" "srt \<Longrightarrow> sorted (map val vs)"
  shows "\<exists>r ws. aggregate Q P95Operation vs srt = Some ([r], ws) \<and> order_stat val vs (19 * (length vs - 1) div 20) r"
proof -
  let ?ws = "if srt then vs else sort_q Q vs" and ?i = "19 * (length vs - 1) div 20"
  have ws: "sorted (map val ?ws)" "mset ?ws = mset vs" "length ?ws = length vs" using assms(3) by auto
  have i: "?i < length ?ws" using assms(1) unfolding ws(3) by (cases vs) auto
  have "0 < length vs" using assms(1) by simp
  then have l: "int (length vs) - 1 = int (length vs - 1)" by linarith
  have "percentileIndex (length ?ws) = 19 * int (length vs - 1) div 20"
    unfolding ws(3) l [symmetric] using \<open>0 < length vs\<close> assms(2) by (rule percentileIndex_eq)
  also have "\<dots> = int ?i" by (simp only: zdiv_int of_nat_mult of_nat_numeral)
  finally have "at_index ?ws (percentileIndex (length ?ws)) = Some (?ws ! ?i)"
    using i by (simp add: at_index_def)
  then have "aggregate Q P95Operation vs srt = Some ([?ws ! ?i], ?ws)"
    by (simp add: aggregate_def operation_defs Let_def)
  with order_stat_sorted [OF ws(1,2) i] show ?thesis by blast
qed

end

section \<open>Aggregation as grouping\<close>

definition newKey :: "env \<Rightarrow> labelsMask \<times> extensionLabelsMask \<Rightarrow> LabelsValues \<Rightarrow> LabelsValues option" where
  "newKey ev m k =
     (let l = mask_with m k;
          vo = overrideValues (ev_overriders ev) (values_with m l) (names_with m)
      in if lm_Filters (fst m) = []
            \<or> list_all (filter_ok (ev_cluster ev) (nonempty_index (names_with m) (fst vo))) (lm_Filters (fst m))
         then Some (if snd vo = [] then l else override_with m l (snd vo)) else None)"

lemma mapStep_group:
  assumes "map_of (ci_maskById c) (lm_ID mk) = Some im"
  shows "mapStep ev c mk (names_with (mk, im)) idx kv = Some (group_step (newKey ev (mk, im)) idx kv)"
  using with_lookup [OF assms]
  by (auto simp: mapStep_def newKey_def group_step_def Let_def overrideLabels_def split: prod.split)

lemma mapping_group_by:
  assumes "map_of (ci_maskById c) (lm_ID mk) = Some im"
  shows "ofold (mapStep ev c mk (names_with (mk, im))) [] vs = Some (group_by (newKey ev (mk, im)) vs)"
  unfolding group_by_def by (rule ofold_total) (rule mapStep_group [OF assms])

lemma update_new: "k \<notin> fst ` set m \<Longrightarrow> AList.update k v m = m @ [(k, v)]"
  by (induction m) auto

definition agg1 :: "('q, 'd) quantity_ops \<Rightarrow> string \<Rightarrow> bool \<Rightarrow> 'q list \<Rightarrow> 'q list" where
  "agg1 Q op srt vs = fst (the (aggregate Q op vs srt))"

lemma aggregateIndexed_eq:
  assumes "gomap_wf indexed" "\<And>k vs. (k, vs) \<in> set indexed \<Longrightarrow> vs \<noteq> [] \<Longrightarrow> aggregate Q op vs srt \<noteq> None"
  shows "aggregateIndexed Q op srt indexed =
         Some (map (\<lambda>(k, vs). (k, agg1 Q op srt vs)) (filter (\<lambda>(k, vs). vs \<noteq> []) indexed))"
proof -
  have "ofold (\<lambda>res (k, vs). if 0 < length vs
              then do { (r, _) \<leftarrow> aggregate Q op vs srt; Some (AList.update k r res) }
              else Some res) res indexed =
        Some (res @ map (\<lambda>(k, vs). (k, agg1 Q op srt vs)) (filter (\<lambda>(k, vs). vs \<noteq> []) indexed))"
    if "fst ` set res \<inter> fst ` set indexed = {}" for res
    using assms that
  proof (induction indexed arbitrary: res)
    case (Cons e indexed)
    obtain k vs where e: "e = (k, vs)" by (cases e)
    show ?case
    proof (cases "vs = []")
      case True
      with Cons show ?thesis by (simp add: e gomap_wf_def)
    next
      case False
      with Cons.prems(2) [of k vs] obtain r w where r: "aggregate Q op vs srt = Some (r, w)" by (auto simp: e)
      have "k \<notin> fst ` set res" using Cons.prems(3) by (auto simp: e)
      moreover have "fst ` set (res @ [(k, r)]) \<inter> fst ` set indexed = {}" "gomap_wf indexed"
        using Cons.prems(1,3) by (auto simp: e gomap_wf_def)
      note Cons.IH [OF this(2) _ this(1)]
      moreover have "aggregate Q op vs' srt \<noteq> None" if "(k', vs') \<in> set indexed" "vs' \<noteq> []" for k' vs'
        using Cons.prems(2) [of k' vs'] that by simp
      ultimately show ?thesis using False by (simp add: e r update_new agg1_def)
    qed
  qed simp
  from this [of "[]"] show ?thesis by (simp add: aggregateIndexed_def)
qed

definition blankName :: metricName where
  "blankName = \<lparr>mn_Prefix = '''', mn_Level = '''', mn_Operation = '''', mn_Source = '''', mn_SourceAlias = '''',
                mn_ResourceAlias = '''', mn_Resource = '''', mn_SourceType = ''''\<rparr>"

definition sortIf :: "('q, 'd) quantity_ops \<Rightarrow> string list \<Rightarrow> 'q list \<Rightarrow> 'q list" where
  "sortIf Q ops vs = (if sorts_values ops then sort_q Q vs else vs)"

definition aggregated ::
  "('q, 'd) quantity_ops \<Rightarrow> env \<Rightarrow> labelsMask \<times> extensionLabelsMask \<Rightarrow> string list \<Rightarrow> (LabelsValues, 'q list) gomap \<Rightarrow>
   string \<Rightarrow> (LabelsValues, 'q list) gomap" where
  "aggregated Q ev m ops vals op =
     map (\<lambda>(k, vs). (k, agg1 Q op (sorts_values ops) (sortIf Q ops vs)))
       (filter (\<lambda>(k, vs). vs \<noteq> []) (group_by (newKey ev m) vals))"

lemma foldl_update_const:
  "map_of (foldl (\<lambda>rs op. AList.update op (f op) rs) rs ops) k = (if k \<in> set ops then Some (f k) else map_of rs k)"
  by (induction ops arbitrary: rs) auto

lemma sortIf_Nil_iff [simp]: "sortIf Q ops vs = [] \<longleftrightarrow> vs = []"
  by (simp add: sortIf_def)

lemma length_sortIf [simp]: "length (sortIf Q ops vs) = length vs"
  by (simp add: sortIf_def)

lemma mset_sortIf [simp]: "mset (sortIf Q ops vs) = mset vs"
  by (simp add: sortIf_def)

lemma gomap_wf_map_snd: "gomap_wf (map (\<lambda>(k, v). (k, f v)) m) \<longleftrightarrow> gomap_wf m"
  by (simp add: gomap_wf_def comp_def case_prod_beta)

lemma aggregateMetric_eq:
  assumes "map_of (ci_maskById c) (lm_ID mk) = Some im"
    and "\<And>op vs. op \<in> set ops \<Longrightarrow> vs \<in> snd ` set (group_by (newKey ev (mk, im)) (mt_Values m)) \<Longrightarrow> vs \<noteq> [] \<Longrightarrow>
           aggregate Q op (sortIf Q ops vs) (sorts_values ops) \<noteq> None"
  shows "aggregateMetric Q ev c ops m mk =
    Some (foldl (\<lambda>rs op. AList.update op \<lparr>mt_Mask = mk, mt_Name = blankName, mt_Buckets = [],
            mt_Values = aggregated Q ev (mk, im) ops (mt_Values m) op\<rparr> rs) [] ops)"
proof -
  let ?g = "group_by (newKey ev (mk, im)) (mt_Values m)" and ?s = "sorts_values ops"
  let ?i = "if ?s then map (\<lambda>(k, vs). (k, sort_q Q vs)) ?g else ?g"
  have i: "?i = map (\<lambda>(k, vs). (k, sortIf Q ops vs)) ?g"
    by (simp add: sortIf_def case_prod_unfold)
  have "aggregateIndexed Q op ?s ?i = Some (aggregated Q ev (mk, im) ops (mt_Values m) op)" if "op \<in> set ops" for op
  proof -
    have "aggregateIndexed Q op ?s ?i =
         Some (map (\<lambda>(k, vs). (k, agg1 Q op ?s vs)) (filter (\<lambda>(k, vs). vs \<noteq> []) ?i))"
      unfolding i using assms(2) [OF that]
      by (intro aggregateIndexed_eq) (force simp: gomap_wf_map_snd)+
    then show ?thesis
      by (simp add: i aggregated_def filter_map comp_def case_prod_unfold)
  qed
  then have "ofold (\<lambda>results op.
             do { vals \<leftarrow> aggregateIndexed Q op ?s ?i;
                  Some (AList.update op \<lparr>mt_Mask = mk, mt_Name = blankName, mt_Buckets = [], mt_Values = vals\<rparr> results) })
      [] ops = Some (foldl (\<lambda>rs op. AList.update op \<lparr>mt_Mask = mk, mt_Name = blankName, mt_Buckets = [],
            mt_Values = aggregated Q ev (mk, im) ops (mt_Values m) op\<rparr> rs) [] ops)"
    by (intro ofold_total) simp
  then show ?thesis
    by (simp only: aggregateMetric_def blankName_def Let_def Option.bind.simps
        with_lookup(3) [OF assms(1)] mapping_group_by [OF assms(1)])
qed

section \<open>No operation panics on a non-empty group\<close>

lemma medianIndex_range: "0 < n \<Longrightarrow> 0 \<le> medianIndex n \<and> medianIndex n < int n"
  by (cases n) (auto simp: medianIndex_def sgn_if)

lemma percentileIndex_range:
  assumes "0 < n" "n \<le> 2 ^ 40"
  shows "0 \<le> percentileIndex n \<and> percentileIndex n < int n"
proof -
  have "19 * (int n - 1) div 20 \<le> 20 * (int n - 1) div 20" using assms(1) by (intro zdiv_mono1) simp_all
  also have "\<dots> = int n - 1" by simp
  finally show ?thesis
    unfolding percentileIndex_eq [OF assms] using assms(1) by (simp add: pos_imp_zdiv_nonneg_iff)
qed

lemma at_index_Some: "0 \<le> i \<Longrightarrow> i < int (length xs) \<Longrightarrow> at_index xs i = Some (xs ! nat i)"
  by (simp add: at_index_def)

lemma aggregate_total:
  assumes "vs \<noteq> []" "length vs \<le> 2 ^ 40"
  shows "\<exists>r ws. aggregate Q op vs srt = Some (r, ws) \<and> r \<noteq> [] \<and> length r \<le> length vs \<and> mset ws = mset vs
                \<and> (op \<noteq> P95Operation \<and> op \<noteq> MedianOperation \<or> srt \<longrightarrow> ws = vs)"
proof -
  let ?ws = "if srt then vs else sort_q Q vs"
  have l: "length ?ws = length vs" "0 < length vs" using assms(1) by simp_all
  obtain x where x: "at_index vs (int (length vs) - 1) = Some x" using l(2) by (simp add: at_index_def)
  obtain y where y: "at_index ?ws (percentileIndex (length ?ws)) = Some y"
    using percentileIndex_range [OF l(2) assms(2)] by (simp only: l at_index_def if_True simp_thms option.simps)
  obtain z where z: "at_index ?ws (medianIndex (length ?ws)) = Some z"
    using medianIndex_range [OF l(2)] by (simp only: l at_index_def if_True simp_thms option.simps)
  have len: "Suc 0 \<le> length vs" using l(2) by linarith
  consider "op = SumOperation" | "op = MaxOperation" | "op = AvgOperation" | "op = P95Operation"
    | "op = MedianOperation" | "op = HistogramOperation"
    | "op \<noteq> SumOperation" "op \<noteq> MaxOperation" "op \<noteq> AvgOperation" "op \<noteq> P95Operation" "op \<noteq> MedianOperation"
      "op \<noteq> HistogramOperation" by blast
  then show ?thesis
  proof cases
    case 4
    with y len show ?thesis by (simp add: aggregate_def Let_def operation_defs)
  next
    case 5
    with z len show ?thesis by (simp add: aggregate_def Let_def operation_defs)
  qed (use x len assms(1) in \<open>simp_all add: aggregate_def operation_defs\<close>)
qed

lemma aggregate_not_None: "vs \<noteq> [] \<Longrightarrow> length vs \<le> 2 ^ 40 \<Longrightarrow> aggregate Q op vs srt \<noteq> None"
  using aggregate_total [of vs Q op srt] by auto

definition metric_size :: "'q metric \<Rightarrow> nat" where
  "metric_size m = length (concat (map snd (mt_Values m)))"

lemma length_group_of_le: "length (group_of f k es) \<le> length (concat (map snd es))"
  by (induction es) (auto simp: group_of_def)

lemma group_by_size:
  assumes "(k, vs) \<in> set (group_by f es)"
  shows "length vs \<le> length (concat (map snd es))"
proof -
  have "map_of (group_by f es) k = Some vs"
    using assms gomap_wf_group_by [of f es] by (simp add: gomap_wf_def)
  then have "vs = group_of f k es" by (simp add: map_of_group_by split: if_splits)
  then show ?thesis by (simp add: length_group_of_le del: length_concat)
qed

lemma aggregateMetric_total:
  assumes "map_of (ci_maskById c) (lm_ID mk) = Some im" "metric_size m \<le> 2 ^ 40"
  shows "aggregateMetric Q ev c ops m mk =
    Some (foldl (\<lambda>rs op. AList.update op \<lparr>mt_Mask = mk, mt_Name = blankName, mt_Buckets = [],
            mt_Values = aggregated Q ev (mk, im) ops (mt_Values m) op\<rparr> rs) [] ops)"
proof (rule aggregateMetric_eq [OF assms(1)])
  fix op vs
  assume "vs \<in> snd ` set (group_by (newKey ev (mk, im)) (mt_Values m))" and ne: "vs \<noteq> []"
  then obtain k where "(k, vs) \<in> set (group_by (newKey ev (mk, im)) (mt_Values m))" by force
  with group_by_size assms(2) have "length vs \<le> 2 ^ 40"
    by (metis metric_size_def order_trans)
  then have "length (sortIf Q ops vs) \<le> 2 ^ 40" by (simp only: length_sortIf)
  with ne aggregate_total [of "sortIf Q ops vs"] show "aggregate Q op (sortIf Q ops vs) (sorts_values ops) \<noteq> None"
    by (metis option.distinct(1) sortIf_Nil_iff)
qed

lemma map_of_aggregated:
  "map_of (aggregated Q ev m ops vals op) k =
   (if group_of (newKey ev m) k vals = [] then None
    else Some (agg1 Q op (sorts_values ops) (sortIf Q ops (group_of (newKey ev m) k vals))))"
proof -
  let ?g = "group_by (newKey ev m) vals"
  have "map_of (map (\<lambda>(k, vs). (k, f vs)) (filter (\<lambda>(k, vs). vs \<noteq> []) g)) k =
        (case map_of g k of None \<Rightarrow> None | Some vs \<Rightarrow> if vs = [] then None else Some (f vs))"
    if "gomap_wf g" for f :: "_ \<Rightarrow> _" and g
    using that by (induction g) (auto simp: gomap_wf_def split: option.split dest!: map_of_SomeD intro: rev_image_eqI)
  note lookup = this [OF gomap_wf_group_by]
  have "group_of (newKey ev m) k vals = []" if "\<not> (\<exists>e \<in> set vals. newKey ev m (fst e) = Some k)"
    using that by (auto simp: group_of_def)
  then show ?thesis unfolding aggregated_def lookup map_of_group_by by auto
qed

lemma gomap_wf_aggregated: "gomap_wf (aggregated Q ev m ops vals op)"
  unfolding aggregated_def gomap_wf_map_snd by (intro gomap_wf_filter gomap_wf_group_by)

section \<open>Independence of the iteration order\<close>

lemma sum_list_sum_mset: "sum_list (map f xs) = sum_mset (image_mset f (mset xs))"
  by (metis mset_map sum_mset_sum_list)

lemma mset_group_of:
  assumes "mset es = mset es'"
  shows "mset (group_of f k es) = mset (group_of f k es')"
proof -
  have "mset (concat (map snd xs)) = sum_list (map (\<lambda>e. mset (snd e)) xs)" for xs :: "('a \<times> 'b list) list"
    by (induction xs) simp_all
  moreover have "mset (filter (\<lambda>e. f (fst e) = Some k) es) = mset (filter (\<lambda>e. f (fst e) = Some k) es')"
    using assms by (metis mset_filter)
  ultimately show ?thesis unfolding group_of_def sum_list_sum_mset by simp
qed

lemma metric_size_sum: "metric_size m = sum_list (map (\<lambda>e. length (snd e)) (mt_Values m))"
  by (simp add: metric_size_def length_concat comp_def)

lemma metric_size_mset: "mset (mt_Values m) = mset (mt_Values m') \<Longrightarrow> metric_size m = metric_size m'"
  by (simp add: metric_size_sum sum_list_sum_mset)

section \<open>The operations on values\<close>

text \<open>
  The abstract specification of \<^verbatim>\<open>aggregate\<close>: the same operation on a list of rationals. The order of
  \<^verbatim>\<open>srt\<close> arguments is the one given; otherwise percentile and median sort first.
\<close>

definition aggregate_spec :: "string \<Rightarrow> bool \<Rightarrow> rat list \<Rightarrow> rat list option" where
  "aggregate_spec op srt xs =
     (let ys = (if srt then xs else sort xs) in
      if op = SumOperation then Some [sum_list xs]
      else if op = MaxOperation then
        (if srt then map_option (\<lambda>x. [x]) (at_index xs (int (length xs) - 1)) else Some [Max (insert 0 (set xs))])
      else if op = AvgOperation then
        (if xs = [] then Some []
         else Some [of_int (round_half_up (sum_list xs / of_nat (length xs) * 10 ^ 6)) / 10 ^ 6])
      else if op = P95Operation then map_option (\<lambda>x. [x]) (at_index ys (percentileIndex (length xs)))
      else if op = MedianOperation then map_option (\<lambda>x. [x]) (at_index ys (medianIndex (length xs)))
      else if op = HistogramOperation then Some xs
      else Some [0])"

lemma at_index_map: "at_index (map f xs) i = map_option f (at_index xs i)"
  by (auto simp: at_index_def nth_map nat_less_iff)

lemma bind_Some_map: "Option.bind x (\<lambda>y. Some (f y)) = map_option f x"
  by (cases x) simp_all

context quantity
begin

lemma map_val_sort_q: "map val (sort_q Q vs) = sort (map val vs)"
proof -
  have "mset (map val (sort_q Q vs)) = mset (map val vs)" by simp
  then show ?thesis by (metis properties_for_sort sorted_sort_q)
qed

lemma aggregate_refines:
  "map_option (\<lambda>r. map val (fst r)) (aggregate Q op vs srt) = aggregate_spec op srt (map val vs)"
proof -
  have avg: "val (divideQtyInt64 Q (foldl (qo_Add Q) (qo_zero Q) vs) (int (length vs)) AveragePrecision)
    = of_int (round_half_up (sum_list (map val vs) / of_nat (length vs) * 10 ^ 6)) / 10 ^ 6" if "vs \<noteq> []"
    using that by (simp add: val_divideQtyInt64 AveragePrecision_def val_fold_Add val_zero power_int_minus field_simps)
  show ?thesis
    by (cases srt)
      (auto simp: aggregate_def aggregate_spec_def Let_def bind_Some_map option.map_comp comp_def
        at_index_map val_fold_Add val_zero val_max_spec avg map_val_sort_q [symmetric] simp del: map_val_sort_q)
qed

lemma aggregate_spec_agg1:
  "aggregate Q op vs srt \<noteq> None \<Longrightarrow> aggregate_spec op srt (map val vs) = Some (map val (agg1 Q op srt vs))"
  unfolding aggregate_refines [symmetric] by (auto simp: agg1_def)

end

section \<open>Properties\<close>



text \<open>
  C6. Percentile and median are order statistics: for a non-empty slice, \<^verbatim>\<open>p95\<close> returns one of the values, with
  at least \<^verbatim>\<open>19 * (n - 1) div 20 + 1\<close> values up to it and at least \<^verbatim>\<open>n - 19 * (n - 1) div 20\<close> from it on (the
  float64 product is off by less than it takes to change the index), and \<^verbatim>\<open>median\<close> likewise at
  \<^verbatim>\<open>(n - 1) div 2\<close>, whether or not the slice was sorted before.
\<close>

theorem percentile_and_median_are_order_statistics:
  assumes "quantity Q val dval" "vs \<noteq> []" "length vs \<le> 2 ^ 40" "srt \<longrightarrow> sorted (map val vs)"
  shows "(\<exists>r ws. aggregate Q P95Operation vs srt = Some ([r], ws) \<and> order_stat val vs (19 * (length vs - 1) div 20) r)
       \<and> (\<exists>r ws. aggregate Q MedianOperation vs srt = Some ([r], ws) \<and> order_stat val vs ((length vs - 1) div 2) r)"
  using quantity.aggregate_P95 [OF assms(1-3)] quantity.aggregate_Median [OF assms(1,2)] assms(4) by blast

theorem percentile_and_median_are_order_statistics_witness:
  "\<exists>r ws. aggregate decimal_ops P95Operation [dec 5 0, dec 3 0, dec 9 0] False = Some ([r], ws)
     \<and> order_stat dec_val [dec 5 0, dec 3 0, dec 9 0] 1 r"
  using percentile_and_median_are_order_statistics [OF dq.quantity_axioms, of "[dec 5 0, dec 3 0, dec 9 0]" False]
  by simp

text \<open>
  The maximum depends on whether the slice was sorted for another operation of the same level: over an
  unsorted slice it starts from the zero quantity, so it is the largest of the values and 0; over a sorted
  slice it is the largest value. The two agree exactly if some value is not negative.
\<close>

theorem max_depends_on_sorting:
  assumes "quantity Q val dval" "vs \<noteq> []"
  shows "\<exists>r s. aggregate Q MaxOperation vs False = Some ([r], vs)
             \<and> aggregate Q MaxOperation (sort_q Q vs) True = Some ([s], sort_q Q vs)
             \<and> val r = max 0 (Max (val ` set vs)) \<and> val s = Max (val ` set vs)
             \<and> (val r = val s \<longleftrightarrow> (\<exists>v \<in> set vs. 0 \<le> val v))"
proof -
  obtain r where r: "aggregate Q MaxOperation vs False = Some ([r], vs)" "val r = Max (insert 0 (val ` set vs))"
    using quantity.aggregate_Max_unsorted [OF assms(1)] by blast
  have "sort_q Q vs \<noteq> []" using assms(2) by simp
  from quantity.aggregate_Max_sorted [OF assms(1) this quantity.sorted_sort_q [OF assms(1)]]
  obtain s where s: "aggregate Q MaxOperation (sort_q Q vs) True = Some ([s], sort_q Q vs)" "val s = Max (val ` set vs)"
    by auto
  have ne: "val ` set vs \<noteq> {}" using assms(2) by simp
  have "val r = max 0 (Max (val ` set vs))" using r(2) ne by simp
  moreover have "0 \<le> Max (val ` set vs) \<longleftrightarrow> (\<exists>v \<in> set vs. 0 \<le> val v)"
    using ne by (simp add: Max_ge_iff)
  ultimately show ?thesis using r(1) s by (auto simp: max_def)
qed

theorem max_depends_on_sorting_witness:
  "\<exists>r s. aggregate decimal_ops MaxOperation [dec (- 5) 0, dec (- 2) 0] False = Some ([r], [dec (- 5) 0, dec (- 2) 0])
       \<and> dec_val r = 0
       \<and> aggregate decimal_ops MaxOperation (sort_q decimal_ops [dec (- 5) 0, dec (- 2) 0]) True
           = Some ([s], sort_q decimal_ops [dec (- 5) 0, dec (- 2) 0])
       \<and> dec_val s = - 2"
  using max_depends_on_sorting [OF dq.quantity_axioms, of "[dec (- 5) 0, dec (- 2) 0]"]
  by (auto simp: dec_val_dec)

end
