(* ===== verification/Aggregation_Levels.thy ===== *)
theory Aggregation_Levels
  imports Aggregation
begin

text \<open>
  Aggregation of whole metrics: what \<^verbatim>\<open>aggregateMetric\<close> and \<^verbatim>\<open>AggregateAndCollect\<close> guarantee for the metrics of an
  initialised collector (conservation of totals, roll-up through levels, independence of the iteration order of
  maps, absence of panics, distinct exported series).
\<close>

section \<open>Sums\<close>

lemma map_of_results:
  "map_of (foldl (\<lambda>rs op. AList.update op (f op) rs) [] ops) op = (if op \<in> set ops then Some (f op) else None)"
  by (simp add: foldl_update_const)

context quantity
begin

lemma val_sum_sortIf: "sum_list (map val (sortIf Q ops vs)) = sum_list (map val vs)"
  by (simp add: sum_list_sum_mset)

lemma agg1_Sum: "\<exists>r. agg1 Q SumOperation srt vs = [r] \<and> val r = sum_list (map val vs)"
  using aggregate_Sum [of vs srt] by (auto simp: agg1_def)

lemma sum_agg1_Sum: "sum_list (map val (agg1 Q SumOperation srt vs)) = sum_list (map val vs)"
  using agg1_Sum [of srt vs] by auto

definition total :: "(LabelsValues, 'q list) gomap \<Rightarrow> rat" where
  "total m = sum_list (map (\<lambda>e. sum_list (map val (snd e))) m)"

lemma total_aggregated_Sum:
  "total (aggregated Q ev m ops vals SumOperation) = total (filter (\<lambda>e. newKey ev m (fst e) \<noteq> None) vals)"
proof -
  have "total (aggregated Q ev m ops vals SumOperation)
      = sum_list (map (\<lambda>e. sum_list (map val (snd e))) (filter (\<lambda>e. snd e \<noteq> []) (group_by (newKey ev m) vals)))"
    by (simp add: total_def aggregated_def comp_def case_prod_unfold sum_agg1_Sum val_sum_sortIf)
  also have "\<dots> = sum_list (map (\<lambda>e. sum_list (map val (snd e))) (group_by (newKey ev m) vals))"
    by (rule sum_list_map_filter) auto
  also have "\<dots> = total (filter (\<lambda>e. newKey ev m (fst e) \<noteq> None) vals)"
    unfolding total_def by (rule sum_group_by) simp_all
  finally show ?thesis .
qed

end

text \<open>
  C3. Summing keeps the total: in the metric that \<^verbatim>\<open>aggregateMetric\<close> computes for the sum operation, the sum of all
  values is the sum of all values of the input whose labels pass the filters of the level. No value is
  lost, duplicated or attributed twice, whatever keys the mask and the overriders map the labels to.
\<close>

theorem sum_conserves_total:
  assumes "quantity Q val dval" "initLabels e scs mks = ((e', scs'), mks', c)" "mk \<in> set mks'"
    and "metric_size m \<le> 2 ^ 40" "SumOperation \<in> set ops"
  shows "\<exists>res am im. aggregateMetric Q ev c ops m mk = Some res \<and> map_of res SumOperation = Some am
           \<and> map_of (ci_maskById c) (lm_ID mk) = Some im
           \<and> sum_list (map (\<lambda>(k, vs). sum_list (map val vs)) (mt_Values am))
             = sum_list (map (\<lambda>(k, vs). sum_list (map val vs))
                 (filter (\<lambda>(k, vs). newKey ev (mk, im) k \<noteq> None) (mt_Values m)))"
proof -
  note im = initLabels_lookup [OF assms(2,3)]
  note res = aggregateMetric_total [OF im assms(4), of Q ev ops]
  show ?thesis
    unfolding res
    using im assms(5) quantity.total_aggregated_Sum [OF assms(1)]
    by (simp add: map_of_results quantity.total_def [OF assms(1)] case_prod_unfold)
qed

definition ex_metric :: "decimal metric" where
  "ex_metric = \<lparr>mt_Mask = ex_mask, mt_Name = blankName, mt_Buckets = [],
     mt_Values = [(ex_labels ''p'' ''w'', [dec 1 0, dec 2 0]), (ex_labels ''q'' ''w'', [dec 4 0])]\<rparr>"

definition ex_env :: env where
  "ex_env = \<lparr>ev_overriders = [], ev_cluster = ''''\<rparr>"

lemma metric_size_ex_metric: "metric_size ex_metric \<le> 2 ^ 40"
  by (simp add: metric_size_def ex_metric_def)

lemma newKey_no_filter:
  "lm_Filters (fst m) = [] \<Longrightarrow> ev_overriders ev = [] \<Longrightarrow> newKey ev m k = Some (mask_with m k)"
  by (simp add: newKey_def overrideValues_def)

theorem sum_conserves_total_witness:
  "\<exists>res am. aggregateMetric decimal_ops ex_env (snd (snd ex_init)) [SumOperation] ex_metric ex_mask = Some res
     \<and> map_of res SumOperation = Some am
     \<and> sum_list (map (\<lambda>(k, vs). sum_list (map dec_val vs)) (mt_Values am)) = 7"
  using sum_conserves_total [OF dq.quantity_axioms ex_init_eq _ metric_size_ex_metric, of ex_mask "[SumOperation]" ex_env]
  by (auto simp: newKey_no_filter ex_mask_def ex_env_def ex_metric_def dec_val_dec)

section \<open>Sizes\<close>

lemma sum_list_filter_le: "sum_list (map f (filter P xs)) \<le> sum_list (map (f :: 'a \<Rightarrow> nat) xs)"
  by (induction xs) auto

lemma size_aggregated:
  assumes "sum_list (map (\<lambda>e. length (snd e)) vals) \<le> 2 ^ 40"
  shows "sum_list (map (\<lambda>e. length (snd e)) (aggregated Q ev m ops vals op)) \<le> sum_list (map (\<lambda>e. length (snd e)) vals)"
proof -
  let ?g = "group_by (newKey ev m) vals" and ?len = "\<lambda>e. length (snd e)"
  have agg: "length (agg1 Q op (sorts_values ops) (sortIf Q ops (snd e))) \<le> length (snd e)"
    if "e \<in> set ?g" "snd e \<noteq> []" for e
  proof -
    have "length (snd e) \<le> sum_list (map ?len vals)"
      using group_by_size [of "fst e" "snd e" "newKey ev m" vals] that(1) by (simp add: length_concat comp_def)
    with assms have "length (sortIf Q ops (snd e)) \<le> 2 ^ 40" by (simp only: length_sortIf)
    with aggregate_total [of "sortIf Q ops (snd e)" Q op "sorts_values ops"] that(2) show ?thesis
      by (auto simp: agg1_def)
  qed
  have "sum_list (map ?len (aggregated Q ev m ops vals op))
      = sum_list (map (\<lambda>e. length (agg1 Q op (sorts_values ops) (sortIf Q ops (snd e)))) (filter (\<lambda>e. snd e \<noteq> []) ?g))"
    by (simp add: aggregated_def comp_def case_prod_unfold)
  also have "\<dots> \<le> sum_list (map ?len (filter (\<lambda>e. snd e \<noteq> []) ?g))" using agg by (intro sum_list_mono) auto
  also have "\<dots> \<le> sum_list (map ?len ?g)" by (rule sum_list_filter_le)
  also have "\<dots> = sum_list (map ?len (filter (\<lambda>e. newKey ev m (fst e) \<noteq> None) vals))"
    by (rule sum_group_by) simp_all
  also have "\<dots> \<le> sum_list (map ?len vals)" by (rule sum_list_filter_le)
  finally show ?thesis .
qed

section \<open>Roll-up\<close>

text \<open>The labels that the second mask keeps are kept by the first.\<close>

definition submask :: "labelsMask \<Rightarrow> labelsMask \<Rightarrow> bool" where
  "submask mk2 mk1 \<longleftrightarrow>
     list_all2 (\<longrightarrow>) (bm_bits (lm_BuiltIn mk2)) (bm_bits (lm_BuiltIn mk1))
     \<and> list_all (\<lambda>(n, _). gget False (lm_Extensions mk2) n \<longrightarrow> gget False (lm_Extensions mk1) n) (lm_Extensions mk2)"

lemma submask_Extensions:
  assumes "submask mk2 mk1" "gget False (lm_Extensions mk2) n"
  shows "gget False (lm_Extensions mk1) n"
proof -
  from assms(2) obtain b where "(n, b) \<in> set (lm_Extensions mk2)"
    by (auto simp: gget_def split: option.splits dest: map_of_SomeD)
  with assms show ?thesis by (auto simp: submask_def list_all_iff)
qed

lemma blank_blank:
  "list_all2 (\<longrightarrow>) bs2 bs1 \<Longrightarrow> length xs = length bs1 \<Longrightarrow> blank bs2 (blank bs1 xs) = blank bs2 xs"
proof (induction bs2 bs1 arbitrary: xs rule: list_all2_induct)
  case (Cons b2 bs2 b1 bs1)
  then show ?case by (cases xs) auto
qed simp

lemma mask_with_submask:
  assumes "submask mk2 mk1" "labels_wf k"
  shows "mask_with (mk2, mask_of ix (lm_Extensions mk2)) (mask_with (mk1, mask_of ix (lm_Extensions mk1)) k)
       = mask_with (mk2, mask_of ix (lm_Extensions mk2)) k"
proof -
  have "list_all2 (\<longrightarrow>) (bm_bits (lm_BuiltIn mk2)) (bm_bits (lm_BuiltIn mk1))" using assms(1) by (simp add: submask_def)
  then have "bv_fields (builtInMask (lm_BuiltIn mk2) (builtInMask (lm_BuiltIn mk1) b))
      = bv_fields (builtInMask (lm_BuiltIn mk2) b)" for b
    by (simp add: bv_fields_builtInMask blank_blank)
  then have b: "builtInMask (lm_BuiltIn mk2) (builtInMask (lm_BuiltIn mk1) b) = builtInMask (lm_BuiltIn mk2) b" for b
    by (simp only: bv_fields_inject)
  have "list_all2 (\<longrightarrow>) (xm_bits (mask_of ix (lm_Extensions mk2))) (xm_bits (mask_of ix (lm_Extensions mk1)))"
    using submask_Extensions [OF assms(1)] by (simp add: mask_of_def list_all2_conv_all_nth)
  then have "Mask (mask_of ix (lm_Extensions mk2)) (Mask (mask_of ix (lm_Extensions mk1)) (ls_Extension k))
      = Mask (mask_of ix (lm_Extensions mk2)) (ls_Extension k)"
    using assms(2) by (simp add: Mask_def blank_blank labels_wf_def slots_wf_def mask_of_def)
  with b show ?thesis by (simp add: mask_with_def)
qed

context quantity
begin

lemma sum_group_of_aggregated:
  assumes "\<And>e. e \<in> set vals \<Longrightarrow> Option.bind (newKey ev m1 (fst e)) g = h (fst e)"
  shows "sum_list (map val (group_of g k (aggregated Q ev m1 ops vals SumOperation)))
       = sum_list (map val (group_of h k vals))"
proof -
  let ?S = "\<lambda>e. sum_list (map val (snd e))"
  have S: "sum_list (map val (group_of f k es)) = sum_list (map ?S (filter (\<lambda>e. f (fst e) = Some k) es))"
    for f :: "'x \<Rightarrow> 'y option" and k and es :: "('x \<times> 'q list) list"
    unfolding group_of_def by (simp add: sum_list_concat_map comp_def)
  have "sum_list (map val (group_of g k (aggregated Q ev m1 ops vals SumOperation)))
      = sum_list (map ?S (filter (\<lambda>e. snd e \<noteq> [] \<and> g (fst e) = Some k) (group_by (newKey ev m1) vals)))"
    by (simp add: S aggregated_def filter_map comp_def case_prod_unfold sum_agg1_Sum val_sum_sortIf)
  also have "\<dots> = sum_list (map ?S (filter (\<lambda>e. snd e \<noteq> []) (filter (\<lambda>e. g (fst e) = Some k) (group_by (newKey ev m1) vals))))"
    by (simp add: conj_commute)
  also have "\<dots> = sum_list (map ?S (filter (\<lambda>e. g (fst e) = Some k) (group_by (newKey ev m1) vals)))"
    by (rule sum_list_map_filter) auto
  also have "\<dots> = sum_list (map val (group_of g k (group_by (newKey ev m1) vals)))" by (simp add: S)
  also have "\<dots> = sum_list (map val (group_of (\<lambda>a. Option.bind (newKey ev m1 a) g) k vals))"
    unfolding sum_list_sum_mset by (subst group_of_group_by [of _ g "\<lambda>a. Option.bind (newKey ev m1 a) g"]) simp_all
  also have "group_of (\<lambda>a. Option.bind (newKey ev m1 a) g) k vals = group_of h k vals"
    unfolding group_of_def using assms by (metis (no_types, lifting) filter_cong)
  finally show ?thesis .
qed

end

lemma group_of_aggregated_Nil:
  assumes "\<And>e. e \<in> set vals \<Longrightarrow> Option.bind (newKey ev m1 (fst e)) g = h (fst e)"
    and "\<And>vs. vs \<noteq> [] \<Longrightarrow> agg1 Q op (sorts_values ops) (sortIf Q ops vs) \<noteq> []"
  shows "group_of g k (aggregated Q ev m1 ops vals op) = [] \<longleftrightarrow> group_of h k vals = []"
proof -
  have "group_of g k (aggregated Q ev m1 ops vals op) = [] \<longleftrightarrow>
    (\<forall>e \<in> set (group_by (newKey ev m1) vals). g (fst e) = Some k \<longrightarrow> snd e = [])"
  proof -
    have "group_of g k (aggregated Q ev m1 ops vals op) = [] \<longleftrightarrow>
      (\<forall>e \<in> set (filter (\<lambda>(k, vs). vs \<noteq> []) (group_by (newKey ev m1) vals)).
         g (fst e) = Some k \<longrightarrow> agg1 Q op (sorts_values ops) (sortIf Q ops (snd e)) = [])"
      by (simp add: group_of_def aggregated_def filter_map comp_def case_prod_unfold) blast
    also have "\<dots> \<longleftrightarrow> (\<forall>e \<in> set (group_by (newKey ev m1) vals). g (fst e) = Some k \<longrightarrow> snd e = [])"
      unfolding set_filter case_prod_unfold using assms(2) by blast
    finally show ?thesis .
  qed
  also have "\<dots> \<longleftrightarrow> group_of g k (group_by (newKey ev m1) vals) = []"
    by (auto simp: group_of_def)
  also have "\<dots> \<longleftrightarrow> mset (group_of g k (group_by (newKey ev m1) vals)) = {#}" by simp
  also have "\<dots> \<longleftrightarrow> mset (group_of (\<lambda>a. Option.bind (newKey ev m1 a) g) k vals) = {#}"
    by (subst group_of_group_by [of _ g "\<lambda>a. Option.bind (newKey ev m1 a) g"]) simp_all
  also have "group_of (\<lambda>a. Option.bind (newKey ev m1 a) g) k vals = group_of h k vals"
    unfolding group_of_def using assms(1) by (metis (no_types, lifting) filter_cong)
  finally show ?thesis by simp
qed

context quantity
begin

lemma sum_aggregated_twice:
  assumes "\<And>e. e \<in> set vals \<Longrightarrow> Option.bind (newKey ev m1 (fst e)) (newKey ev m2) = newKey ev m2 (fst e)"
  shows "rel_option (\<lambda>a b. \<exists>r s. a = [r] \<and> b = [s] \<and> val r = val s)
      (map_of (aggregated Q ev m2 [SumOperation] (aggregated Q ev m1 [SumOperation] vals SumOperation) SumOperation) k)
      (map_of (aggregated Q ev m2 [SumOperation] vals SumOperation) k)"
proof -
  let ?g = "group_of (newKey ev m2) k (aggregated Q ev m1 [SumOperation] vals SumOperation)"
  let ?h = "group_of (newKey ev m2) k vals"
  have "?g = [] \<longleftrightarrow> ?h = []"
    using agg1_Sum by (intro group_of_aggregated_Nil assms) (auto, metis list.distinct(1))
  moreover have "sum_list (map val ?g) = sum_list (map val ?h)" by (rule sum_group_of_aggregated [OF assms])
  moreover have "\<exists>r. agg1 Q SumOperation srt (sortIf Q ops vs) = [r] \<and> val r = sum_list (map val vs)" for srt ops vs
    using agg1_Sum val_sum_sortIf by metis
  ultimately show ?thesis unfolding map_of_aggregated by simp metis
qed

end


text \<open>
  C4. Roll-up: without filters and overriders, summing to a first level and then to a second level that keeps
  only labels of the first gives, for every key of the second level, the value that summing directly to the
  second level gives. The levels of an aggregation can therefore be computed each from the preceding one.
\<close>

theorem sum_rolls_up:
  assumes "quantity Q val dval" "initLabels e scs mks = ((e', scs'), mks', c)" "mk1 \<in> set mks'" "mk2 \<in> set mks'"
    and "submask mk2 mk1" "lm_Filters mk1 = []" "lm_Filters mk2 = []" "ev_overriders ev = []"
    and "metric_size m \<le> 2 ^ 40" "\<forall>k \<in> fst ` set (mt_Values m). labels_wf k"
  shows "\<exists>res1 am1 res2 am2 res am.
      aggregateMetric Q ev c [SumOperation] m mk1 = Some res1 \<and> map_of res1 SumOperation = Some am1
    \<and> aggregateMetric Q ev c [SumOperation] am1 mk2 = Some res2 \<and> map_of res2 SumOperation = Some am2
    \<and> aggregateMetric Q ev c [SumOperation] m mk2 = Some res \<and> map_of res SumOperation = Some am
    \<and> (\<forall>k. rel_option (\<lambda>a b. \<exists>r s. a = [r] \<and> b = [s] \<and> val r = val s) (map_of (mt_Values am2) k) (map_of (mt_Values am) k))"
proof -
  let ?ix = "initExtensionLabelIndexes e' scs'"
  let ?m1 = "(mk1, mask_of ?ix (lm_Extensions mk1))" and ?m2 = "(mk2, mask_of ?ix (lm_Extensions mk2))"
  note im1 = initLabels_lookup [OF assms(2,3)] and im2 = initLabels_lookup [OF assms(2,4)]
  define am1 where "am1 = \<lparr>mt_Mask = mk1, mt_Name = blankName, mt_Buckets = [],
    mt_Values = aggregated Q ev ?m1 [SumOperation] (mt_Values m) SumOperation\<rparr>"
  have v1: "mt_Values am1 = aggregated Q ev ?m1 [SumOperation] (mt_Values m) SumOperation" by (simp add: am1_def)
  have "metric_size am1 \<le> 2 ^ 40"
    unfolding metric_size_sum v1
    by (rule order_trans [OF size_aggregated [OF assms(9) [unfolded metric_size_sum]] assms(9) [unfolded metric_size_sum]])
  note res = aggregateMetric_total [OF im1 assms(9)] aggregateMetric_total [OF im2 assms(9)]
    aggregateMetric_total [OF im2 this]
  have comp: "Option.bind (newKey ev ?m1 (fst e)) (newKey ev ?m2) = newKey ev ?m2 (fst e)"
    if "e \<in> set (mt_Values m)" for e
    using mask_with_submask [OF assms(5), of "fst e" ?ix] assms(6-8,10) that by (simp add: newKey_no_filter)
  have rel: "rel_option (\<lambda>a b. \<exists>r s. a = [r] \<and> b = [s] \<and> val r = val s)
      (map_of (aggregated Q ev ?m2 [SumOperation] (mt_Values am1) SumOperation) k)
      (map_of (aggregated Q ev ?m2 [SumOperation] (mt_Values m) SumOperation) k)" for k
    unfolding v1 by (rule quantity.sum_aggregated_twice [OF assms(1) comp])
  obtain res1 where r1: "aggregateMetric Q ev c [SumOperation] m mk1 = Some res1" "map_of res1 SumOperation = Some am1"
    by (simp add: res(1) am1_def)
  obtain res2 am2 where r2: "aggregateMetric Q ev c [SumOperation] am1 mk2 = Some res2" "map_of res2 SumOperation = Some am2"
    "mt_Values am2 = aggregated Q ev ?m2 [SumOperation] (mt_Values am1) SumOperation"
    by (simp add: res(3))
  obtain res' am where r3: "aggregateMetric Q ev c [SumOperation] m mk2 = Some res'" "map_of res' SumOperation = Some am"
    "mt_Values am = aggregated Q ev ?m2 [SumOperation] (mt_Values m) SumOperation"
    by (simp add: res(2))
  show ?thesis using r1 r2(1,2) r3(1,2) rel unfolding r2(3) [symmetric] r3(3) [symmetric] by blast
qed

theorem sum_rolls_up_witness:
  "\<exists>res1 am1 res2 am2. aggregateMetric decimal_ops ex_env (snd (snd ex_init)) [SumOperation] ex_metric ex_mask = Some res1
     \<and> map_of res1 SumOperation = Some am1
     \<and> aggregateMetric decimal_ops ex_env (snd (snd ex_init)) [SumOperation] am1 ex_mask = Some res2
     \<and> map_of res2 SumOperation = Some am2"
proof -
  have "submask ex_mask ex_mask" by (simp add: submask_def list_all2_refl list_all_iff ex_mask_def)
  moreover have "\<forall>k \<in> fst ` set (mt_Values ex_metric). labels_wf k" by (auto simp: ex_metric_def key_wf_labels_wf)
  ultimately show ?thesis
    using sum_rolls_up [OF dq.quantity_axioms ex_init_eq, of ex_mask ex_mask ex_env ex_metric] metric_size_ex_metric
    by (auto simp: ex_mask_def ex_env_def)
qed

section \<open>Iteration order\<close>

lemma sort_mset_cong: "mset xs = mset ys \<Longrightarrow> sort xs = sort ys"
  by (rule properties_for_sort) simp_all

lemma aggregate_spec_perm:
  assumes "mset xs = mset ys" "srt \<Longrightarrow> xs = ys"
  shows "map_option mset (aggregate_spec op srt xs) = map_option mset (aggregate_spec op srt ys)"
proof (cases srt)
  case False
  have "length xs = length ys" "set xs = set ys" "sum_list xs = sum_list ys" "xs = [] \<longleftrightarrow> ys = []"
    using assms(1) by (metis size_mset, metis set_mset_mset, metis sum_mset_sum_list, metis mset_zero_iff)
  moreover have "sort xs = sort ys" using assms(1) by (rule sort_mset_cong)
  ultimately show ?thesis using False assms(1) by (simp add: aggregate_spec_def)
qed (simp add: assms(2))

text \<open>
  C11. Aggregation does not depend on the order in which Go iterates its maps: two lists of the same entries
  give, for every operation and every key, the same values (for histograms, the same values up to order).
\<close>

theorem aggregation_order_independent:
  assumes "quantity Q val dval" "initLabels e scs mks = ((e', scs'), mks', c)" "mk \<in> set mks'"
    and "metric_size m \<le> 2 ^ 40" "mset (mt_Values m) = mset (mt_Values m')" "op \<in> set ops"
  shows "\<exists>res am res' am'. aggregateMetric Q ev c ops m mk = Some res \<and> map_of res op = Some am
           \<and> aggregateMetric Q ev c ops m' mk = Some res' \<and> map_of res' op = Some am'
           \<and> (\<forall>k. rel_option (\<lambda>a b. mset (map val a) = mset (map val b)) (map_of (mt_Values am) k) (map_of (mt_Values am') k))"
proof -
  note im = initLabels_lookup [OF assms(2,3)]
  have "metric_size m' \<le> 2 ^ 40" using assms(4) metric_size_mset [OF assms(5)] by simp
  note res = aggregateMetric_total [OF im assms(4)] aggregateMetric_total [OF im this]
  let ?m = "(mk, mask_of (initExtensionLabelIndexes e' scs') (lm_Extensions mk))"
  have "rel_option (\<lambda>a b. mset (map val a) = mset (map val b))
      (map_of (aggregated Q ev ?m ops (mt_Values m) op) k) (map_of (aggregated Q ev ?m ops (mt_Values m') op) k)" for k
  proof -
    let ?g = "group_of (newKey ev ?m) k (mt_Values m)" and ?h = "group_of (newKey ev ?m) k (mt_Values m')"
    have gh: "mset ?g = mset ?h" using assms(5) by (rule mset_group_of)
    then have "?g = [] \<longleftrightarrow> ?h = []" by (metis mset_zero_iff)
    moreover have "mset (map val (agg1 Q op (sorts_values ops) (sortIf Q ops ?g)))
        = mset (map val (agg1 Q op (sorts_values ops) (sortIf Q ops ?h)))" if "?g \<noteq> []"
    proof -
      have "length ?g \<le> 2 ^ 40"
        using length_group_of_le [of "newKey ev ?m" k "mt_Values m"] assms(4) by (simp only: metric_size_def)
      moreover have "length ?h = length ?g" using gh by (metis size_mset)
      ultimately have "aggregate Q op (sortIf Q ops ?g) (sorts_values ops) \<noteq> None"
        "aggregate Q op (sortIf Q ops ?h) (sorts_values ops) \<noteq> None"
        using that by (intro aggregate_not_None; simp only: sortIf_Nil_iff length_sortIf flip: length_0_conv)+
      note spec = quantity.aggregate_spec_agg1 [OF assms(1) this(1)] quantity.aggregate_spec_agg1 [OF assms(1) this(2)]
      have "mset (map val (sortIf Q ops ?g)) = mset (map val (sortIf Q ops ?h))" using gh by simp
      moreover have "map val (sortIf Q ops ?g) = map val (sortIf Q ops ?h)" if "sorts_values ops"
      proof -
        have "sort (map val ?g) = sort (map val ?h)" using gh by (intro sort_mset_cong) simp
        with that show ?thesis by (simp add: sortIf_def quantity.map_val_sort_q [OF assms(1)])
      qed
      ultimately show ?thesis
        using aggregate_spec_perm [of "map val (sortIf Q ops ?g)" "map val (sortIf Q ops ?h)" "sorts_values ops" op] spec
        by simp
    qed
    ultimately show ?thesis unfolding map_of_aggregated by simp
  qed
  then show ?thesis using assms(6) by (simp add: res map_of_results)
qed

theorem aggregation_order_independent_witness:
  "\<exists>res am. aggregateMetric decimal_ops ex_env (snd (snd ex_init)) [MedianOperation]
              (ex_metric\<lparr>mt_Values := rev (mt_Values ex_metric)\<rparr>) ex_mask = Some res
     \<and> map_of res MedianOperation = Some am"
  using aggregation_order_independent [OF dq.quantity_axioms ex_init_eq _ metric_size_ex_metric,
      of ex_mask "ex_metric\<lparr>mt_Values := rev (mt_Values ex_metric)\<rparr>" MedianOperation "[MedianOperation]" ex_env]
  by auto

section \<open>Absence of panics\<close>

definition keys_wf :: "(LabelsValues, 'q list) gomap \<Rightarrow> bool" where
  "keys_wf vals \<longleftrightarrow> list_all (\<lambda>(k, _). labels_wf k) vals"

lemma keys_wfD: "keys_wf vals \<Longrightarrow> (k, v) \<in> set vals \<Longrightarrow> labels_wf k"
  by (auto simp: keys_wf_def list_all_iff)

lemma length_values_with:
  "extensionMask_wf (snd m) \<Longrightarrow> labels_wf l \<Longrightarrow> length (values_with m l) = length (names_with m)"
  by (simp add: values_with_def names_with_def bmask.length_values xmask.length_values labels_wf_def)

lemma labels_wf_newKey:
  "extensionMask_wf (snd m) \<Longrightarrow> labels_wf k \<Longrightarrow> newKey ev m k = Some k' \<Longrightarrow> labels_wf k'"
  by (auto simp: newKey_def Let_def labels_wf_def mask_with_def override_with_def xmask.vinv_mask split: if_splits)

lemma keys_wf_aggregated:
  assumes "extensionMask_wf (snd m)" "keys_wf vals"
  shows "keys_wf (aggregated Q ev m ops vals op)"
proof -
  have "labels_wf k" if "k \<in> fst ` set (group_by (newKey ev m) vals)" for k
    using that assms by (auto simp: keys_group_by intro: labels_wf_newKey keys_wfD)
  then show ?thesis by (force simp: keys_wf_def list_all_iff aggregated_def)
qed

lemma aggregated_nonempty:
  assumes "sum_list (map (\<lambda>e. length (snd e)) vals) \<le> 2 ^ 40" "(k, v) \<in> set (aggregated Q ev m ops vals op)"
  shows "v \<noteq> []"
proof -
  from assms(2) obtain vs where vs: "(k, vs) \<in> set (group_by (newKey ev m) vals)" "vs \<noteq> []"
    "v = agg1 Q op (sorts_values ops) (sortIf Q ops vs)" by (auto simp: aggregated_def)
  have "length vs \<le> sum_list (map (\<lambda>e. length (snd e)) vals)"
    using group_by_size [OF vs(1)] by (simp add: length_concat comp_def)
  with assms(1) have "length (sortIf Q ops vs) \<le> 2 ^ 40" by (simp only: length_sortIf)
  with aggregate_total [of "sortIf Q ops vs" Q op "sorts_values ops"] vs(2,3) show ?thesis
    by (auto simp: agg1_def)
qed

definition gauges :: "labelsMask \<times> extensionLabelsMask \<Rightarrow> 'q metric \<Rightarrow> 'q exported list" where
  "gauges mi m =
     map (\<lambda>(k, v). Gauge (MetricName_String (mt_Name m)) (names_with mi) (values_with mi k) (v ! 0)) (mt_Values m)"

lemma collectMetric_eq:
  assumes "map_of (ci_maskById c) (lm_ID (mt_Mask m)) = Some im" "extensionMask_wf im"
    and "keys_wf (mt_Values m)" "\<And>k v. (k, v) \<in> set (mt_Values m) \<Longrightarrow> v \<noteq> []"
  shows "collectMetric c m = Some (gauges (mt_Mask m, im) m)"
proof -
  let ?mi = "(mt_Mask m, im)"
  let ?G = "\<lambda>(k, v). Gauge (MetricName_String (mt_Name m)) (names_with ?mi) (values_with ?mi k) (v ! 0)"
  have "(case kv of (k, v) \<Rightarrow>
             do { labels \<leftarrow> getLabelValues c (mt_Mask m) k;
                  x \<leftarrow> at_index v 0;
                  if length labels = length (names_with ?mi)
                  then Some (out @ [Gauge (MetricName_String (mt_Name m)) (names_with ?mi) labels x]) else None })
        = Some (out @ [?G kv])" if "kv \<in> set (mt_Values m)" for out kv
  proof -
    obtain k v where kv: "kv = (k, v)" by (cases kv)
    have "v \<noteq> []" "labels_wf k" using assms(4) [of k v] keys_wfD [OF assms(3), of k v] that by (simp_all add: kv)
    then show ?thesis
      using assms(2) by (simp add: kv with_lookup [OF assms(1)] at_index_def length_values_with)
  qed
  then have "ofold (\<lambda>out (k, v).
             do { labels \<leftarrow> getLabelValues c (mt_Mask m) k;
                  x \<leftarrow> at_index v 0;
                  if length labels = length (names_with ?mi)
                  then Some (out @ [Gauge (MetricName_String (mt_Name m)) (names_with ?mi) labels x]) else None })
            [] (mt_Values m) = Some (foldl (\<lambda>out kv. out @ [?G kv]) [] (mt_Values m))"
    by (rule ofold_total)
  then show ?thesis
    by (simp add: collectMetric_def gauges_def with_lookup [OF assms(1)] foldl_snoc_map)
qed

lemma ofold_not_None:
  assumes "\<And>s x. x \<in> set xs \<Longrightarrow> P s \<Longrightarrow> \<exists>s'. f s x = Some s' \<and> P s'" "P s"
  shows "\<exists>s'. ofold f s xs = Some s' \<and> P s'"
  using assms
proof (induction xs arbitrary: s)
  case (Cons x xs)
  from Cons.prems(1) [of x s] Cons.prems(2) obtain s' where s': "f s x = Some s'" "P s'" by auto
  with Cons.IH [of s'] Cons.prems(1) show ?case by simp
qed auto

lemma collectHistogramMetric_total:
  assumes "map_of (ci_maskById c) (lm_ID (mt_Mask m)) = Some im" "extensionMask_wf im" "keys_wf (mt_Values m)"
  shows "\<exists>out. collectHistogramMetric c m = Some out"
proof -
  have "\<exists>obs. ofold (\<lambda>out (k, v).
             do { labels \<leftarrow> getLabelValues c (mt_Mask m) k;
                  if length labels = length (names_with (mt_Mask m, im)) then Some (out @ [(labels, v)]) else None })
            [] (mt_Values m) = Some obs \<and> True"
    using assms(2) keys_wfD [OF assms(3)]
    by (intro ofold_not_None) (auto simp: with_lookup [OF assms(1)] length_values_with)
  then show ?thesis by (auto simp: collectHistogramMetric_def with_lookup [OF assms(1)])
qed

definition metric_ok :: "'q metric \<Rightarrow> bool" where
  "metric_ok m \<longleftrightarrow> metric_size m \<le> 2 ^ 40 \<and> keys_wf (mt_Values m)"

lemma metric_ok_update [simp]:
  "metric_ok (m\<lparr>mt_Name := n\<rparr>) \<longleftrightarrow> metric_ok m" "metric_ok (m\<lparr>mt_Buckets := b\<rparr>) \<longleftrightarrow> metric_ok m"
  by (simp_all add: metric_ok_def metric_size_def)

lemma gomap_wf_results: "gomap_wf rs \<Longrightarrow> gomap_wf (foldl (\<lambda>rs op. AList.update op (f op) rs) rs ops)"
  by (induction ops arbitrary: rs) auto

lemma aggregateMetric_results:
  assumes "map_of (ci_maskById c) (lm_ID mk) = Some im" "metric_size m \<le> 2 ^ 40"
  shows "\<exists>res. aggregateMetric Q ev c ops m mk = Some res
           \<and> (\<forall>(op, am) \<in> set res. mt_Mask am = mk \<and> mt_Values am = aggregated Q ev (mk, im) ops (mt_Values m) op)"
  unfolding aggregateMetric_total [OF assms]
  by (auto simp: gomap_wf_mem_iff [OF gomap_wf_results [OF gomap_wf_Nil]] map_of_results split: if_splits)

lemma collectOp_total:
  assumes "map_of (ci_maskById c) (lm_ID (mt_Mask am)) = Some im" "extensionMask_wf im" "metric_ok am"
    and "\<And>k v. (k, v) \<in> set (mt_Values am) \<Longrightarrow> v \<noteq> []"
  shows "\<exists>m' out. collectOp c ae a l name s (op, am) = Some (m', out) \<and> metric_ok m'"
proof -
  have k: "keys_wf (mt_Values am)" using assms(3) by (simp add: metric_ok_def)
  let ?n = "aggregatedName ae a l name op"
  have "\<exists>e. collectHistogramMetric c (am\<lparr>mt_Name := ?n, mt_Buckets := lv_HistogramBuckets l\<rparr>) = Some e"
    using assms(1,2) k by (intro collectHistogramMetric_total) simp_all
  then obtain e1 where "collectHistogramMetric c (am\<lparr>mt_Name := ?n, mt_Buckets := lv_HistogramBuckets l\<rparr>) = Some e1" ..
  moreover obtain e2 where "collectMetric c (am\<lparr>mt_Name := ?n\<rparr>) = Some e2"
    using collectMetric_eq [of c "am\<lparr>mt_Name := ?n\<rparr>" im] assms k by simp
  ultimately show ?thesis
    using assms(3) by (cases "op = HistogramOperation") (simp_all add: collectOp_def Let_def)
qed

lemma aggregateLevels_total:
  assumes "\<And>l. l \<in> set ls \<Longrightarrow> \<exists>im. map_of (ci_maskById c) (lm_ID (lv_Mask l)) = Some im \<and> extensionMask_wf im"
    and "metric_ok metric"
  shows "\<exists>out'. aggregateLevels Q c ae a name metric out ls = Some out'"
  using assms
proof (induction ls arbitrary: metric out)
  case (Cons l ls)
  from Cons.prems(1) [of l] obtain im where im: "map_of (ci_maskById c) (lm_ID (lv_Mask l)) = Some im" "extensionMask_wf im"
    by auto
  let ?ops = "lv_Operations l @ (if lv_Operation l \<noteq> '''' then [lv_Operation l] else [])"
  let ?ev = "env.truncate ae"
  have sz: "metric_size metric \<le> 2 ^ 40" and kw: "keys_wf (mt_Values metric)" using Cons.prems(2) by (simp_all add: metric_ok_def)
  from aggregateMetric_results [OF im(1) sz, of Q ?ev ?ops]
  obtain aggs where aggs: "aggregateMetric Q ?ev c ?ops metric (lv_Mask l) = Some aggs"
    and am: "\<And>op am. (op, am) \<in> set aggs \<Longrightarrow> mt_Mask am = lv_Mask l
      \<and> mt_Values am = aggregated Q ?ev (lv_Mask l, im) ?ops (mt_Values metric) op" by blast
  have sz': "sum_list (map (\<lambda>e. length (snd e)) (mt_Values metric)) \<le> 2 ^ 40"
    using sz by (simp only: metric_size_sum)
  have "\<exists>s'. collectOp c ae a l name s opm = Some s' \<and> metric_ok (fst s')" if opm: "opm \<in> set aggs" for s opm
  proof -
    obtain op m1 where o: "opm = (op, m1)" by (cases opm)
    note m1 = am [OF opm [unfolded o]]
    have "metric_ok m1"
      unfolding metric_ok_def metric_size_sum m1 [THEN conjunct2]
      using im(2) kw by (intro conjI order_trans [OF size_aggregated [OF sz'] sz'] keys_wf_aggregated) simp_all
    then show ?thesis
      using collectOp_total [of c m1 im ae a l name s op] im m1 aggregated_nonempty [OF sz'] unfolding o by fastforce
  qed
  then have "\<exists>s'. ofold (collectOp c ae a l name) (metric, out) aggs = Some s' \<and> metric_ok (fst s')"
    using Cons.prems(2) by (intro ofold_not_None) simp_all
  then obtain s' where s': "ofold (collectOp c ae a l name) (metric, out) aggs = Some s'" "metric_ok (fst s')" by blast
  show ?case
    using Cons.IH [of metric out] Cons.IH [OF _ s'(2), of "snd s'"] Cons.prems aggs s'(1) by (simp add: Let_def)
qed simp

text \<open>
  Aggregation never panics: for an initialised collector whose aggregation uses its level masks, over metrics
  with well-formed keys, \<^verbatim>\<open>AggregateAndCollect\<close> runs through all levels and operations without an index out of
  range (\<^verbatim>\<open>v[0]\<close> of an exported series included), a nil mask, or a number of label values that
  differs from the number of names.
\<close>

theorem AggregateAndCollect_never_panics:
  assumes "initLabels e scs mks = ((e', scs'), mks', c)" "\<forall>l \<in> set (ag_Levels a). lv_Mask l \<in> set mks'"
    and "\<forall>m \<in> snd ` set ms. metric_size m \<le> 2 ^ 40 \<and> keys_wf (mt_Values m)"
  shows "\<exists>out. AggregateAndCollect Q c ae a ms = Some out"
proof -
  have lv: "\<exists>im. map_of (ci_maskById c) (lm_ID (lv_Mask l)) = Some im \<and> extensionMask_wf im" if "l \<in> set (ag_Levels a)" for l
    using initLabels_lookup [OF assms(1), of "lv_Mask l"] assms(2) that by auto
  have "\<exists>out'. aggregateLevels Q c ae a name m out (ag_Levels a) = Some out'" if "(name, m) \<in> set ms" for name m out
    using assms(3) that by (intro aggregateLevels_total lv) (auto simp: metric_ok_def)
  then have "\<exists>out. ofold (\<lambda>out (name, m). aggregateLevels Q c ae a name m out (ag_Levels a))
       \<lparr>co_exported = [], co_retained = []\<rparr>
       (filter (\<lambda>(k, v). mn_Source k \<in> set (GetSources (ag_Sources a))) ms) = Some out \<and> True"
    by (intro ofold_not_None) auto
  then show ?thesis by (simp add: AggregateAndCollect_def)
qed

definition ex_aggregation :: aggregation where
  "ex_aggregation =
     \<lparr>ag_Name = ''containers'',
      ag_Sources = \<lparr>src_Type = ContainerType, src_Quota = [], src_Node = [], src_CGroup = [],
        src_Container = [''requests_allocated''], src_Pod = [], src_PV = [], src_PVC = [], src_Namespace = [],
        src_ClusterScoped = [], src_SchedulerHealth = [], src_Alias = []\<rparr>,
      ag_Levels = [\<lparr>lv_Name = ''l'', lv_Mask = ex_mask, lv_Operation = MaxOperation, lv_Operations = [],
        lv_NoExport = False, lv_HistogramBuckets = [], lv_RetentionName = '''', lv_RetentionExponentialBuckets = []\<rparr>]\<rparr>"

theorem AggregateAndCollect_never_panics_witness:
  "\<exists>out. AggregateAndCollect decimal_ops (snd (snd ex_init))
     \<lparr>ev_overriders = [], ev_cluster = '''', ae_Prefix = ''kube_usage'', ae_SaveSamplesLocally = False\<rparr>
     ex_aggregation [(blankName\<lparr>mn_Source := ''requests_allocated''\<rparr>, ex_metric)] = Some out"
  by (rule AggregateAndCollect_never_panics [OF ex_init_eq])
    (use metric_size_ex_metric in \<open>simp_all add: ex_aggregation_def keys_wf_def ex_metric_def key_wf_labels_wf\<close>)

text \<open>
  C8. The series that one operation of a level exports are distinct: without overriders, no two gauges that
  \<^verbatim>\<open>collectMetric\<close> emits for an aggregated metric carry the same label values, there is exactly one per key, and
  each carries as many label values as names.
\<close>

theorem exported_series_distinct:
  assumes "initLabels e scs mks = ((e', scs'), mks', c)" "mk \<in> set mks'" "ev_overriders ev = []"
    and "metric_size m \<le> 2 ^ 40" "\<forall>k \<in> fst ` set (mt_Values m). key_wf k"
    and "aggregateMetric Q ev c ops m mk = Some res" "map_of res op = Some am"
  shows "\<exists>ns vss qs. collectMetric c am = Some (map (\<lambda>(vs, q). Gauge (MetricName_String (mt_Name am)) ns vs q) (zip vss qs))
           \<and> length vss = length (mt_Values am) \<and> length qs = length (mt_Values am)
           \<and> distinct vss \<and> (\<forall>vs \<in> set vss. length vs = length ns)"
proof -
  let ?m = "(mk, mask_of (initExtensionLabelIndexes e' scs') (lm_Extensions mk))"
  note im = initLabels_lookup [OF assms(1,2)]
  have sz: "sum_list (map (\<lambda>e. length (snd e)) (mt_Values m)) \<le> 2 ^ 40" using assms(4) by (simp only: metric_size_sum)
  have am: "mt_Values am = aggregated Q ev ?m ops (mt_Values m) op" "mt_Mask am = mk"
    using assms(6,7) by (auto simp: aggregateMetric_total [OF im assms(4)] map_of_results split: if_splits)
  have key: "\<exists>l. key_wf l \<and> k = mask_with ?m l" if "(k, v) \<in> set (mt_Values am)" for k v
  proof -
    from that have "k \<in> fst ` set (group_by (newKey ev ?m) (mt_Values m))" unfolding am by (force simp: aggregated_def)
    then obtain ent where "ent \<in> set (mt_Values m)" "newKey ev ?m (fst ent) = Some k" by (auto simp: keys_group_by)
    with assms(3,5) show ?thesis by (auto simp: newKey_def overrideValues_def Let_def split: if_splits)
  qed
  then have kw: "key_wf k" if "(k, v) \<in> set (mt_Values am)" for k v
    using that lmask.vinv_mask [of ?m] by fastforce
  then have "keys_wf (mt_Values am)" by (auto simp: keys_wf_def list_all_iff key_wf_labels_wf)
  then have "collectMetric c am = Some (gauges (mt_Mask am, snd ?m) am)"
    using im by (intro collectMetric_eq) (simp_all add: am aggregated_nonempty [OF sz])
  then have cm: "collectMetric c am = Some (gauges ?m am)" by (simp add: am)
  let ?vss = "map (\<lambda>e. values_with ?m (fst e)) (mt_Values am)" and ?qs = "map (\<lambda>e. snd e ! 0) (mt_Values am)"
  have "gauges ?m am = map (\<lambda>(vs, q). Gauge (MetricName_String (mt_Name am)) (names_with ?m) vs q) (zip ?vss ?qs)"
    by (simp add: gauges_def am zip_map_map map_zip_map comp_def case_prod_unfold zip_same_conv_map)
  moreover have "distinct ?vss"
  proof -
    have "distinct (map fst (mt_Values am))" using gomap_wf_aggregated [of Q ev ?m ops "mt_Values m" op] by (simp add: am gomap_wf_def)
    moreover have "inj_on (values_with ?m) (fst ` set (mt_Values am))"
      by (rule inj_on_subset [OF lmask.values_inj_on [of ?m]]) (auto dest: key)
    ultimately have "distinct (map (values_with ?m) (map fst (mt_Values am)))"
      by (simp add: distinct_map comp_inj_on)
    then show ?thesis by (simp add: comp_def)
  qed
  moreover have "\<forall>vs \<in> set ?vss. length vs = length (names_with ?m)"
    using kw by (auto simp: lmask.length_values)
  ultimately show ?thesis using cm by (intro exI [of _ "names_with ?m"] exI [of _ ?vss] exI [of _ ?qs]) simp
qed

theorem exported_series_distinct_witness:
  "\<exists>res am ns vss qs. aggregateMetric decimal_ops ex_env (snd (snd ex_init)) [SumOperation] ex_metric ex_mask = Some res
     \<and> map_of res SumOperation = Some am
     \<and> collectMetric (snd (snd ex_init)) am
         = Some (map (\<lambda>(vs, q). Gauge (MetricName_String (mt_Name am)) ns vs q) (zip vss qs)) \<and> distinct vss"
proof -
  obtain res where "aggregateMetric decimal_ops ex_env (snd (snd ex_init)) [SumOperation] ex_metric ex_mask = Some res"
      "map_of res SumOperation \<noteq> None"
    using aggregateMetric_total [OF initLabels_lookup [OF ex_init_eq, of ex_mask] metric_size_ex_metric,
        of decimal_ops ex_env "[SumOperation]"] by simp
  moreover then obtain am where "map_of res SumOperation = Some am" by blast
  ultimately show ?thesis
    using exported_series_distinct [OF ex_init_eq, of ex_mask ex_env ex_metric decimal_ops "[SumOperation]" res SumOperation am]
      metric_size_ex_metric by (fastforce simp: ex_env_def ex_metric_def)
qed

end
