(* ===== verification/Sampler_Api.thy ===== *)
theory Sampler_Api
  imports Go_Float
begin

text \<open>
  The data that samplers and the collector exchange: \<^verbatim>\<open>ContainerKey\<close> of \<^verbatim>\<open>pkg/sampler/types.go\<close> and the
  messages of \<^verbatim>\<open>pkg/sampler/api\<close> with the fields that the sources read or write. All numbers of a message are
  \<^verbatim>\<open>int64\<close>, the throttling percentages \<^verbatim>\<open>float32\<close>. A \<^verbatim>\<open>float32\<close> is a float that has been rounded to 24
  significant bits.
\<close>

record ContainerKey =
  ck_ContainerID :: string
  ck_PodUID :: string
  ck_NamespaceName :: string
  ck_ContainerName :: string
  ck_PodName :: string

definition ContainerKey_zero :: ContainerKey where
  "ContainerKey_zero =
     \<lparr>ck_ContainerID = '''', ck_PodUID = '''', ck_NamespaceName = '''', ck_ContainerName = '''', ck_PodName = ''''\<rparr>"

definition ulp_exp32 :: "rat \<Rightarrow> int" where
  "ulp_exp32 x =
     (let (a, b) = quotient_of \<bar>x\<bar>; k = bitlen a - bitlen b
      in max (- 149) ((if \<bar>x\<bar> < 2 powi k then k - 1 else k) - 23))"

definition f32_of_f64 :: "float64 \<Rightarrow> float64" where
  "f32_of_f64 f =
     (case f of
        Fin x \<Rightarrow>
          (let u = 2 powi (ulp_exp32 x); r = (if x = 0 then 0 else of_int (round_half_even (x / u)) * u)
           in if 2 ^ 128 \<le> r then PInf else if r \<le> - (2 ^ 128) then NInf else Fin r)
      | _ \<Rightarrow> f)"

fun f32_less :: "float64 \<Rightarrow> float64 \<Rightarrow> bool" where
  "f32_less (Fin a) (Fin b) \<longleftrightarrow> a < b"
| "f32_less NInf (Fin _) \<longleftrightarrow> True"
| "f32_less NInf PInf \<longleftrightarrow> True"
| "f32_less (Fin _) PInf \<longleftrightarrow> True"
| "f32_less _ _ \<longleftrightarrow> False"

record containerMetrics =
  us_ContainerID :: string
  us_ContainerName :: string
  us_PodName :: string
  us_NamespaceName :: string
  us_PodUID :: string
  us_NodeName :: string
  us_CpuCoresNanoSec :: "int list"
  us_CpuThrottledNanoSec :: "int list"
  us_CpuPercentPeriodsThrottled :: "float64 list"
  us_MemoryBytes :: "int list"
  us_CpuPeriodsSec :: "int list"
  us_CpuThrottledPeriodsSec :: "int list"
  us_OomKillCount :: int
  us_OomCount :: int
  us_AvgCPUCoresNanoSec :: int
  us_AvgCPUThrottledNanoSec :: int
  us_AvgCPUPercentPeriodsThrottled :: float64
  us_AvgMemoryBytes :: int
  us_AvgCPUPeriodsSec :: int
  us_AvgCPUThrottledPeriodsSec :: int
  us_Network :: "(string \<times> int list \<times> int) list"

text \<open>
  \<^verbatim>\<open>us_Network\<close> groups the sixteen network fields: for each of the eight network resources its samples and
  its average.
\<close>

definition network_samples :: "containerMetrics \<Rightarrow> string \<Rightarrow> int list" where
  "network_samples u r = fst (gget ([], 0) (us_Network u) r)"

definition network_avg :: "containerMetrics \<Rightarrow> string \<Rightarrow> int" where
  "network_avg u r = snd (gget ([], 0) (us_Network u) r)"

record nodeAggregatedMetrics =
  na_AggregationLevel :: string
  na_CpuCoresNanoSec :: "int list"
  na_MemoryBytes :: "int list"
  na_AvgCPUCoresNanoSec :: int
  na_AvgMemoryBytes :: int

record listMetricsResponse =
  lr_Containers :: "containerMetrics list"
  lr_Node :: "nodeAggregatedMetrics list"
  lr_NodeName :: string
  lr_PodName :: string
  lr_Reason :: string
  lr_Timestamp :: gotime

end
