(* ===== verification/Value_Reader.thy ===== *)
theory Value_Reader
  imports Labels Sampler_Api
begin

text \<open>
  Reading values from objects, \<^verbatim>\<open>pkg/collector/values.go\<close>, and resolving the workload of a pod,
  \<^verbatim>\<open>pkg/collector/util.go\<close>. The Kubernetes client, the YAML parser and the clock are arguments.
\<close>

section \<open>Values\<close>

record 'q sourceValue =
  vl_ResourceList :: "'q resourceList"
  vl_MultiResourceList :: "(string, 'q list) gomap option"
  vl_Level :: string
  vl_Source :: source

definition pod_completed :: "'q pod \<Rightarrow> bool" where
  "pod_completed pod \<longleftrightarrow> pd_Phase pod = PodSucceeded \<or> pd_Phase pod = PodFailed"

text \<open>The loop that moves \<^verbatim>\<open>last\<close> before the trailing zeros.\<close>

fun strip_zeros :: "int list \<Rightarrow> nat \<Rightarrow> nat" where
  "strip_zeros usage 0 = 0"
| "strip_zeros usage (Suc n) = (if usage ! n \<noteq> 0 then Suc n else strip_zeros usage n)"

definition reported_samples :: "'q pod \<Rightarrow> int list \<Rightarrow> int list" where
  "reported_samples pod usage =
     (let last = (if pod_completed pod then strip_zeros usage (length usage) else length usage)
      in map (\<lambda>i. usage ! i) [0..<last])"

definition createValue :: "('q, 'd) quantity_ops \<Rightarrow> 'q pod \<Rightarrow> int list \<Rightarrow> source \<Rightarrow> string \<Rightarrow> 'q sourceValue" where
  "createValue Q pod usage src resName =
     (let qty = map (qo_NewQuantity Q) (reported_samples pod usage)
      in \<lparr>vl_ResourceList = None,
          vl_MultiResourceList = Some (if 0 < length qty then [(resName, qty)] else []),
          vl_Level = ContainerLevel, vl_Source = src\<rparr>)"

definition items_value :: "('q, 'd) quantity_ops \<Rightarrow> string \<Rightarrow> source \<Rightarrow> 'q sourceValue" where
  "items_value Q lvl src =
     \<lparr>vl_ResourceList = Some [(ResourceItems, qo_NewQuantity Q 1)], vl_MultiResourceList = None,
      vl_Level = lvl, vl_Source = src\<rparr>"

definition list_value :: "'q resourceList \<Rightarrow> string \<Rightarrow> source \<Rightarrow> 'q sourceValue" where
  "list_value rl lvl src =
     \<lparr>vl_ResourceList = rl, vl_MultiResourceList = None, vl_Level = lvl, vl_Source = src\<rparr>"

definition multi_value :: "(string, 'q list) gomap \<Rightarrow> source \<Rightarrow> 'q sourceValue" where
  "multi_value m src =
     \<lparr>vl_ResourceList = None, vl_MultiResourceList = Some m, vl_Level = ContainerLevel, vl_Source = src\<rparr>"

text \<open>
  The two utilization values: CPU and memory samples if some are left, then the network samples; the second
  component is requests minus utilization, with zero requests where none are reported.
\<close>

definition utilization_lists ::
  "('q, 'd) quantity_ops \<Rightarrow> 'q pod \<Rightarrow> 'q resourceList \<Rightarrow> containerMetrics \<Rightarrow>
   (string, 'q list) gomap \<times> (string, 'q list) gomap" where
  "utilization_lists Q pod requests usage =
     (let cpu = map (\<lambda>v. qo_NewScaledQuantity Q v Nano) (reported_samples pod (us_CpuCoresNanoSec usage));
          memory = map (qo_NewQuantity Q) (reported_samples pod (us_MemoryBytes usage));
          minus = (\<lambda>r vs. map (\<lambda>v. qo_Sub Q (gget (qo_zero Q) (rl_items requests) r) v) vs);
          u = []; d = [];
          u = (if 0 < length cpu then AList.update ResourceCPU cpu u else u);
          d = (if 0 < length cpu then AList.update ResourceCPU (minus ResourceCPU cpu) d else d);
          u = (if 0 < length memory then AList.update ResourceMemory memory u else u);
          d = (if 0 < length memory then AList.update ResourceMemory (minus ResourceMemory memory) d else d);
          u = foldl (\<lambda>u r. if length (network_samples usage r) = 0 then u
                           else AList.update r (map (qo_NewQuantity Q) (network_samples usage r)) u) u NetworkResources
      in (u, d))"

definition GetValuesForContainer ::
  "('q, 'd) quantity_ops \<Rightarrow> 'q container \<Rightarrow> 'q pod \<Rightarrow> containerMetrics option \<Rightarrow> (source, 'q sourceValue) gomap" where
  "GetValuesForContainer Q container pod usage =
     (let vs = [(''container'', items_value Q ContainerLevel ''container'')];
          vs = (if \<not> pod_completed pod
                then AList.update ''limits_allocated'' (list_value (ct_Limits container) ContainerLevel ''limits_allocated'')
                       (AList.update ''requests_allocated''
                          (list_value (ct_Requests container) ContainerLevel ''requests_allocated'') vs)
                else vs)
      in case usage of
           None \<Rightarrow> vs
         | Some u \<Rightarrow>
             if length (us_CpuCoresNanoSec u) = 0 \<or> length (us_MemoryBytes u) = 0 then vs
             else
               (let vs = AList.update ''avg_utilization''
                           (list_value (Some ([(ResourceCPU, qo_NewScaledQuantity Q (us_AvgCPUCoresNanoSec u) Nano),
                                               (ResourceMemory, qo_NewQuantity Q (us_AvgMemoryBytes u))]
                                             @ map (\<lambda>r. (r, qo_NewQuantity Q (network_avg u r))) NetworkResources))
                              ContainerLevel ''avg_utilization'') vs;
                    requests = (case map_of vs ''requests_allocated'' of None \<Rightarrow> None | Some v \<Rightarrow> vl_ResourceList v);
                    (ul, dl) = utilization_lists Q pod requests u;
                    vs = AList.update ''utilization'' (multi_value ul ''utilization'') vs;
                    vs = AList.update ''requests_allocated_minus_utilization''
                           (multi_value dl ''requests_allocated_minus_utilization'') vs
                in if length (us_CpuPeriodsSec u) = 0 \<or> length (us_CpuThrottledPeriodsSec u) = 0 then vs
                   else
                     (let vs = AList.update ''nr_periods'' (createValue Q pod (us_CpuPeriodsSec u) ''nr_periods'' ResourcePeriods) vs;
                          vs = AList.update ''avg_nr_periods''
                                 (list_value (Some [(ResourcePeriods, qo_NewQuantity Q (us_AvgCPUPeriodsSec u))])
                                    ContainerLevel ''avg_nr_periods'') vs;
                          vs = AList.update ''nr_throttled''
                                 (createValue Q pod (us_CpuThrottledPeriodsSec u) ''nr_throttled'' ResourcePeriods) vs;
                          vs = AList.update ''avg_nr_throttled''
                                 (list_value (Some [(ResourcePeriods, qo_NewQuantity Q (us_AvgCPUThrottledPeriodsSec u))])
                                    ContainerLevel ''avg_nr_throttled'') vs;
                          vs = AList.update ''oom_kill''
                                 (list_value (Some [(ResourceItems, qo_NewQuantity Q (us_OomKillCount u))]) ContainerLevel ''oom_kill'') vs
                      in AList.update ''oom''
                           (list_value (Some [(ResourceItems, qo_NewQuantity Q (us_OomCount u))]) ContainerLevel ''oom'') vs)))"

definition GetValuesForPod :: "('q, 'd) quantity_ops \<Rightarrow> 'q pod \<Rightarrow> (source, 'q sourceValue) gomap" where
  "GetValuesForPod Q pod = [(''pod'', items_value Q PodLevel ''pod'')]"

section \<open>Scheduler health\<close>

record schedulerHealth =
  sh_MaxPodAgeMinutes :: u64
  sh_MinPodAgeMinutes :: u64

definition minutes :: "u64 \<Rightarrow> duration" where
  "minutes m = int64_wrap (int64_of m * Minute)"

definition Milliseconds :: "duration \<Rightarrow> int" where
  "Milliseconds d = sgn d * (\<bar>d\<bar> div 10 ^ 6)"

definition scheduled_after :: "'q pod \<Rightarrow> duration" where
  "scheduled_after pod =
     (case find (\<lambda>c. kc_Type c = ''PodScheduled'' \<and> kc_Status c = ''True'') (pd_Conditions pod) of
        None \<Rightarrow> 0
      | Some c \<Rightarrow> time_sub (kc_LastTransitionTime c) (om_CreationTimestamp (pd_Meta pod)))"

definition GetValuesForSchedulerHealth ::
  "('q, 'd) quantity_ops \<Rightarrow> gotime \<Rightarrow> 'q pod \<Rightarrow> schedulerHealth option \<Rightarrow> (source, 'q sourceValue) gomap" where
  "GetValuesForSchedulerHealth Q now pod s =
     (case s of
        None \<Rightarrow> []
      | Some s \<Rightarrow>
         (let created = om_CreationTimestamp (pd_Meta pod) in
          if IsZero created then []
          else
           (let podAge = time_sub now created in
            if podAge > minutes (sh_MaxPodAgeMinutes s) then []
            else
             (let scheduleDuration =
                   (if pd_NodeName pod \<noteq> '''' then scheduled_after pod
                    else if podAge > minutes (sh_MinPodAgeMinutes s) then time_sub now created
                    else 0)
              in if scheduleDuration = 0 then []
                 else [(''pod_schedule_wait'',
                        list_value (Some [(ResourceTime, qo_NewMilliQuantity Q (Milliseconds scheduleDuration))])
                          PodLevel ''pod_schedule_wait'')]))))"

section \<open>Quota\<close>

definition splitRequestsLimitsQuota :: "'q resourceList \<Rightarrow> (string, 'q) gomap \<times> (string, 'q) gomap" where
  "splitRequestsLimitsQuota input =
     foldl (\<lambda>(requests, limits) (k, v).
        if HasPrefix k ''requests.'' then (AList.update (TrimPrefix k ''requests.'') v requests, limits)
        else if HasPrefix k ''limits.'' then (requests, AList.update (TrimPrefix k ''limits.'') v limits)
        else (requests, limits)) ([], []) (rl_items input)"

definition subLists :: "('q, 'd) quantity_ops \<Rightarrow> 'q resourceList \<Rightarrow> 'q resourceList \<Rightarrow> (string, 'q) gomap" where
  "subLists Q a b =
     foldl (\<lambda>result (k, vA). case map_of (rl_items b) k of
                               None \<Rightarrow> result
                             | Some vB \<Rightarrow> AList.update k (qo_Sub Q vA vB) result) [] (rl_items a)"

definition getProposedQuota :: "'q resourceList \<Rightarrow> string \<Rightarrow> (string, 'q) gomap" where
  "getProposedQuota proposed resourcePrefix =
     foldl (\<lambda>rl r. case map_of (rl_items proposed) (resourcePrefix @ ''.'' @ r) of
                     None \<Rightarrow> rl
                   | Some q \<Rightarrow> AList.update r q rl) [] ResourceNames"

definition getRequestsPVCQuota :: "'q resourceList \<Rightarrow> (string, 'q) gomap" where
  "getRequestsPVCQuota input =
     foldl (\<lambda>requests (k, v). if Contains k ''storageclass.storage.k8s.io'' then AList.update k v requests else requests)
       [] (rl_items input)"

text \<open>
  \<^verbatim>\<open>yaml.UnmarshalStrict\<close> into a resource list is an argument, \<^const>\<open>None\<close> its error; the document may
  be null, which leaves a nil list.
\<close>

definition getMaxObservedQuota ::
  "(string \<Rightarrow> 'q resourceList option) \<Rightarrow> 'q resourceQuotaDescriptor \<Rightarrow> 'q resourceList option" where
  "getMaxObservedQuota unmarshal rqd =
     (case map_of (om_Annotations (rqd_Meta rqd)) MaxObservedQuotaAnnotationKey of
        None \<Rightarrow> Some None
      | Some serializedMaxQ \<Rightarrow> unmarshal serializedMaxQ)"

definition GetValuesForQuota ::
  "('q, 'd) quantity_ops \<Rightarrow> (string \<Rightarrow> 'q resourceList option) \<Rightarrow> 'q resourceQuota \<Rightarrow> 'q resourceQuotaDescriptor option \<Rightarrow>
   bool \<Rightarrow> (source, 'q sourceValue) gomap" where
  "GetValuesForQuota Q unmarshal quota rqd enableRqd =
     (let (rh, lh) = splitRequestsLimitsQuota (rq_Hard quota);
          (ru, lu) = splitRequestsLimitsQuota (rq_Used quota);
          ret =
            [(''requests_quota_hard'', list_value (Some rh) NamespaceLevel ''requests_quota_hard''),
             (''limits_quota_hard'', list_value (Some lh) NamespaceLevel ''limits_quota_hard''),
             (''requests_quota_used'', list_value (Some ru) NamespaceLevel ''requests_quota_used''),
             (''limits_quota_used'', list_value (Some lu) NamespaceLevel ''limits_quota_used''),
             (''requests_quota_hard_minus_used'',
                list_value (Some (subLists Q (Some rh) (Some ru))) NamespaceLevel ''requests_quota_hard''),
             (''limits_quota_hard_minus_used'',
                list_value (Some (subLists Q (Some lh) (Some lu))) NamespaceLevel ''limits_quota_hard''),
             (''quota'', items_value Q NamespaceLevel ''quota''),
             (''pvc_requests_quota_hard'',
                list_value (Some (getRequestsPVCQuota (rq_Hard quota))) NamespaceLevel ''pvc_requests_quota_hard''),
             (''pvc_requests_quota_used'',
                list_value (Some (getRequestsPVCQuota (rq_Used quota))) NamespaceLevel ''pvc_requests_quota_used'')]
      in if \<not> enableRqd then ret
         else
           (let lp = (case rqd of None \<Rightarrow> None | Some d \<Rightarrow> Some (getProposedQuota (rqd_ProposedQuota d) ''limits''));
                rp = (case rqd of None \<Rightarrow> None | Some d \<Rightarrow> Some (getProposedQuota (rqd_ProposedQuota d) ''requests''));
                (rm, lm) = (case rqd of None \<Rightarrow> (None, None)
                            | Some d \<Rightarrow>
                                (case getMaxObservedQuota unmarshal d of
                                   Some (Some m) \<Rightarrow>
                                     (let (mr, ml) = splitRequestsLimitsQuota (Some m)
                                      in (Some (subLists Q (Some mr) (Some rh)), Some (subLists Q (Some ml) (Some lh))))
                                 | _ \<Rightarrow> (None, None)))
            in ret @
               [(''limits_quota_proposed'', list_value lp NamespaceLevel ''limits_quota_proposed''),
                (''requests_quota_proposed'', list_value rp NamespaceLevel ''requests_quota_proposed''),
                (''requests_quota_hard_minus_proposed'',
                   list_value (Some (subLists Q (Some rh) rp)) NamespaceLevel ''limits_quota_hard_minus_proposed''),
                (''limits_quota_hard_minus_proposed'',
                   list_value (Some (subLists Q (Some lh) lp)) NamespaceLevel ''requests_quota_hard_minus_proposed''),
                (''requests_quota_max_observed_minus_hard'',
                   list_value rm NamespaceLevel ''requests_quota_max_observed_minus_hard''),
                (''limits_quota_max_observed_minus_hard'',
                   list_value lm NamespaceLevel ''limits_quota_max_observed_minus_hard'')]))"

section \<open>Nodes and volumes\<close>

definition getNodeRequestsLimits ::
  "('q, 'd) quantity_ops \<Rightarrow> 'q pod list \<Rightarrow> (string, 'q) gomap \<times> (string, 'q) gomap" where
  "getNodeRequestsLimits Q pods =
     (let (cr, mr, cl, ml) =
        foldl (\<lambda>s pod. if pod_completed pod then s
                 else foldl (\<lambda>(cr, mr, cl, ml) c.
                        (qo_Add Q cr (qo_Cpu Q (ct_Requests c)), qo_Add Q mr (qo_Memory Q (ct_Requests c)),
                         qo_Add Q cl (qo_Cpu Q (ct_Limits c)), qo_Add Q ml (qo_Memory Q (ct_Limits c))))
                      s (pd_Containers pod))
          (qo_zero Q, qo_zero Q, qo_zero Q, qo_zero Q) pods
      in ([(ResourceCPU, cr), (ResourceMemory, mr)], [(ResourceCPU, cl), (ResourceMemory, ml)]))"

definition getAllocatableMinusRequests ::
  "('q, 'd) quantity_ops \<Rightarrow> 'q resourceList \<Rightarrow> 'q resourceList \<Rightarrow> (string, 'q) gomap" where
  "getAllocatableMinusRequests Q allocatable requests =
     [(ResourceCPU, qo_Sub Q (qo_Cpu Q allocatable) (qo_Cpu Q requests)),
      (ResourceMemory, qo_Sub Q (qo_Memory Q allocatable) (qo_Memory Q requests))]"

definition GetValuesForNode ::
  "('q, 'd) quantity_ops \<Rightarrow> 'q node \<Rightarrow> 'q pod list \<Rightarrow> (source, 'q sourceValue) gomap" where
  "GetValuesForNode Q node pods =
     (let (requests, limits) = getNodeRequestsLimits Q pods in
      [(''node_allocatable'', list_value (nd_Allocatable node) NodeLevel ''node_allocatable''),
       (''node_capacity'', list_value (nd_Capacity node) NamespaceLevel ''node_capacity''),
       (''node'', items_value Q NodeLevel ''node''),
       (''node_requests'', list_value (Some requests) NodeLevel ''node_requests''),
       (''node_limits'', list_value (Some limits) NodeLevel ''node_limits''),
       (''node_allocatable_minus_requests'',
          list_value (Some (getAllocatableMinusRequests Q (nd_Allocatable node) (Some requests))) NodeLevel
            ''node_allocatable_minus_requests'')])"

definition GetValuesForPVC :: "('q, 'd) quantity_ops \<Rightarrow> 'q persistentVolumeClaim \<Rightarrow> (source, 'q sourceValue) gomap" where
  "GetValuesForPVC Q pvc =
     [(''pvc_requests_allocated'', list_value (pvc_Requests pvc) PVCLevel ''pvc_requests_allocated''),
      (''pvc_limits_allocated'', list_value (pvc_Limits pvc) PVCLevel ''pvc_limits_allocated''),
      (''pvc_capacity'', list_value (pvc_Capacity pvc) PVCLevel ''pvc_capacity''),
      (''pvc'', items_value Q PVCLevel ''pvc'')]"

definition GetValuesForPV :: "('q, 'd) quantity_ops \<Rightarrow> 'q persistentVolume \<Rightarrow> (source, 'q sourceValue) gomap" where
  "GetValuesForPV Q pv =
     [(''pv_capacity'', list_value (pv_Capacity pv) PVLevel ''pvc_capacity''),
      (''pv'', items_value Q PVLevel ''pv'')]"

section \<open>Workloads\<close>

definition getAPIGroupVersion :: "string \<Rightarrow> string \<times> string" where
  "getAPIGroupVersion apiVersion =
     (let api = SplitChar (CHR ''/'') apiVersion in
      if length api < 2 then (''core'', api ! 0)
      else (ToLower (ReplaceChar (CHR ''.'') ''_'' (api ! 0)), ToLower (ReplaceChar (CHR ''.'') ''_'' (api ! 1))))"

definition annotated_workload :: "strmap \<Rightarrow> workload option" where
  "annotated_workload anns =
     (case map_of anns ''workload-name'' of
        None \<Rightarrow> None
      | Some name \<Rightarrow> Some \<lparr>wl_Name = name, wl_Kind = sget anns ''workload-kind'',
                            wl_APIGroup = sget anns ''workload-api-group'', wl_APIVersion = sget anns ''workload-api-version''\<rparr>)"

definition owner_workload :: "ownerReference \<Rightarrow> string \<times> string \<Rightarrow> workload" where
  "owner_workload ow gv =
     \<lparr>wl_Name = ToLower (or_Name ow), wl_Kind = ToLower (or_Kind ow), wl_APIGroup = fst gv, wl_APIVersion = snd gv\<rparr>"

definition is_controller :: "ownerReference \<Rightarrow> bool" where
  "is_controller ow \<longleftrightarrow> or_Controller ow = Some True"

text \<open>
  The client's \<^verbatim>\<open>Get\<close> is an argument: it returns whether it succeeded and the metadata of the object, which is
  the empty object where nothing was read.
\<close>

type_synonym kget = "string \<Rightarrow> string \<Rightarrow> string \<Rightarrow> bool \<times> objectMeta"

definition getWorkloadFor :: "kget \<Rightarrow> ownerReference \<Rightarrow> objectMeta \<Rightarrow> string \<Rightarrow> workload" where
  "getWorkloadFor get ow obj kind =
     (let (ok, rs) = get kind (om_Namespace obj) (or_Name ow) in
      case annotated_workload (om_Annotations rs) of
        Some w \<Rightarrow> w
      | None \<Rightarrow>
         (let gv = getAPIGroupVersion (or_APIVersion ow) in
          if \<not> ok then owner_workload ow gv
          else case find is_controller (om_OwnerReferences rs) of
                 Some ow' \<Rightarrow> owner_workload ow' gv
               | None \<Rightarrow> owner_workload ow gv))"

definition getWorkloadForPod :: "kget \<Rightarrow> 'q pod \<Rightarrow> workload" where
  "getWorkloadForPod get pod =
     (case annotated_workload (om_Annotations (pd_Meta pod)) of
        Some w \<Rightarrow> w
      | None \<Rightarrow>
         (case find is_controller (om_OwnerReferences (pd_Meta pod)) of
            Some ow \<Rightarrow>
              if or_Kind ow = ''ReplicaSet'' then getWorkloadFor get ow (pd_Meta pod) ''ReplicaSet''
              else if or_Kind ow = ''Job'' then getWorkloadFor get ow (pd_Meta pod) ''Job''
              else owner_workload ow (getAPIGroupVersion (or_APIVersion ow))
          | None \<Rightarrow> \<lparr>wl_Name = om_Name (pd_Meta pod), wl_Kind = ''pod'', wl_APIGroup = ''core'', wl_APIVersion = ''v1''\<rparr>))"

section \<open>Samples of completed pods\<close>

lemma strip_zeros_spec:
  assumes "n \<le> length usage"
  shows "strip_zeros usage n \<le> n"
    and "strip_zeros usage n \<le> i \<Longrightarrow> i < n \<Longrightarrow> usage ! i = 0"
    and "strip_zeros usage n \<noteq> 0 \<Longrightarrow> usage ! (strip_zeros usage n - 1) \<noteq> 0"
  using assms by (induction n) (auto simp: less_Suc_eq le_Suc_eq split: if_splits)

lemma map_nth_upt: "n \<le> length xs \<Longrightarrow> map (\<lambda>i. xs ! i) [0..<n] = take n xs"
  by (rule nth_equalityI) simp_all

lemma reported_samples_running: "\<not> pod_completed pod \<Longrightarrow> reported_samples pod usage = usage"
  by (simp add: reported_samples_def map_nth)

lemma reported_samples_completed:
  assumes "pod_completed pod"
  shows "\<exists>k. usage = reported_samples pod usage @ replicate k 0"
    and "reported_samples pod usage \<noteq> [] \<Longrightarrow> last (reported_samples pod usage) \<noteq> 0"
proof -
  let ?n = "strip_zeros usage (length usage)"
  have n: "?n \<le> length usage" by (rule strip_zeros_spec(1)) simp
  have r: "reported_samples pod usage = take ?n usage"
    using assms by (simp add: reported_samples_def map_nth_upt n)
  have "drop ?n usage = replicate (length usage - ?n) 0"
    using n by (intro nth_equalityI) (simp_all add: strip_zeros_spec(2) [of "length usage"])
  then have "usage = reported_samples pod usage @ replicate (length usage - ?n) 0"
    by (metis append_take_drop_id r)
  then show "\<exists>k. usage = reported_samples pod usage @ replicate k 0" by blast
  assume "reported_samples pod usage \<noteq> []"
  with n have "?n \<noteq> 0" by (auto simp: r)
  with n strip_zeros_spec(3) [of "length usage" usage] show "last (reported_samples pod usage) \<noteq> 0"
    by (subst r, subst last_conv_nth) (auto simp: min_def)
qed

section \<open>Lookups in the quota lists\<close>

lemma TrimPrefix_eq: "HasPrefix k p \<Longrightarrow> TrimPrefix k p = k' \<longleftrightarrow> k = p @ k'"
  by (auto simp: HasPrefix_iff)

lemma TrimPrefix_join: "HasPrefix k p \<Longrightarrow> p @ TrimPrefix k p = k"
  by (auto simp: HasPrefix_iff)

lemma map_of_rev_wf: "gomap_wf m \<Longrightarrow> map_of (rev m) = map_of m"
  by (intro map_of_inject_set [THEN iffD2]) (auto simp: gomap_wf_def rev_map [symmetric])

lemma not_requests_and_limits: "HasPrefix k ''requests.'' \<Longrightarrow> \<not> HasPrefix k ''limits.''"
  by (auto simp: HasPrefix_iff)

definition split_step ::
  "string \<Rightarrow> string \<Rightarrow> (string, 'q) gomap \<times> (string, 'q) gomap \<Rightarrow> string \<times> 'q \<Rightarrow> (string, 'q) gomap \<times> (string, 'q) gomap" where
  "split_step p q = (\<lambda>(requests, limits) (k, v).
        if HasPrefix k p then (AList.update (TrimPrefix k p) v requests, limits)
        else if HasPrefix k q then (requests, AList.update (TrimPrefix k q) v limits)
        else (requests, limits))"

lemma split_step_1:
  "map_of (fst (split_step p q s (key, v))) k = (if key = p @ k then Some v else map_of (fst s) k)"
  by (cases s; cases "HasPrefix key p")
    (auto simp: split_step_def TrimPrefix_eq TrimPrefix_join HasPrefix_append)

lemma split_step_2:
  assumes "\<And>t. HasPrefix t p \<Longrightarrow> \<not> HasPrefix t q"
  shows "map_of (snd (split_step p q s (key, v))) k = (if key = q @ k then Some v else map_of (snd s) k)"
  using assms [of key]
  by (cases s; cases "HasPrefix key q")
    (auto simp: split_step_def TrimPrefix_eq TrimPrefix_join HasPrefix_append)

lemma split_step_lookup:
  assumes "\<And>t. HasPrefix t p \<Longrightarrow> \<not> HasPrefix t q"
  shows "map_of (fst (foldl (split_step p q) s xs)) k =
     (case map_of (rev xs) (p @ k) of None \<Rightarrow> map_of (fst s) k | Some v \<Rightarrow> Some v)"
    and "map_of (snd (foldl (split_step p q) s xs)) k =
     (case map_of (rev xs) (q @ k) of None \<Rightarrow> map_of (snd s) k | Some v \<Rightarrow> Some v)"
  by (induction xs arbitrary: s)
    (auto simp: split_step_1 split_step_2 [OF assms] map_add_def split: option.split)

lemma splitRequestsLimitsQuota_split_step:
  "splitRequestsLimitsQuota input = foldl (split_step ''requests.'' ''limits.'') ([], []) (rl_items input)"
  by (simp only: splitRequestsLimitsQuota_def split_step_def)

lemma splitRequestsLimitsQuota_lookup:
  assumes "gomap_wf (rl_items input)"
  shows "map_of (fst (splitRequestsLimitsQuota input)) k = map_of (rl_items input) (''requests.'' @ k)"
    and "map_of (snd (splitRequestsLimitsQuota input)) k = map_of (rl_items input) (''limits.'' @ k)"
proof -
  have none: "(case m of None \<Rightarrow> map_of (fst ([], [])) k | Some v \<Rightarrow> Some v) = m"
    "(case m of None \<Rightarrow> map_of (snd ([], [])) k | Some v \<Rightarrow> Some v) = m" for m :: "'a option"
    by (cases m; simp)+
  show "map_of (fst (splitRequestsLimitsQuota input)) k = map_of (rl_items input) (''requests.'' @ k)"
    unfolding splitRequestsLimitsQuota_split_step
    by (subst split_step_lookup(1) [OF not_requests_and_limits]) (assumption, simp only: map_of_rev_wf [OF assms] none)
  show "map_of (snd (splitRequestsLimitsQuota input)) k = map_of (rl_items input) (''limits.'' @ k)"
    unfolding splitRequestsLimitsQuota_split_step
    by (subst split_step_lookup(2) [OF not_requests_and_limits]) (assumption, simp only: map_of_rev_wf [OF assms] none)
qed

lemma gomap_wf_split:
  "gomap_wf (fst s) \<Longrightarrow> gomap_wf (snd s) \<Longrightarrow>
   gomap_wf (fst (foldl (split_step p q) s xs)) \<and> gomap_wf (snd (foldl (split_step p q) s xs))"
  by (induction xs arbitrary: s) (auto simp: split_step_def split: prod.splits)

lemma gomap_wf_splitRequestsLimitsQuota:
  "gomap_wf (fst (splitRequestsLimitsQuota input))" "gomap_wf (snd (splitRequestsLimitsQuota input))"
  unfolding splitRequestsLimitsQuota_split_step
  using gomap_wf_split [of "([], [])" "''requests.''" "''limits.''" "rl_items input"] by (simp_all only: fst_conv snd_conv gomap_wf_Nil simp_thms)

lemma subLists_lookup:
  assumes "gomap_wf (rl_items a)"
  shows "map_of (subLists Q a b) k =
    (case (map_of (rl_items a) k, map_of (rl_items b) k) of (Some x, Some y) \<Rightarrow> Some (qo_Sub Q x y) | _ \<Rightarrow> None)"
proof -
  have "map_of (foldl (\<lambda>result (k, vA). case map_of (rl_items b) k of
                               None \<Rightarrow> result
                             | Some vB \<Rightarrow> AList.update k (qo_Sub Q vA vB) result) r xs) k =
    (case (map_of xs k, map_of (rl_items b) k) of (Some x, Some y) \<Rightarrow> Some (qo_Sub Q x y) | _ \<Rightarrow> map_of r k)"
    if "gomap_wf xs" for r xs
    using that
  proof (induction xs arbitrary: r)
    case (Cons x xs)
    obtain k' v where x: "x = (k', v)" by (cases x)
    have "k' \<notin> fst ` set xs" using Cons.prems by (simp add: x gomap_wf_def)
    then have "map_of xs k' = None" by (simp add: map_of_eq_None_iff)
    with Cons show ?case
      by (cases "map_of (rl_items b) k'"; cases "k = k'") (simp_all add: x gomap_wf_def split: option.split)
  qed (simp split: option.split)
  from this [OF assms] show ?thesis unfolding subLists_def by (simp split: option.split)
qed

section \<open>Sums over the containers of a node\<close>

definition running_containers :: "'q pod list \<Rightarrow> 'q container list" where
  "running_containers pods = concat (map pd_Containers (filter (\<lambda>p. \<not> pod_completed p) pods))"

lemma getNodeRequestsLimits_running:
  fixes Q :: "('q, 'd) quantity_ops"
  shows "getNodeRequestsLimits Q pods =
     (let tot = (\<lambda>f. foldl (\<lambda>s c. qo_Add Q s (f c)) (qo_zero Q) (running_containers pods)) in
      ([(ResourceCPU, tot (\<lambda>c. qo_Cpu Q (ct_Requests c))), (ResourceMemory, tot (\<lambda>c. qo_Memory Q (ct_Requests c)))],
       [(ResourceCPU, tot (\<lambda>c. qo_Cpu Q (ct_Limits c))), (ResourceMemory, tot (\<lambda>c. qo_Memory Q (ct_Limits c)))]))"
proof -
  let ?g = "\<lambda>(cr, mr, cl, ml) (c :: 'q container).
              (qo_Add Q cr (qo_Cpu Q (ct_Requests c)), qo_Add Q mr (qo_Memory Q (ct_Requests c)),
               qo_Add Q cl (qo_Cpu Q (ct_Limits c)), qo_Add Q ml (qo_Memory Q (ct_Limits c)))"
  have pods: "foldl (\<lambda>s pod. if pod_completed pod then s else foldl ?g s (pd_Containers pod)) s pods
          = foldl ?g s (running_containers pods)" for s
    by (induction pods arbitrary: s) (simp_all add: running_containers_def)
  have "foldl ?g (a, b, c, d) cs =
     (foldl (\<lambda>s c. qo_Add Q s (qo_Cpu Q (ct_Requests c))) a cs, foldl (\<lambda>s c. qo_Add Q s (qo_Memory Q (ct_Requests c))) b cs,
      foldl (\<lambda>s c. qo_Add Q s (qo_Cpu Q (ct_Limits c))) c cs, foldl (\<lambda>s c. qo_Add Q s (qo_Memory Q (ct_Limits c))) d cs)"
    for a b c d and cs :: "'q container list" by (induction cs arbitrary: a b c d) simp_all
  with pods show ?thesis by (simp add: getNodeRequestsLimits_def Let_def)
qed

definition named_val :: "('q \<Rightarrow> rat) \<Rightarrow> 'q resourceList \<Rightarrow> string \<Rightarrow> rat" where
  "named_val val rl k = (case map_of (rl_items rl) k of None \<Rightarrow> 0 | Some q \<Rightarrow> val q)"

context quantity
begin

lemma val_total: "val (foldl (\<lambda>s c. qo_Add Q s (f c)) z cs) = val z + (\<Sum>c\<leftarrow>cs. val (f c))"
  by (induction cs arbitrary: z) (simp_all add: val_Add)

lemma named_Cpu: "val (qo_Cpu Q rl) = named_val val rl ResourceCPU"
  by (simp add: named_val_def val_Cpu ResourceCPU_def split: option.split)

lemma named_Memory: "val (qo_Memory Q rl) = named_val val rl ResourceMemory"
  by (simp add: named_val_def val_Memory ResourceMemory_def split: option.split)

lemma node_requests:
  assumes "r = ResourceCPU \<or> r = ResourceMemory"
  shows "named_val val (Some (fst (getNodeRequestsLimits Q pods))) r = (\<Sum>c\<leftarrow>running_containers pods. named_val val (ct_Requests c) r)"
    and "named_val val (Some (snd (getNodeRequestsLimits Q pods))) r = (\<Sum>c\<leftarrow>running_containers pods. named_val val (ct_Limits c) r)"
    and "named_val val (Some (getAllocatableMinusRequests Q rl rq)) r = named_val val rl r - named_val val rq r"
proof -
  have ne: "ResourceCPU \<noteq> ResourceMemory" by (simp add: ResourceCPU_def ResourceMemory_def)
  note d = getNodeRequestsLimits_running getAllocatableMinusRequests_def Let_def
  show "named_val val (Some (fst (getNodeRequestsLimits Q pods))) r = (\<Sum>c\<leftarrow>running_containers pods. named_val val (ct_Requests c) r)"
    "named_val val (Some (snd (getNodeRequestsLimits Q pods))) r = (\<Sum>c\<leftarrow>running_containers pods. named_val val (ct_Limits c) r)"
    "named_val val (Some (getAllocatableMinusRequests Q rl rq)) r = named_val val rl r - named_val val rq r"
    using assms ne
    by (auto simp: d named_val_def [of val "Some x" for x] val_total val_zero val_Sub named_Cpu named_Memory)
qed

end

section \<open>Properties\<close>

text \<open>
  C21. The node values: for CPU and for memory, the requests and the limits of a node are the sums over the
  containers of its pods that have not completed, and the allocatable-minus-requests value is what the node
  declares allocatable less that sum. A resource that is not in a list counts as zero.
\<close>

theorem node_requests_sum_running_pods:
  assumes "quantity Q val dval" "r = ResourceCPU \<or> r = ResourceMemory"
  shows "\<exists>rq lm am. map_of (GetValuesForNode Q node pods) ''node_requests'' = Some rq
     \<and> map_of (GetValuesForNode Q node pods) ''node_limits'' = Some lm
     \<and> map_of (GetValuesForNode Q node pods) ''node_allocatable_minus_requests'' = Some am
     \<and> named_val val (vl_ResourceList rq) r = (\<Sum>c\<leftarrow>running_containers pods. named_val val (ct_Requests c) r)
     \<and> named_val val (vl_ResourceList lm) r = (\<Sum>c\<leftarrow>running_containers pods. named_val val (ct_Limits c) r)
     \<and> named_val val (vl_ResourceList am) r
        = named_val val (nd_Allocatable node) r - (\<Sum>c\<leftarrow>running_containers pods. named_val val (ct_Requests c) r)"
  using quantity.node_requests [OF assms]
  by (simp add: GetValuesForNode_def case_prod_unfold Let_def list_value_def)

definition ex_node :: "decimal node" where
  "ex_node = \<lparr>nd_Meta = pd_Meta (ex_pod ''n'' [] :: decimal pod), nd_Unschedulable = False, nd_Taints = [],
     nd_Allocatable = Some [(''cpu'', dec 8 0)], nd_Capacity = None, nd_Conditions = []\<rparr>"

definition ex_container :: "decimal container" where
  "ex_container = \<lparr>ct_Name = ''c'', ct_Image = ''i'', ct_Requests = Some [(''cpu'', dec 15 1)], ct_Limits = None\<rparr>"

theorem node_requests_sum_running_pods_witness:
  "\<exists>am. map_of (GetValuesForNode decimal_ops ex_node
        [(ex_pod ''p'' [])\<lparr>pd_Containers := [ex_container, ex_container]\<rparr>,
         (ex_pod ''q'' [])\<lparr>pd_Containers := [ex_container], pd_Phase := ''Failed''\<rparr>]) ''node_allocatable_minus_requests'' = Some am
     \<and> named_val dec_val (vl_ResourceList am) ResourceCPU = 5"
  using node_requests_sum_running_pods [OF dq.quantity_axioms, of ResourceCPU ex_node
      "[(ex_pod ''p'' [])\<lparr>pd_Containers := [ex_container, ex_container]\<rparr>,
        (ex_pod ''q'' [])\<lparr>pd_Containers := [ex_container], pd_Phase := ''Failed''\<rparr>]"]
  by (auto simp: running_containers_def pod_completed_def PodSucceeded_def PodFailed_def ex_pod_def ex_container_def
      ex_node_def named_val_def ResourceCPU_def dec_val_def dec_def power_int_minus)

text \<open>
  C22. Hard minus used: under each of the two sources the value for a resource is the difference of the two
  quota entries with the prefix of that source, and it is there exactly when the quota lists the resource
  both in its hard limits and in its usage; entries of the other kind never leak in.
\<close>

theorem quota_hard_minus_used:
  assumes "quantity Q val dval" "gomap_wf (rl_items (rq_Hard quota))" "gomap_wf (rl_items (rq_Used quota))"
    and "(src, pfx) \<in> {(''requests_quota_hard_minus_used'', ''requests.''), (''limits_quota_hard_minus_used'', ''limits.'')}"
  shows "\<exists>v. map_of (GetValuesForQuota Q unmarshal quota rqd enableRqd) src = Some v
     \<and> map_option val (map_of (rl_items (vl_ResourceList v)) r)
       = (case (map_of (rl_items (rq_Hard quota)) (pfx @ r), map_of (rl_items (rq_Used quota)) (pfx @ r)) of
            (Some h, Some u) \<Rightarrow> Some (val h - val u) | _ \<Rightarrow> None)"
proof -
  obtain rh lh where h: "splitRequestsLimitsQuota (rq_Hard quota) = (rh, lh)" by fastforce
  obtain ru lu where u: "splitRequestsLimitsQuota (rq_Used quota) = (ru, lu)" by fastforce
  note look = splitRequestsLimitsQuota_lookup [OF assms(2), of r, unfolded h fst_conv snd_conv]
    splitRequestsLimitsQuota_lookup [OF assms(3), of r, unfolded u fst_conv snd_conv]
  note wf = gomap_wf_splitRequestsLimitsQuota [of "rq_Hard quota", unfolded h fst_conv snd_conv]
  note sub = quantity.val_Sub [OF assms(1)] subLists_lookup rl_items_simps wf
  consider "src = ''requests_quota_hard_minus_used''" "pfx = ''requests.''"
    | "src = ''limits_quota_hard_minus_used''" "pfx = ''limits.''" using assms(4) by blast
  then show ?thesis
  proof cases
    case 1
    have "map_of (GetValuesForQuota Q unmarshal quota rqd enableRqd) src
      = Some (list_value (Some (subLists Q (Some rh) (Some ru))) NamespaceLevel ''requests_quota_hard'')"
      by (simp add: 1 GetValuesForQuota_def h u Let_def case_prod_unfold)
    then show ?thesis unfolding 1(2) look [symmetric] by (simp add: list_value_def sub split: option.split)
  next
    case 2
    have "map_of (GetValuesForQuota Q unmarshal quota rqd enableRqd) src
      = Some (list_value (Some (subLists Q (Some lh) (Some lu))) NamespaceLevel ''limits_quota_hard'')"
      by (simp add: 2 GetValuesForQuota_def h u Let_def case_prod_unfold)
    then show ?thesis unfolding 2(2) look [symmetric] by (simp add: list_value_def sub split: option.split)
  qed
qed

definition ex_quota :: "decimal resourceQuota" where
  "ex_quota = \<lparr>rq_Meta = pd_Meta (ex_pod ''rq'' [] :: decimal pod), rq_ScopeSelector = None, rq_SpecHard = None,
     rq_Hard = Some [(''requests.cpu'', dec 10 0), (''limits.cpu'', dec 20 0)],
     rq_Used = Some [(''requests.cpu'', dec 3 0), (''limits.memory'', dec 1 0)]\<rparr>"

theorem quota_hard_minus_used_witness:
  "\<exists>v. map_of (GetValuesForQuota decimal_ops (\<lambda>_. None) ex_quota None True) ''requests_quota_hard_minus_used'' = Some v
     \<and> map_option dec_val (map_of (rl_items (vl_ResourceList v)) ''cpu'') = Some 7"
proof -
  have "gomap_wf (rl_items (rq_Hard ex_quota))" "gomap_wf (rl_items (rq_Used ex_quota))"
    by (simp_all add: ex_quota_def gomap_wf_def)
  from quota_hard_minus_used [OF dq.quantity_axioms this, of "''requests_quota_hard_minus_used''" "''requests.''" "\<lambda>_. None" None True "''cpu''"]
  show ?thesis by (auto simp: ex_quota_def dec_val_dec)
qed

lemma map_of_foldl_update_other:
  "k \<notin> set rs \<Longrightarrow> map_of (foldl (\<lambda>u r. if g r = [] then u else AList.update r (h r) u) m rs) k = map_of m k"
  by (induction rs arbitrary: m) simp_all

lemma utilization_lists_lookup:
  assumes "(r, samples, f) \<in> {(ResourceCPU, us_CpuCoresNanoSec u, \<lambda>v. qo_NewScaledQuantity Q v Nano),
                                (ResourceMemory, us_MemoryBytes u, qo_NewQuantity Q)}"
    and "utilization_lists Q pod rl u = (ul, dl)"
  shows "map_of ul r = (if reported_samples pod samples = [] then None else Some (map f (reported_samples pod samples)))"
    and "map_of dl r = (if reported_samples pod samples = [] then None
           else Some (map (\<lambda>v. qo_Sub Q (gget (qo_zero Q) (rl_items rl) r) (f v)) (reported_samples pod samples)))"
proof -
  have nin: "ResourceCPU \<notin> set NetworkResources" "ResourceMemory \<notin> set NetworkResources" "ResourceCPU \<noteq> ResourceMemory"
    by (simp_all add: ResourceCPU_def ResourceMemory_def NetworkResources_def)
  show "map_of ul r = (if reported_samples pod samples = [] then None else Some (map f (reported_samples pod samples)))"
    "map_of dl r = (if reported_samples pod samples = [] then None
           else Some (map (\<lambda>v. qo_Sub Q (gget (qo_zero Q) (rl_items rl) r) (f v)) (reported_samples pod samples)))"
    using assms nin by (auto simp: utilization_lists_def Let_def map_of_foldl_update_other comp_def)
qed

lemma GetValuesForContainer_utilization:
  assumes "us_CpuCoresNanoSec u \<noteq> []" "us_MemoryBytes u \<noteq> []"
    and "utilization_lists Q pod (if pod_completed pod then None else ct_Requests c) u = (ul, dl)"
  shows "map_of (GetValuesForContainer Q c pod (Some u)) ''utilization'' = Some (multi_value ul ''utilization'')"
    and "map_of (GetValuesForContainer Q c pod (Some u)) ''requests_allocated_minus_utilization''
       = Some (multi_value dl ''requests_allocated_minus_utilization'')"
  using assms by (simp_all add: GetValuesForContainer_def Let_def list_value_def items_value_def split: if_splits)

text \<open>
  C20. Utilization of a container: the CPU (and the memory) samples reported are those of the sampler with
  nothing dropped while the pod runs; for a completed pod exactly the trailing zeros are dropped, and the
  resource is left out when nothing remains. Requests minus utilization has one entry per reported sample,
  the request less that sample, where a completed pod has no request.
\<close>

theorem container_utilization_samples:
  assumes "quantity Q val dval" "us_CpuCoresNanoSec u \<noteq> []" "us_MemoryBytes u \<noteq> []"
    and "(r, samples, unit) \<in> {(ResourceCPU, us_CpuCoresNanoSec u, 1 / 10 ^ 9), (ResourceMemory, us_MemoryBytes u, 1)}"
  shows "\<exists>vs k ul dl.
     map_of (GetValuesForContainer Q c pod (Some u)) ''utilization'' = Some (multi_value ul ''utilization'')
     \<and> map_of (GetValuesForContainer Q c pod (Some u)) ''requests_allocated_minus_utilization''
         = Some (multi_value dl ''requests_allocated_minus_utilization'')
     \<and> samples = vs @ replicate k 0
     \<and> (if pod_completed pod then vs = [] \<or> last vs \<noteq> 0 else k = 0)
     \<and> map_option (map val) (map_of ul r) = (if vs = [] then None else Some (map (\<lambda>s. of_int s * unit) vs))
     \<and> map_option (map val) (map_of dl r) = (if vs = [] then None
         else Some (map (\<lambda>s. (if pod_completed pod then 0 else named_val val (ct_Requests c) r) - of_int s * unit) vs))"
proof -
  obtain ul dl where l: "utilization_lists Q pod (if pod_completed pod then None else ct_Requests c) u = (ul, dl)" by fastforce
  let ?f = "if r = ResourceCPU then \<lambda>v. qo_NewScaledQuantity Q v Nano else qo_NewQuantity Q"
  have ne: "ResourceCPU \<noteq> ResourceMemory" by (simp add: ResourceCPU_def ResourceMemory_def)
  have f: "val (?f s) = of_int s * unit" for s
    using assms(4) ne quantity.val_simps(2,3) [OF assms(1)] by (auto simp: Nano_def power_int_minus)
  have "(r, samples, ?f) \<in> {(ResourceCPU, us_CpuCoresNanoSec u, \<lambda>v. qo_NewScaledQuantity Q v Nano),
                                (ResourceMemory, us_MemoryBytes u, qo_NewQuantity Q)}"
    using assms(4) ne by auto
  note look = utilization_lists_lookup [OF this l]
  have req: "val (gget (qo_zero Q) (rl_items (if pod_completed pod then None else ct_Requests c)) r)
    = (if pod_completed pod then 0 else named_val val (ct_Requests c) r)"
    by (simp add: gget_def named_val_def quantity.val_zero [OF assms(1)] split: option.split)
  obtain k where vs: "samples = reported_samples pod samples @ replicate k 0"
      "if pod_completed pod then reported_samples pod samples = [] \<or> last (reported_samples pod samples) \<noteq> 0 else k = 0"
    using reported_samples_completed [of pod samples] reported_samples_running [of pod samples]
    by (cases "pod_completed pod") auto
  note val = f req quantity.val_Sub [OF assms(1)]
  have "map_option (map val) (map_of ul r)
      = (if reported_samples pod samples = [] then None else Some (map (\<lambda>s. of_int s * unit) (reported_samples pod samples)))"
    by (simp only: look(1) if_distrib [of "map_option _"] option.map list.map_comp comp_def val)
  moreover have "map_option (map val) (map_of dl r) = (if reported_samples pod samples = [] then None
      else Some (map (\<lambda>s. (if pod_completed pod then 0 else named_val val (ct_Requests c) r) - of_int s * unit) (reported_samples pod samples)))"
    by (simp only: look(2) if_distrib [of "map_option _"] option.map list.map_comp comp_def val)
  ultimately show ?thesis using vs GetValuesForContainer_utilization [OF assms(2,3) l] by blast
qed

definition ex_usage :: containerMetrics where
  "ex_usage = \<lparr>us_ContainerID = ''id'', us_ContainerName = ''c'', us_PodName = ''p'', us_NamespaceName = ''ns'', us_PodUID = ''u'', us_NodeName = ''n'',
     us_CpuCoresNanoSec = [10 ^ 9, 0, 5 * 10 ^ 8, 0, 0], us_CpuThrottledNanoSec = [], us_CpuPercentPeriodsThrottled = [],
     us_MemoryBytes = [7, 7, 0], us_CpuPeriodsSec = [], us_CpuThrottledPeriodsSec = [], us_OomKillCount = 0, us_OomCount = 0,
     us_AvgCPUCoresNanoSec = 0, us_AvgCPUThrottledNanoSec = 0,
     us_AvgCPUPercentPeriodsThrottled = Fin 0, us_AvgMemoryBytes = 0, us_AvgCPUPeriodsSec = 0, us_AvgCPUThrottledPeriodsSec = 0,
     us_Network = []\<rparr>"

theorem container_utilization_samples_witness:
  "\<exists>ul. map_of (GetValuesForContainer decimal_ops ex_container ((ex_pod ''p'' [])\<lparr>pd_Phase := ''Succeeded''\<rparr>) (Some ex_usage))
          ''utilization'' = Some (multi_value ul ''utilization'')
     \<and> map_option (map dec_val) (map_of ul ''memory'') = Some [7, 7]"
proof -
  let ?p = "(ex_pod ''p'' [])\<lparr>pd_Phase := ''Succeeded''\<rparr> :: decimal pod"
  have ne: "us_CpuCoresNanoSec ex_usage \<noteq> []" "us_MemoryBytes ex_usage \<noteq> []" by (simp_all add: ex_usage_def)
  have c: "pod_completed ?p" by (simp add: pod_completed_def PodSucceeded_def)
  obtain vs k ul where *: "us_MemoryBytes ex_usage = vs @ replicate k 0" "vs = [] \<or> last vs \<noteq> 0"
    "map_of (GetValuesForContainer decimal_ops ex_container ?p (Some ex_usage)) ''utilization'' = Some (multi_value ul ''utilization'')"
    "map_option (map dec_val) (map_of ul ResourceMemory) = (if vs = [] then None else Some (map of_int vs))"
    using container_utilization_samples [OF dq.quantity_axioms ne insertI2 [OF insertI1], of ex_container ?p] c
    by (simp only: if_True mult_1_right) blast
  have "vs = [7, 7]"
  proof (cases k)
    case 0
    with *(1,2) show ?thesis by (auto simp: ex_usage_def)
  next
    case (Suc j)
    with *(1) have "vs @ replicate j 0 @ [0] = [7, 7] @ [0]" by (simp add: ex_usage_def replicate_append_same)
    then have "vs @ replicate j 0 = [7, 7]" unfolding append_assoc [symmetric] append1_eq_conv by simp
    then show ?thesis by (cases j rule: nat.exhaust) (auto simp: replicate_append_same [symmetric] simp flip: append_assoc)
  qed
  with *(3,4) show ?thesis by (auto simp: ResourceMemory_def)
qed

lemma int64_wrap_small:
  assumes "\<bar>x\<bar> < 2 ^ 63"
  shows "int64_wrap x = x"
proof -
  have "- (2 ^ 63) \<le> x" "x < 2 ^ 63" using assms by linarith+
  then show ?thesis by (simp add: int64_wrap_def int_word_sint)
qed

lemma minutes_small:
  assumes "unat m \<le> 10 ^ 8"
  shows "minutes m = int (unat m) * Minute"
proof -
  have "int (unat m) \<le> int (10 ^ 8)" using assms by (simp only: of_nat_le_iff)
  then have "int (unat m) * Minute \<le> 10 ^ 8 * (60 * 10 ^ 9)"
    unfolding Minute_def by (intro mult_right_mono) (simp_all only: of_nat_power of_nat_numeral, simp)
  then have "\<bar>int (unat m) * Minute\<bar> < 2 ^ 63" by (simp add: Minute_def)
  moreover have "unat m < 2 ^ 63" using assms by (rule le_less_trans) simp
  ultimately show ?thesis by (simp add: minutes_def int64_of_small int64_wrap_small)
qed

text \<open>
  The scheduling wait of a pod that is not on a node yet is reported exactly while its age is above the
  configured minimum and not above the configured maximum (in minutes, small enough not to overflow a
  duration), and what is reported is its age in seconds, short of it by less than a millisecond.
\<close>

theorem pending_pod_schedule_wait:
  assumes "quantity Q val dval" "pd_NodeName pod = ''''"
    and "t = om_CreationTimestamp (pd_Meta pod)" "t \<noteq> 0" "\<bar>now - t\<bar> < 2 ^ 63"
    and "unat (sh_MinPodAgeMinutes s) \<le> 10 ^ 8" "unat (sh_MaxPodAgeMinutes s) \<le> 10 ^ 8"
  shows "if now - t > int (unat (sh_MinPodAgeMinutes s)) * 60 * 10 ^ 9 \<and> now - t \<le> int (unat (sh_MaxPodAgeMinutes s)) * 60 * 10 ^ 9
     then \<exists>q. GetValuesForSchedulerHealth Q now pod (Some s)
                 = [(''pod_schedule_wait'', list_value (Some [(ResourceTime, q)]) PodLevel ''pod_schedule_wait'')]
            \<and> val q \<le> of_int (now - t) / 10 ^ 9 \<and> of_int (now - t) / 10 ^ 9 < val q + 1 / 1000
     else GetValuesForSchedulerHealth Q now pod (Some s) = []"
proof -
  let ?a = "now - t" and ?q = "qo_NewMilliQuantity Q (Milliseconds (now - t))"
  have sub: "time_sub now t = ?a" using assms(5) by (rule time_sub_exact)
  have eq: "GetValuesForSchedulerHealth Q now pod (Some s) =
     (if ?a > minutes (sh_MinPodAgeMinutes s) \<and> ?a \<le> minutes (sh_MaxPodAgeMinutes s) \<and> ?a \<noteq> 0
      then [(''pod_schedule_wait'', list_value (Some [(ResourceTime, ?q)]) PodLevel ''pod_schedule_wait'')] else [])"
    using assms(2-4) by (simp add: GetValuesForSchedulerHealth_def IsZero_def Let_def sub flip: assms(3))
  have val: "val ?q \<le> of_int ?a / 10 ^ 9 \<and> of_int ?a / 10 ^ 9 < val ?q + 1 / 1000" if "?a > 0"
  proof -
    have "val ?q = of_int (?a div 10 ^ 6) / 1000"
      using that by (simp add: quantity.val_NewMilliQuantity [OF assms(1)] Milliseconds_def)
    moreover have "(?a div 10 ^ 6) * 10 ^ 6 \<le> ?a" "?a < (?a div 10 ^ 6 + 1) * 10 ^ 6"
      by (simp_all only: power_numeral Num.pow.simps Num.sqr.simps, simp_all)
    then have "of_int ((?a div 10 ^ 6) * 10 ^ 6) \<le> (of_int ?a :: rat)" "(of_int ?a :: rat) < of_int ((?a div 10 ^ 6 + 1) * 10 ^ 6)"
      by (simp_all only: of_int_le_iff of_int_less_iff)
    ultimately show ?thesis by (simp add: field_simps)
  qed
  have pos: "?a > 0" if "?a > int (unat (sh_MinPodAgeMinutes s)) * 60 * 10 ^ 9"
    using that by (rule le_less_trans [rotated]) simp
  show ?thesis
    using val pos unfolding eq minutes_small [OF assms(6)] minutes_small [OF assms(7)] Minute_def by (auto simp: mult.assoc)
qed

theorem pending_pod_schedule_wait_witness:
  "\<exists>q. GetValuesForSchedulerHealth decimal_ops (10 ^ 20 + 90 * 10 ^ 9)
       ((ex_pod ''p'' [])\<lparr>pd_NodeName := '''', pd_Meta := (pd_Meta (ex_pod ''p'' [] :: decimal pod))\<lparr>om_CreationTimestamp := 10 ^ 20\<rparr>\<rparr>)
       (Some \<lparr>sh_MaxPodAgeMinutes = 60, sh_MinPodAgeMinutes = 1\<rparr>)
     = [(''pod_schedule_wait'', list_value (Some [(ResourceTime, q)]) PodLevel ''pod_schedule_wait'')]"
  using pending_pod_schedule_wait [OF dq.quantity_axioms, of
      "(ex_pod ''p'' [])\<lparr>pd_NodeName := '''', pd_Meta := (pd_Meta (ex_pod ''p'' [] :: decimal pod))\<lparr>om_CreationTimestamp := 10 ^ 20\<rparr>\<rparr>"
      "10 ^ 20" "10 ^ 20 + 90 * 10 ^ 9" "\<lparr>sh_MaxPodAgeMinutes = 60, sh_MinPodAgeMinutes = 1\<rparr>"]
  by auto

text \<open>
  The workload of a pod with no workload annotations that a ReplicaSet (or a Job) controls: when the
  client finds that object, the name and the kind are those of the object's own controller, in lower case,
  but the API group and version are those of the reference from the pod to the ReplicaSet; a pod without a
  controller is its own workload.
\<close>

theorem workload_of_controlled_pod:
  assumes "map_of (om_Annotations (pd_Meta pod)) ''workload-name'' = None"
    and "om_OwnerReferences (pd_Meta pod) = ows @ ow # ows'" "\<forall>w\<in>set ows. \<not> is_controller w" "is_controller ow"
    and "or_Kind ow = kind" "kind \<in> {''ReplicaSet'', ''Job''}"
    and "get kind (om_Namespace (pd_Meta pod)) (or_Name ow) = (True, rs)"
    and "map_of (om_Annotations rs) ''workload-name'' = None"
    and "om_OwnerReferences rs = dws @ dw # dws'" "\<forall>w\<in>set dws. \<not> is_controller w" "is_controller dw"
  shows "getWorkloadForPod get pod =
     \<lparr>wl_Name = ToLower (or_Name dw), wl_Kind = ToLower (or_Kind dw),
      wl_APIGroup = fst (getAPIGroupVersion (or_APIVersion ow)), wl_APIVersion = snd (getAPIGroupVersion (or_APIVersion ow))\<rparr>"
proof -
  have find: "find is_controller (xs @ x # xs') = Some x" if "\<forall>w\<in>set xs. \<not> is_controller w" "is_controller x" for xs x xs'
    using that by (induction xs) auto
  show ?thesis
    using assms find [OF assms(3,4)] find [OF assms(10,11)]
    by (auto simp: getWorkloadForPod_def getWorkloadFor_def annotated_workload_def owner_workload_def Let_def)
qed

definition ex_owner :: "string \<Rightarrow> string \<Rightarrow> ownerReference" where
  "ex_owner k n = \<lparr>or_APIVersion = ''apps/v1'', or_Kind = k, or_Name = n, or_Controller = Some True\<rparr>"

lemma ex_lower: "char_of (119 :: nat) = CHR ''w''" "char_of (100 :: nat) = CHR ''d''"
  by code_simp+

theorem workload_of_controlled_pod_witness:
  "getWorkloadForPod
      (\<lambda>k ns n. (True, (pd_Meta (ex_pod ''rs'' [] :: decimal pod))\<lparr>om_OwnerReferences := [ex_owner ''Deployment'' ''Web'']\<rparr>))
      ((ex_pod ''p'' [] :: decimal pod)\<lparr>pd_Meta := (pd_Meta (ex_pod ''p'' [] :: decimal pod))\<lparr>om_OwnerReferences := [ex_owner ''ReplicaSet'' ''Web-1'']\<rparr>\<rparr>)
   = \<lparr>wl_Name = ''web'', wl_Kind = ''deployment'', wl_APIGroup = ''apps'', wl_APIVersion = ''v1''\<rparr>"
  using workload_of_controlled_pod [of
      "(ex_pod ''p'' [] :: decimal pod)\<lparr>pd_Meta := (pd_Meta (ex_pod ''p'' [] :: decimal pod))\<lparr>om_OwnerReferences := [ex_owner ''ReplicaSet'' ''Web-1'']\<rparr>\<rparr>"
      "[]" "ex_owner ''ReplicaSet'' ''Web-1''" "[]" "''ReplicaSet''"
      "\<lambda>k ns n. (True, (pd_Meta (ex_pod ''rs'' [] :: decimal pod))\<lparr>om_OwnerReferences := [ex_owner ''Deployment'' ''Web'']\<rparr>)"
      "(pd_Meta (ex_pod ''rs'' [] :: decimal pod))\<lparr>om_OwnerReferences := [ex_owner ''Deployment'' ''Web'']\<rparr>"
      "[]" "ex_owner ''Deployment'' ''Web''" "[]"]
  by (simp add: ex_pod_def ex_owner_def is_controller_def getAPIGroupVersion_def ToLower_def char_lower_def ex_lower)

end
