(* ===== verification/Cgroup_Reader.thy ===== *)
theory Cgroup_Reader
  imports Sampler_Api "HOL-Library.Monad_Syntax"
begin

text \<open>
  Reading cgroup pseudo files, \<^verbatim>\<open>pkg/sampler/cgroup.go\<close>, and converting the statistics of the container runtime,
  \<^verbatim>\<open>pkg/sampler/ctrstats_linux_amd64.go\<close>. The file system (\<^verbatim>\<open>fs.ReadFile\<close>, \<^verbatim>\<open>fs.Glob\<close>,
  \<^verbatim>\<open>fs.ReadDir\<close>, \<^verbatim>\<open>fs.WalkDir\<close>) and the clock are a record of functions. Files are ASCII, as the kernel
  writes them. An error and a panic of a function are the left values of its result.
\<close>

section \<open>Text\<close>

datatype gofail = GoError | GoPanic

fun rfold :: "('s \<Rightarrow> 'a \<Rightarrow> gofail + 's) \<Rightarrow> 's \<Rightarrow> 'a list \<Rightarrow> gofail + 's" where
  "rfold f s [] = Inr s"
| "rfold f s (x # xs) = (case f s x of Inl e \<Rightarrow> Inl e | Inr s' \<Rightarrow> rfold f s' xs)"

definition is_space :: "char \<Rightarrow> bool" where
  "is_space c \<longleftrightarrow> (let n = of_char c :: nat in n = 32 \<or> (9 \<le> n \<and> n \<le> 13))"

fun Fields_aux :: "string \<Rightarrow> string \<Rightarrow> string list" where
  "Fields_aux w [] = (if w = [] then [] else [w])"
| "Fields_aux w (c # cs) =
     (if is_space c then (if w = [] then Fields_aux [] cs else w # Fields_aux [] cs) else Fields_aux (w @ [c]) cs)"

definition Fields :: "string \<Rightarrow> string list" where
  "Fields s = Fields_aux [] s"

definition TrimSpace :: "string \<Rightarrow> string" where
  "TrimSpace s = rev (dropWhile is_space (rev (dropWhile is_space s)))"

text \<open>\<^verbatim>\<open>bufio.ScanLines\<close>: a final line without its newline counts, an empty one does not; one carriage return goes.\<close>

definition drop_cr :: "string \<Rightarrow> string" where
  "drop_cr l = (if l \<noteq> [] \<and> of_char (last l) = (13 :: nat) then butlast l else l)"

definition ScanLines :: "string \<Rightarrow> string list" where
  "ScanLines s =
     (let ls = SplitChar (char_of (10 :: nat)) s in map drop_cr (if last ls = [] then butlast ls else ls))"

definition digit_val :: "char \<Rightarrow> nat option" where
  "digit_val c = (let n = of_char c :: nat in if 48 \<le> n \<and> n \<le> 57 then Some (n - 48) else None)"

text \<open>\<^verbatim>\<open>strconv.ParseUint(s, 10, 64)\<close>; \<^const>\<open>None\<close> is a syntax or a range error.\<close>

definition ParseUint :: "string \<Rightarrow> u64 option" where
  "ParseUint s =
     (if s = [] \<or> (\<exists>c \<in> set s. digit_val c = None) then None
      else let n = foldl (\<lambda>n c. 10 * n + the (digit_val c)) 0 s in if n < 2 ^ 64 then Some (of_nat n) else None)"

section \<open>Metrics of a cgroup\<close>

record containerCPUMetrics =
  cu_Time :: gotime
  cu_UsageNanoSec :: u64
  th_ThrottledNanoSec :: u64
  th_ThrottledPeriods :: u64
  th_TotalPeriods :: u64

definition cpu_zero :: containerCPUMetrics where
  "cpu_zero = \<lparr>cu_Time = 0, cu_UsageNanoSec = 0, th_ThrottledNanoSec = 0, th_ThrottledPeriods = 0, th_TotalPeriods = 0\<rparr>"

record containerMemoryMetrics =
  mm_Time :: gotime
  mm_RSS :: u64
  mm_Cache :: u64
  mm_Current :: u64
  mm_OOMKills :: u64
  mm_OOMs :: u64

definition mem_zero :: containerMemoryMetrics where
  "mem_zero = \<lparr>mm_Time = 0, mm_RSS = 0, mm_Cache = 0, mm_Current = 0, mm_OOMKills = 0, mm_OOMs = 0\<rparr>"

datatype metricType =
  MemoryUsage | MemoryOOMKillV1 | MemoryOOM | MemoryCurrentV2 | CPUUsage | CPUThrottlingV1

type_synonym metricFiles = "(metricType, string) gomap"

text \<open>An entry that \<^verbatim>\<open>fs.WalkDir\<close> visits: its path, its name, and the error it passes on, if any.\<close>

datatype walkError = NotExist | OtherError

record fileSystem =
  fs_ReadFile :: "string \<Rightarrow> string option"
  fs_Glob :: "string \<Rightarrow> string list option"
  fs_ReadDir :: "string \<Rightarrow> string list option"
  fs_WalkDir :: "string \<Rightarrow> (string \<times> string \<times> walkError option) list"
  fs_readTime :: "string \<Rightarrow> gotime"

definition cpu_stat_line_V1 :: "containerCPUMetrics \<Rightarrow> string \<Rightarrow> gofail + containerCPUMetrics" where
  "cpu_stat_line_V1 m line =
     (let fields = Fields line in
      if length fields < 2 then Inl GoPanic
      else case ParseUint (fields ! 1) of
             None \<Rightarrow> Inl GoError
           | Some v \<Rightarrow> Inr (if fields ! 0 = ''throttled_time'' then m\<lparr>th_ThrottledNanoSec := v\<rparr>
                             else if fields ! 0 = ''nr_periods'' then m\<lparr>th_TotalPeriods := v\<rparr>
                             else if fields ! 0 = ''nr_throttled'' then m\<lparr>th_ThrottledPeriods := v\<rparr>
                             else m))"

definition GetLevelCPUMetricsV1 :: "fileSystem \<Rightarrow> metricFiles \<Rightarrow> gofail + containerCPUMetrics" where
  "GetLevelCPUMetricsV1 fs files =
     rfold (\<lambda>m (mt, path).
        case fs_ReadFile fs path of
          None \<Rightarrow> Inr m
        | Some b \<Rightarrow>
            if mt = CPUUsage then
              (case ParseUint (TrimSpace b) of
                 None \<Rightarrow> Inl GoError
               | Some v \<Rightarrow> Inr (m\<lparr>cu_Time := fs_readTime fs path, cu_UsageNanoSec := v\<rparr>))
            else if mt = CPUThrottlingV1 then rfold cpu_stat_line_V1 m (ScanLines b)
            else Inr m) cpu_zero files"

definition cpu_stat_line_V2 :: "containerCPUMetrics \<Rightarrow> string \<Rightarrow> gofail + containerCPUMetrics" where
  "cpu_stat_line_V2 m line =
     (let fields = Fields line in
      if length fields < 2 then Inl GoPanic
      else case ParseUint (fields ! 1) of
             None \<Rightarrow> Inl GoError
           | Some v \<Rightarrow> Inr (if fields ! 0 = ''usage_usec'' then m\<lparr>cu_UsageNanoSec := v * 1000\<rparr>
                             else if fields ! 0 = ''throttled_usec'' then m\<lparr>th_ThrottledNanoSec := v * 1000\<rparr>
                             else if fields ! 0 = ''nr_periods'' then m\<lparr>th_TotalPeriods := v\<rparr>
                             else if fields ! 0 = ''nr_throttled'' then m\<lparr>th_ThrottledPeriods := v\<rparr>
                             else m))"

definition GetLevelCPUMetricsV2 :: "fileSystem \<Rightarrow> metricFiles \<Rightarrow> gofail + containerCPUMetrics" where
  "GetLevelCPUMetricsV2 fs files =
     rfold (\<lambda>m (mt, path).
        case fs_ReadFile fs path of
          None \<Rightarrow> Inr m
        | Some b \<Rightarrow>
            if mt = CPUUsage then rfold cpu_stat_line_V2 (m\<lparr>cu_Time := fs_readTime fs path\<rparr>) (ScanLines b)
            else Inr m) cpu_zero files"

definition memory_line_V1 :: "metricType \<Rightarrow> containerMemoryMetrics \<Rightarrow> string \<Rightarrow> gofail + containerMemoryMetrics" where
  "memory_line_V1 mt m line =
     (let fields = Fields line in
      if length fields = 1 then
        (case ParseUint (fields ! 0) of
           None \<Rightarrow> Inl GoError
         | Some v \<Rightarrow> Inr (if mt = MemoryOOM then m\<lparr>mm_OOMs := v\<rparr> else m))
      else if length fields = 2 then
        (case ParseUint (fields ! 1) of
           None \<Rightarrow> Inl GoError
         | Some v \<Rightarrow>
             Inr (if mt = MemoryUsage \<and> fields ! 0 = ''total_rss'' then m\<lparr>mm_RSS := v\<rparr>
                  else if mt = MemoryUsage \<and> fields ! 0 = ''total_cache'' then m\<lparr>mm_Cache := v\<rparr>
                  else if mt = MemoryOOMKillV1 \<and> fields ! 0 = ''oom_kill'' then m\<lparr>mm_OOMKills := v\<rparr>
                  else m))
      else Inr m)"

definition memory_line_V2 :: "metricType \<Rightarrow> containerMemoryMetrics \<Rightarrow> string \<Rightarrow> gofail + containerMemoryMetrics" where
  "memory_line_V2 mt m line =
     (let fields = Fields line in
      if length fields = 1 then
        (case ParseUint (fields ! 0) of
           None \<Rightarrow> Inl GoError
         | Some v \<Rightarrow> Inr (if mt = MemoryCurrentV2 then m\<lparr>mm_Current := v\<rparr> else m))
      else if length fields = 2 then
        (case ParseUint (fields ! 1) of
           None \<Rightarrow> Inl GoError
         | Some v \<Rightarrow>
             Inr (if mt = MemoryOOM \<and> fields ! 0 = ''oom_kill'' then m\<lparr>mm_OOMKills := v\<rparr>
                  else if mt = MemoryOOM \<and> fields ! 0 = ''oom'' then m\<lparr>mm_OOMs := v\<rparr>
                  else m))
      else Inr m)"

definition GetLevelMemoryMetrics ::
  "(metricType \<Rightarrow> containerMemoryMetrics \<Rightarrow> string \<Rightarrow> gofail + containerMemoryMetrics) \<Rightarrow> fileSystem \<Rightarrow> metricFiles \<Rightarrow>
   gofail + containerMemoryMetrics" where
  "GetLevelMemoryMetrics line fs files =
     rfold (\<lambda>m (mt, path).
        let m = m\<lparr>mm_Time := fs_readTime fs path\<rparr> in
        case fs_ReadFile fs path of
          None \<Rightarrow> Inr m
        | Some b \<Rightarrow> rfold (line mt) m (ScanLines b)) mem_zero files"

definition GetLevelMemoryMetricsV1 :: "fileSystem \<Rightarrow> metricFiles \<Rightarrow> gofail + containerMemoryMetrics" where
  "GetLevelMemoryMetricsV1 = GetLevelMemoryMetrics memory_line_V1"

definition GetLevelMemoryMetricsV2 :: "fileSystem \<Rightarrow> metricFiles \<Rightarrow> gofail + containerMemoryMetrics" where
  "GetLevelMemoryMetricsV2 = GetLevelMemoryMetrics memory_line_V2"

section \<open>The reader\<close>

record reader =
  rd_CGroupVersion :: string
  rd_CPUPaths :: "string list"
  rd_MemoryPaths :: "string list"
  rd_PodPrefix :: "string list"
  rd_PodSuffix :: "string list"
  rd_ContainerPrefix :: "string list"
  rd_ContainerSuffix :: "string list"
  rd_PodReplacements :: strmap
  rd_ContainerReplacements :: strmap
  rd_ParentDirectories :: "string list"
  rd_NodeAggregationLevelGlobs :: "string list"
  rd_MinCPUCoresNanoSec :: int
  rd_MaxCPUCoresNanoSec :: u64
  rd_DropFirstValue :: "bool option"

record metricsReader =
  mr_Reader :: reader
  mr_cpuFiles :: "(ContainerKey, metricFiles) gomap"
  mr_memoryFiles :: "(ContainerKey, metricFiles) gomap"
  mr_nodeCPUFiles :: "(string, metricFiles) gomap"
  mr_nodeMemoryFiles :: "(string, metricFiles) gomap"
  mr_once :: "gofail option option"
  mr_knownContainersSet :: "string list option"

definition IsCgroupV2 :: "reader \<Rightarrow> bool" where
  "IsCgroupV2 r \<longleftrightarrow> rd_CGroupVersion r = ''v2''"

definition GetLevelCPUMetrics :: "reader \<Rightarrow> fileSystem \<Rightarrow> metricFiles \<Rightarrow> gofail + containerCPUMetrics" where
  "GetLevelCPUMetrics r = (if IsCgroupV2 r then GetLevelCPUMetricsV2 else GetLevelCPUMetricsV1)"

definition GetLevelMemMetrics :: "reader \<Rightarrow> fileSystem \<Rightarrow> metricFiles \<Rightarrow> gofail + containerMemoryMetrics" where
  "GetLevelMemMetrics r = (if IsCgroupV2 r then GetLevelMemoryMetricsV2 else GetLevelMemoryMetricsV1)"

section \<open>Finding the files\<close>

text \<open>
  Paths of an \<^verbatim>\<open>fs.FS\<close> are relative. \<^verbatim>\<open>path.Clean\<close> drops empty and dot elements and resolves dot-dot elements;
  nothing left is a dot.
\<close>

fun clean_rel :: "string list \<Rightarrow> string list \<Rightarrow> string list" where
  "clean_rel acc [] = rev acc"
| "clean_rel acc (w # ws) =
     (if w = '''' \<or> w = ''.'' then clean_rel acc ws
      else if w = ''..'' \<and> acc \<noteq> [] \<and> hd acc \<noteq> ''..'' then clean_rel (tl acc) ws
      else clean_rel (w # acc) ws)"

definition rel_path :: "string list \<Rightarrow> string" where
  "rel_path ws = (case clean_rel [] ws of [] \<Rightarrow> ''.'' | vs \<Rightarrow> join_with ''/'' vs)"

definition filepath_Dir :: "string \<Rightarrow> string" where
  "filepath_Dir p =
     (if HasPrefix p ''/'' then filepath_Dir_abs p else rel_path (butlast (SplitChar (CHR ''/'') p)))"

definition path_Join :: "string \<Rightarrow> string \<Rightarrow> string" where
  "path_Join p q = rel_path (SplitChar (CHR ''/'') p @ SplitChar (CHR ''/'') q)"

fun TrimLeftChar :: "char \<Rightarrow> string \<Rightarrow> string" where
  "TrimLeftChar c s = dropWhile (\<lambda>x. x = c) s"

function ReplaceAll :: "string \<Rightarrow> string \<Rightarrow> string \<Rightarrow> string" where
  "ReplaceAll old new s =
     (if old = [] then new @ concat (map (\<lambda>c. [c] @ new) s)
      else if s = [] then []
      else if HasPrefix s old then new @ ReplaceAll old new (drop (length old) s)
      else hd s # ReplaceAll old new (tl s))"
  by pat_completeness auto
termination
  by (relation "measure (\<lambda>(old, new, s). length s)") auto

declare ReplaceAll.simps [simp del]

definition strip_first :: "(string \<Rightarrow> string \<Rightarrow> string) \<Rightarrow> string list \<Rightarrow> string \<Rightarrow> string" where
  "strip_first trim ps s = (case find (\<lambda>p. trim s p \<noteq> s) ps of None \<Rightarrow> s | Some p \<Rightarrow> trim s p)"

text \<open>
  The pod prefixes: \<^const>\<open>None\<close> when a prefix leaves nothing (a directory of many pods) or no prefix applies.
\<close>

fun strip_pod_prefix :: "string list \<Rightarrow> string \<Rightarrow> string option" where
  "strip_pod_prefix [] podID = None"
| "strip_pod_prefix (p # ps) podID =
     (let id = TrimPrefix podID p
      in if id = '''' then None else if id \<noteq> podID then Some id else strip_pod_prefix ps podID)"

text \<open>The loop over the parent directories: \<^const>\<open>None\<close> when the pod directory itself is a parent.\<close>

fun check_parents :: "string list \<Rightarrow> string \<Rightarrow> string \<Rightarrow> bool \<Rightarrow> bool option" where
  "check_parents [] podID kubeDir h = Some h"
| "check_parents (p # ps) podID kubeDir h =
     (if podID = p then None else check_parents ps podID kubeDir (h \<or> kubeDir = p))"

definition container_of_path ::
  "reader \<Rightarrow> (metricType, string) gomap \<Rightarrow> string \<Rightarrow> string \<Rightarrow> (ContainerKey \<times> metricType) option" where
  "container_of_path r filenames path name =
     (let dir = filepath_Dir path;
          podID = filepath_Base (filepath_Dir dir);
          containerID = filepath_Base dir;
          kubeDir = filepath_Base (filepath_Dir (filepath_Dir dir))
      in case check_parents (rd_ParentDirectories r) podID kubeDir (rd_ParentDirectories r = []) of
           None \<Rightarrow> None
         | Some False \<Rightarrow> None
         | Some True \<Rightarrow>
            (case find (\<lambda>(mt, fn). name = fn) filenames of
               None \<Rightarrow> None
             | Some (mt, filename) \<Rightarrow>
                 if filename = '''' then None
                 else case strip_pod_prefix (rd_PodPrefix r) podID of
                    None \<Rightarrow> None
                  | Some podID \<Rightarrow>
                     (let podID = strip_first TrimSuffix (rd_PodSuffix r) podID;
                          podID = foldl (\<lambda>s (old, new). ReplaceAll old new s) podID (rd_PodReplacements r);
                          containerID = strip_first TrimPrefix (rd_ContainerPrefix r) containerID;
                          containerID = strip_first TrimSuffix (rd_ContainerSuffix r) containerID;
                          containerID = foldl (\<lambda>s (old, new). ReplaceAll old new s) containerID (rd_ContainerReplacements r)
                      in if podID = '''' \<or> containerID = '''' then None
                         else Some (ContainerKey_zero\<lparr>ck_ContainerID := containerID, ck_PodUID := podID\<rparr>, mt))))"

text \<open>
  One walk: an entry that vanished is skipped, another error ends the walk (it is logged, and what has been
  found stays), a matching file is recorded.
\<close>

fun walk_files ::
  "reader \<Rightarrow> (metricType, string) gomap \<Rightarrow> (ContainerKey, metricFiles) gomap \<Rightarrow> (string \<times> string \<times> walkError option) list \<Rightarrow>
   (ContainerKey, metricFiles) gomap" where
  "walk_files r filenames files [] = files"
| "walk_files r filenames files ((path, name, err) # es) =
     (case err of
        Some NotExist \<Rightarrow> walk_files r filenames files es
      | Some OtherError \<Rightarrow> files
      | None \<Rightarrow>
          (case container_of_path r filenames path name of
             None \<Rightarrow> walk_files r filenames files es
           | Some (k, mt) \<Rightarrow>
               walk_files r filenames (AList.update k (AList.update mt path (gget [] files k)) files) es))"

definition getContainers ::
  "reader \<Rightarrow> fileSystem \<Rightarrow> string list \<Rightarrow> (metricType, string) gomap \<Rightarrow> (ContainerKey, metricFiles) gomap" where
  "getContainers r fs paths filenames = foldl (\<lambda>files p. walk_files r filenames files (fs_WalkDir fs p)) [] paths"

definition cpuFilenames :: "reader \<Rightarrow> (metricType, string) gomap" where
  "cpuFilenames r =
     (if IsCgroupV2 r then [(CPUUsage, ''cpu.stat'')] else [(CPUUsage, ''cpuacct.usage''), (CPUThrottlingV1, ''cpu.stat'')])"

definition memoryFilenames :: "reader \<Rightarrow> (metricType, string) gomap" where
  "memoryFilenames r =
     (if IsCgroupV2 r then [(MemoryOOM, ''memory.events''), (MemoryCurrentV2, ''memory.current'')]
      else [(MemoryOOM, ''memory.failcnt''), (MemoryOOMKillV1, ''memory.oom_control''), (MemoryUsage, ''memory.stat'')])"

definition syncContainerCache :: "fileSystem \<Rightarrow> metricsReader \<Rightarrow> metricsReader" where
  "syncContainerCache fs s =
     (let r = mr_Reader s in
      s\<lparr>mr_cpuFiles := getContainers r fs (rd_CPUPaths r) (cpuFilenames r),
        mr_memoryFiles := getContainers r fs (rd_MemoryPaths r) (memoryFilenames r)\<rparr>)"

definition getNodeMetricFilePaths ::
  "fileSystem \<Rightarrow> string list \<Rightarrow> string list \<Rightarrow> (metricType, string) gomap \<Rightarrow> (string, metricFiles) gomap option" where
  "getNodeMetricFilePaths fs levels parentPaths metricFilenames =
     do { paths \<leftarrow> ofold (\<lambda>ps (level, p). do { ms \<leftarrow> fs_Glob fs (path_Join p level);
                Some (ps @ map (\<lambda>m. (m, TrimLeftChar (CHR ''/'') (TrimPrefix m p))) ms) })
              [] (List.product levels parentPaths);
          Some (foldl (\<lambda>files (path, name).
             case fs_ReadDir fs path of
               None \<Rightarrow> files
             | Some contents \<Rightarrow>
                 foldl (\<lambda>files (entry, mt, filename).
                    if entry = filename
                    then AList.update name (AList.update mt (path_Join path filename) (gget [] files name)) files
                    else files) files (List.product contents metricFilenames)) [] paths) }"

definition loadNodeLevelMetricFilePaths :: "fileSystem \<Rightarrow> metricsReader \<Rightarrow> bool \<times> metricsReader" where
  "loadNodeLevelMetricFilePaths fs s =
     (let r = mr_Reader s;
          cpu = [(CPUUsage, if IsCgroupV2 r then ''cpu.stat'' else ''cpuacct.usage'')];
          memory = [if IsCgroupV2 r then (MemoryCurrentV2, ''memory.current'') else (MemoryUsage, ''memory.stat'')]
      in case getNodeMetricFilePaths fs (rd_NodeAggregationLevelGlobs r) (rd_CPUPaths r) cpu of
           None \<Rightarrow> (False, s)
         | Some cpuPaths \<Rightarrow>
            (let s = s\<lparr>mr_nodeCPUFiles := cpuPaths\<rparr> in
             case getNodeMetricFilePaths fs (rd_NodeAggregationLevelGlobs r) (rd_MemoryPaths r) memory of
               None \<Rightarrow> (False, s)
             | Some memoryPaths \<Rightarrow> (True, s\<lparr>mr_nodeMemoryFiles := memoryPaths\<rparr>)))"

definition reader_init :: "fileSystem \<Rightarrow> metricsReader \<Rightarrow> gofail option \<times> metricsReader" where
  "reader_init fs s =
     (case mr_once s of
        Some err \<Rightarrow> (err, s)
      | None \<Rightarrow>
         (let (ok, s) = loadNodeLevelMetricFilePaths fs s in
          if \<not> ok then (Some GoError, s\<lparr>mr_once := Some (Some GoError)\<rparr>)
          else (None, (syncContainerCache fs s)\<lparr>mr_once := Some None\<rparr>)))"

section \<open>Reading all containers\<close>

text \<open>The flag says whether every container has been read; a parse error ends the loop and is not passed on.\<close>

fun read_cpu ::
  "(metricFiles \<Rightarrow> gofail + containerCPUMetrics) \<Rightarrow> (ContainerKey, metricFiles) gomap \<Rightarrow> (ContainerKey, containerCPUMetrics) gomap \<Rightarrow>
   gofail + bool \<times> (ContainerKey, containerCPUMetrics) gomap" where
  "read_cpu get [] result = Inr (True, result)"
| "read_cpu get ((k, files) # xs) result =
     (case get files of
        Inr m \<Rightarrow> read_cpu get xs (AList.update k m result)
      | Inl GoError \<Rightarrow> Inr (False, result)
      | Inl GoPanic \<Rightarrow> Inl GoPanic)"

definition GetContainerCPUMetrics ::
  "fileSystem \<Rightarrow> metricsReader \<Rightarrow> (gofail + (ContainerKey, containerCPUMetrics) gomap) \<times> metricsReader" where
  "GetContainerCPUMetrics fs s =
     (let (err, s) = reader_init fs s in
      case err of
        Some e \<Rightarrow> (Inl e, s)
      | None \<Rightarrow>
         (case read_cpu (GetLevelCPUMetrics (mr_Reader s) fs) (mr_cpuFiles s) [] of
            Inl e \<Rightarrow> (Inl e, s)
          | Inr (full, result) \<Rightarrow>
              (Inr result, if full then s\<lparr>mr_knownContainersSet := Some (remdups (map (ck_PodUID \<circ> fst) (mr_cpuFiles s)))\<rparr>
                           else s)))"

definition GetContainerMemoryMetrics ::
  "fileSystem \<Rightarrow> metricsReader \<Rightarrow> (gofail + (ContainerKey, containerMemoryMetrics) gomap) \<times> metricsReader" where
  "GetContainerMemoryMetrics fs s =
     (let (err, s) = reader_init fs s in
      case err of
        Some e \<Rightarrow> (Inl e, s)
      | None \<Rightarrow>
         (rfold (\<lambda>result (k, files). case GetLevelMemMetrics (mr_Reader s) fs files of
                                        Inl e \<Rightarrow> Inl e
                                      | Inr m \<Rightarrow> Inr (AList.update k m result)) [] (mr_memoryFiles s), s))"

section \<open>Printing and parsing statistics files\<close>

fun show_u64 :: "nat \<Rightarrow> string" where
  "show_u64 n = (if n < 10 then [char_of (48 + n)] else show_u64 (n div 10) @ [char_of (48 + n mod 10)])"

declare show_u64.simps [simp del]

definition stat_line :: "string \<times> nat \<Rightarrow> string" where
  "stat_line kv = fst kv @ [CHR '' ''] @ show_u64 (snd kv)"

definition newline :: char where "newline = char_of (10 :: nat)"

definition stat_file :: "(string \<times> nat) list \<Rightarrow> string" where
  "stat_file kvs = concat (map (\<lambda>kv. stat_line kv @ [newline]) kvs)"

definition is_word :: "string \<Rightarrow> bool" where
  "is_word w \<longleftrightarrow> w \<noteq> [] \<and> list_all (\<lambda>c. \<not> is_space c) w"

definition stat_of :: "(string \<times> nat) list \<Rightarrow> string \<Rightarrow> nat" where
  "stat_of kvs k = (case map_of (rev kvs) k of None \<Rightarrow> 0 | Some v \<Rightarrow> v)"

lemma of_char_digit: "d < 10 \<Longrightarrow> of_char (char_of (48 + d :: nat)) = (48 + d :: nat)"
  by (simp add: of_char_of)

lemma digit_val_digit [simp]: "d < 10 \<Longrightarrow> digit_val (char_of (48 + d)) = Some d"
  by (simp add: digit_val_def of_char_digit)

lemma show_u64_digits: "list_all (\<lambda>c. \<exists>d :: nat. d < 10 \<and> c = char_of (48 + d)) (show_u64 n)"
proof (induction n rule: show_u64.induct)
  case (1 n)
  show ?case
  proof (cases "n < 10")
    case True
    then show ?thesis by (subst show_u64.simps) auto
  next
    case False
    with 1 show ?thesis by (subst show_u64.simps) (auto intro!: exI [of _ "n mod 10"])
  qed
qed

lemma show_u64_not_Nil [simp]: "show_u64 n \<noteq> []"
  by (subst show_u64.simps) simp

lemma value_show_u64: "foldl (\<lambda>n c. 10 * n + the (digit_val c)) 0 (show_u64 n) = n"
proof (induction n rule: show_u64.induct)
  case (1 n)
  show ?case
  proof (cases "n < 10")
    case True
    then show ?thesis by (subst show_u64.simps) simp
  next
    case False
    with 1 show ?thesis by (subst show_u64.simps) simp
  qed
qed

lemma ParseUint_show: "n < 2 ^ 64 \<Longrightarrow> ParseUint (show_u64 n) = Some (of_nat n)"
  using show_u64_digits [of n] by (auto simp: ParseUint_def value_show_u64 Let_def list_all_iff)

lemma not_space_digit: "d < 10 \<Longrightarrow> \<not> is_space (char_of (48 + d :: nat))"
  by (simp add: is_space_def of_char_digit Let_def)

lemma is_word_show: "is_word (show_u64 n)"
  using show_u64_digits [of n] not_space_digit by (fastforce simp: is_word_def list_all_iff)

lemma Fields_aux_word: "list_all (\<lambda>c. \<not> is_space c) w \<Longrightarrow> Fields_aux v (w @ s) = Fields_aux (v @ w) s"
  by (induction w arbitrary: v) auto

lemma Fields_stat_line:
  assumes "is_word k"
  shows "Fields (stat_line (k, n)) = [k, show_u64 n]"
proof -
  have sp: "is_space (CHR '' '')" by (simp add: is_space_def)
  show ?thesis
    using assms is_word_show [of n] Fields_aux_word [of k "[]"] Fields_aux_word [of "show_u64 n" "[]" "[]"]
    by (simp add: Fields_def stat_line_def is_word_def sp)
qed

lemma SplitChar_append: "c \<notin> set l \<Longrightarrow> SplitChar c (l @ c # s) = l # SplitChar c s"
  by (induction l) auto

lemma ScanLines_concat:
  assumes "\<forall>l \<in> set ls. newline \<notin> set l \<and> drop_cr l = l"
  shows "ScanLines (concat (map (\<lambda>l. l @ [newline]) ls)) = ls"
proof -
  have "SplitChar newline (concat (map (\<lambda>l. l @ [newline]) ls)) = ls @ [[]]"
    using assms by (induction ls) (simp_all add: SplitChar_append)
  moreover have "map drop_cr ls = ls" using assms by (simp add: map_idI)
  ultimately show ?thesis by (simp add: ScanLines_def flip: newline_def)
qed

lemma space_newline: "is_space newline" "is_space (char_of (13 :: nat))"
  by (simp_all add: is_space_def newline_def of_char_of)

lemma stat_line_clean:
  assumes "is_word (fst kv)"
  shows "newline \<notin> set (stat_line kv)" "drop_cr (stat_line kv) = stat_line kv"
proof -
  have d: "\<forall>c \<in> set (show_u64 (snd kv)). \<not> is_space c"
    using is_word_show by (simp add: is_word_def list_all_iff)
  have n: "newline \<noteq> CHR '' ''" by (simp add: newline_def) code_simp
  show "newline \<notin> set (stat_line kv)"
    using assms d space_newline n by (auto simp: stat_line_def is_word_def list_all_iff)
  have "last (stat_line kv) = last (show_u64 (snd kv))" by (simp add: stat_line_def)
  then have "\<not> is_space (last (stat_line kv))" using d by simp
  then have "of_char (last (stat_line kv)) \<noteq> (13 :: nat)" by (auto simp: is_space_def Let_def)
  then show "drop_cr (stat_line kv) = stat_line kv" by (simp add: drop_cr_def)
qed

lemma ScanLines_stat_file:
  assumes "\<forall>kv \<in> set kvs. is_word (fst kv)"
  shows "ScanLines (stat_file kvs) = map stat_line kvs"
proof -
  have "stat_file kvs = concat (map (\<lambda>l. l @ [newline]) (map stat_line kvs))"
    by (simp add: stat_file_def comp_def)
  with assms stat_line_clean show ?thesis by (simp only: ScanLines_concat) (subst ScanLines_concat; auto)
qed

definition cpu_of_stats :: "gotime \<Rightarrow> (string \<times> nat) list \<Rightarrow> containerCPUMetrics" where
  "cpu_of_stats t kvs =
     \<lparr>cu_Time = t,
      cu_UsageNanoSec = of_nat (1000 * stat_of kvs ''usage_usec''),
      th_ThrottledNanoSec = of_nat (1000 * stat_of kvs ''throttled_usec''),
      th_ThrottledPeriods = of_nat (stat_of kvs ''nr_throttled''),
      th_TotalPeriods = of_nat (stat_of kvs ''nr_periods'')\<rparr>"

lemma stat_of_snoc: "stat_of (kvs @ [(k, v)]) k' = (if k' = k then v else stat_of kvs k')"
  by (simp add: stat_of_def)

lemma cpu_stat_line_V2_step:
  assumes "is_word k" "v < 2 ^ 64"
  shows "cpu_stat_line_V2 (cpu_of_stats t kvs) (stat_line (k, v)) = Inr (cpu_of_stats t (kvs @ [(k, v)]))"
proof -
  have "cpu_stat_line_V2 m (stat_line (k, v)) =
     Inr (if k = ''usage_usec'' then m\<lparr>cu_UsageNanoSec := of_nat v * 1000\<rparr>
          else if k = ''throttled_usec'' then m\<lparr>th_ThrottledNanoSec := of_nat v * 1000\<rparr>
          else if k = ''nr_periods'' then m\<lparr>th_TotalPeriods := of_nat v\<rparr>
          else if k = ''nr_throttled'' then m\<lparr>th_ThrottledPeriods := of_nat v\<rparr> else m)" for m
    using assms by (simp add: cpu_stat_line_V2_def Fields_stat_line ParseUint_show)
  then show ?thesis by (simp add: cpu_of_stats_def stat_of_snoc mult.commute)
qed

lemma rfold_append: "rfold f s (xs @ ys) = (case rfold f s xs of Inl e \<Rightarrow> Inl e | Inr s' \<Rightarrow> rfold f s' ys)"
  by (induction xs arbitrary: s) (auto split: sum.split)

lemma cpu_stat_lines_V2:
  assumes "\<forall>kv \<in> set kvs. is_word (fst kv) \<and> snd kv < 2 ^ 64"
  shows "rfold cpu_stat_line_V2 (cpu_of_stats t []) (map stat_line kvs) = Inr (cpu_of_stats t kvs)"
  using assms
proof (induction kvs rule: rev_induct)
  case (snoc kv kvs)
  then show ?case by (cases kv) (simp add: rfold_append cpu_stat_line_V2_step)
qed simp

section \<open>Properties\<close>

text \<open>
  C24. Parsing what the kernel prints: reading a cgroup v2 \<^verbatim>\<open>cpu.stat\<close> file with one line per statistic, whatever
  statistics it has, gives the last printed value of each of the four the sampler keeps (0 where it is
  missing), the two times converted from microseconds to nanoseconds modulo \<^verbatim>\<open>2^64\<close>.
\<close>

theorem cpu_stat_roundtrip:
  assumes "\<forall>kv \<in> set kvs. is_word (fst kv) \<and> snd kv < 2 ^ 64" "fs_ReadFile fs path = Some (stat_file kvs)"
  shows "GetLevelCPUMetricsV2 fs [(CPUUsage, path)] = Inr (cpu_of_stats (fs_readTime fs path) kvs)"
proof -
  have z: "cpu_zero\<lparr>cu_Time := t\<rparr> = cpu_of_stats t []" for t
    by (simp add: cpu_zero_def cpu_of_stats_def stat_of_def)
  have "ScanLines (stat_file kvs) = map stat_line kvs" using assms(1) by (simp add: ScanLines_stat_file)
  then show ?thesis
    by (simp add: GetLevelCPUMetricsV2_def assms(2) z cpu_stat_lines_V2 [OF assms(1)])
qed

definition ex_fs :: "string \<Rightarrow> fileSystem" where
  "ex_fs content = \<lparr>fs_ReadFile = (\<lambda>_. Some content), fs_Glob = (\<lambda>_. Some []), fs_ReadDir = (\<lambda>_. None),
     fs_WalkDir = (\<lambda>_. []), fs_readTime = (\<lambda>_. 7)\<rparr>"

lemma ex_words: "is_word ''usage_usec''" "is_word ''nr_periods''" "is_word ''user_usec''"
  by (simp_all add: is_word_def is_space_def)

theorem cpu_stat_roundtrip_witness:
  "\<exists>m. GetLevelCPUMetricsV2 (ex_fs (stat_file [(''usage_usec'', 12), (''user_usec'', 3), (''nr_periods'', 4)])) [(CPUUsage, ''f'')] = Inr m
     \<and> cu_UsageNanoSec m = 12000 \<and> th_TotalPeriods m = 4 \<and> th_ThrottledPeriods m = 0"
  using cpu_stat_roundtrip [of "[(''usage_usec'', 12), (''user_usec'', 3), (''nr_periods'', 4)]"
      "ex_fs (stat_file [(''usage_usec'', 12), (''user_usec'', 3), (''nr_periods'', 4)])" "''f''"] ex_words
  by (simp add: ex_fs_def cpu_of_stats_def stat_of_def)

lemma memory_lines_no_panic: "memory_line_V1 mt m l \<noteq> Inl GoPanic" "memory_line_V2 mt m l \<noteq> Inl GoPanic"
  by (auto simp: memory_line_V1_def memory_line_V2_def Let_def split: option.splits)

lemma rfold_no_panic: "(\<And>s x. f s x \<noteq> Inl GoPanic) \<Longrightarrow> rfold f s xs \<noteq> Inl GoPanic"
  by (induction xs arbitrary: s) (auto split: sum.split)

lemma GetLevelMemoryMetrics_no_panic:
  assumes "\<And>mt m l. line mt m l \<noteq> Inl GoPanic"
  shows "GetLevelMemoryMetrics line fs files \<noteq> Inl GoPanic"
  unfolding GetLevelMemoryMetrics_def
  by (rule rfold_no_panic) (auto simp: Let_def rfold_no_panic assms split: option.splits prod.splits)

text \<open>
  Robustness of the parsers: the memory readers never panic, whatever the files contain, but the CPU readers
  index the second field of every line unchecked, so a line with fewer than two fields (an empty line, say)
  after well-formed ones ends in a panic.
\<close>

theorem short_lines_panic_only_cpu_readers:
  assumes "\<forall>kv \<in> set kvs. is_word (fst kv) \<and> snd kv < 2 ^ 64"
    and "newline \<notin> set short" "drop_cr short = short" "length (Fields short) < 2"
    and "fs_ReadFile fs path = Some (stat_file kvs @ short @ [newline])"
  shows "GetLevelCPUMetricsV2 fs [(CPUUsage, path)] = Inl GoPanic
     \<and> GetLevelMemoryMetricsV1 fs' files \<noteq> Inl GoPanic \<and> GetLevelMemoryMetricsV2 fs' files \<noteq> Inl GoPanic"
proof (intro conjI)
  have z: "cpu_zero\<lparr>cu_Time := t\<rparr> = cpu_of_stats t []" for t
    by (simp add: cpu_zero_def cpu_of_stats_def stat_of_def)
  have "stat_file kvs @ short @ [newline] = concat (map (\<lambda>l. l @ [newline]) (map stat_line kvs @ [short]))"
    by (simp add: stat_file_def comp_def)
  moreover have "\<forall>l \<in> set (map stat_line kvs @ [short]). newline \<notin> set l \<and> drop_cr l = l"
    using assms(1-3) stat_line_clean by auto
  ultimately have "ScanLines (stat_file kvs @ short @ [newline]) = map stat_line kvs @ [short]"
    by (simp only: ScanLines_concat)
  moreover have "cpu_stat_line_V2 m short = Inl GoPanic" for m using assms(4) by (simp add: cpu_stat_line_V2_def)
  ultimately show "GetLevelCPUMetricsV2 fs [(CPUUsage, path)] = Inl GoPanic"
    by (simp add: GetLevelCPUMetricsV2_def assms(5) z cpu_stat_lines_V2 [OF assms(1)] rfold_append)
  show "GetLevelMemoryMetricsV1 fs' files \<noteq> Inl GoPanic" "GetLevelMemoryMetricsV2 fs' files \<noteq> Inl GoPanic"
    by (simp_all add: GetLevelMemoryMetricsV1_def GetLevelMemoryMetricsV2_def GetLevelMemoryMetrics_no_panic memory_lines_no_panic)
qed

theorem short_lines_panic_only_cpu_readers_witness:
  "GetLevelCPUMetricsV2 (ex_fs (stat_file [(''usage_usec'', 12)] @ [] @ [newline])) [(CPUUsage, ''f'')] = Inl GoPanic"
  using short_lines_panic_only_cpu_readers [of "[(''usage_usec'', 12)]" "[]"
      "ex_fs (stat_file [(''usage_usec'', 12)] @ [] @ [newline])" "''f''"] ex_words
  by (simp add: ex_fs_def drop_cr_def Fields_def)

definition recorded :: "(ContainerKey, metricFiles) gomap \<Rightarrow> ContainerKey \<Rightarrow> metricType \<Rightarrow> string option" where
  "recorded files k mt = map_of (gget [] files k) mt"

lemma recorded_simps [simp]:
  "recorded [] k mt = None"
  "recorded (AList.update k' (AList.update mt' path (gget [] files k')) files) k mt =
     (if k = k' \<and> mt = mt' then Some path else recorded files k mt)"
  by (simp_all add: recorded_def)

definition file_of :: "reader \<Rightarrow> (metricType, string) gomap \<Rightarrow> ContainerKey \<Rightarrow> metricType \<Rightarrow> string \<times> string \<times> walkError option \<Rightarrow> bool" where
  "file_of r fns k mt e \<longleftrightarrow> snd (snd e) = None \<and> container_of_path r fns (fst e) (fst (snd e)) = Some (k, mt)"

lemma walk_files_recorded:
  assumes "\<forall>e \<in> set es. snd (snd e) \<noteq> Some OtherError"
  shows "recorded (walk_files r fns files es) k mt =
     (case find (file_of r fns k mt) (rev es) of None \<Rightarrow> recorded files k mt | Some e \<Rightarrow> Some (fst e))"
  using assms
proof (induction es arbitrary: files)
  case (Cons e es)
  obtain path name err where e: "e = (path, name, err)" by (cases e)
  define files' where "files' = (case (err, container_of_path r fns path name) of
      (None, Some (k, mt)) \<Rightarrow> AList.update k (AList.update mt path (gget [] files k)) files | _ \<Rightarrow> files)"
  have step: "walk_files r fns files (e # es) = walk_files r fns files' es"
    using Cons.prems by (cases err; cases "the err") (auto simp: e files'_def split: option.split)
  have here: "recorded files' k mt = (if file_of r fns k mt e then Some (fst e) else recorded files k mt)"
    by (auto simp: files'_def e file_of_def split: option.split)
  have find: "find P (rev (e # es)) = (case find P (rev es) of None \<Rightarrow> if P e then Some e else None | Some x \<Rightarrow> Some x)" for P
    by (simp add: find_append split: option.split)
  have "recorded (walk_files r fns files' es) k mt =
     (case find (file_of r fns k mt) (rev es) of None \<Rightarrow> recorded files' k mt | Some e \<Rightarrow> Some (fst e))"
    using Cons by simp
  then show ?case unfolding step find here by (simp split: option.split)
qed simp

lemma getContainers_recorded:
  assumes "\<forall>p \<in> set paths. \<forall>e \<in> set (fs_WalkDir fs p). snd (snd e) \<noteq> Some OtherError"
  shows "recorded (getContainers r fs paths fns) k mt
     = map_option fst (find (file_of r fns k mt) (rev (concat (map (fs_WalkDir fs) paths))))"
proof -
  have "recorded (foldl (\<lambda>files p. walk_files r fns files (fs_WalkDir fs p)) files paths) k mt
     = (case find (file_of r fns k mt) (rev (concat (map (fs_WalkDir fs) paths))) of
          None \<Rightarrow> recorded files k mt | Some e \<Rightarrow> Some (fst e))" for files
    using assms by (induction paths arbitrary: files) (auto simp: walk_files_recorded find_append split: option.split)
  then show ?thesis by (simp add: getContainers_def split: option.split)
qed

lemma check_parents_iff:
  "check_parents ps podID kubeDir h = Some True \<longleftrightarrow> podID \<notin> set ps \<and> (h \<or> kubeDir \<in> set ps)"
  by (induction ps arbitrary: h) auto

lemma strip_pod_prefix_Some:
  "strip_pod_prefix ps podID = Some i \<Longrightarrow> \<exists>p \<in> set ps. podID = p @ i \<and> i \<noteq> []"
  by (induction ps) (auto simp: TrimPrefix_def HasPrefix_iff Let_def split: if_splits)

lemma HasPrefix_member: "p \<in> set ps \<Longrightarrow> \<exists>x \<in> set ps. HasPrefix (p @ s) x"
  using HasPrefix_append by blast

lemma container_of_path_Some:
  assumes "container_of_path r fns path name = Some (k, mt)"
  shows "(mt, name) \<in> set fns"
    and "ck_ContainerID k \<noteq> ''''" "ck_PodUID k \<noteq> ''''"
    and "rd_ParentDirectories r = [] \<or> filepath_Base (filepath_Dir (filepath_Dir (filepath_Dir path))) \<in> set (rd_ParentDirectories r)"
    and "\<exists>p \<in> set (rd_PodPrefix r). HasPrefix (filepath_Base (filepath_Dir (filepath_Dir path))) p"
  using assms
  by (auto simp: container_of_path_def Let_def check_parents_iff
      intro!: HasPrefix_member dest!: strip_pod_prefix_Some find_SomeD split: option.splits bool.splits if_splits)

text \<open>
  C25. The container cache: when no walk fails, a file is recorded for a container and a metric type exactly when
  some visited entry is such a file; what is recorded is a visited file with the name of that metric type,
  the container's identifiers are not empty, its pod directory carries a configured prefix, and the
  directory above is one of the allowed parents (when there are any).
\<close>

theorem container_files_exact:
  assumes "\<forall>p \<in> set paths. \<forall>e \<in> set (fs_WalkDir fs p). snd (snd e) \<noteq> Some OtherError"
  shows "case recorded (getContainers r fs paths fns) k mt of
       None \<Rightarrow> \<not> (\<exists>p \<in> set paths. \<exists>e \<in> set (fs_WalkDir fs p). file_of r fns k mt e)
     | Some path \<Rightarrow> \<exists>p \<in> set paths. \<exists>name. (path, name, None) \<in> set (fs_WalkDir fs p)
         \<and> (mt, name) \<in> set fns \<and> ck_ContainerID k \<noteq> '''' \<and> ck_PodUID k \<noteq> ''''
         \<and> (\<exists>pfx \<in> set (rd_PodPrefix r). HasPrefix (filepath_Base (filepath_Dir (filepath_Dir path))) pfx)
         \<and> (rd_ParentDirectories r = []
             \<or> filepath_Base (filepath_Dir (filepath_Dir (filepath_Dir path))) \<in> set (rd_ParentDirectories r))"
proof (cases "find (file_of r fns k mt) (rev (concat (map (fs_WalkDir fs) paths)))")
  case None
  then have "recorded (getContainers r fs paths fns) k mt = None" by (simp only: getContainers_recorded [OF assms] option.map)
  with None show ?thesis by (auto simp: find_None_iff)
next
  case (Some e)
  then have "e \<in> set (concat (map (fs_WalkDir fs) paths))" "file_of r fns k mt e"
    by (auto dest: find_SomeD)
  then obtain p name where e: "p \<in> set paths" "e = (fst e, name, None)" "e \<in> set (fs_WalkDir fs p)"
    "container_of_path r fns (fst e) name = Some (k, mt)"
    by (auto simp: file_of_def) (metis prod.collapse)
  have "recorded (getContainers r fs paths fns) k mt = Some (fst e)"
    using Some by (simp add: getContainers_recorded [OF assms])
  moreover have "(fst e, name, None) \<in> set (fs_WalkDir fs p)" using e(2,3) by simp
  ultimately show ?thesis
    using container_of_path_Some [OF e(4)] e(1) by (simp only: option.case) blast
qed

definition ex_reader :: reader where
  "ex_reader = \<lparr>rd_CGroupVersion = ''v2'', rd_CPUPaths = [''cg''], rd_MemoryPaths = [''cg''], rd_PodPrefix = [''pod''],
     rd_PodSuffix = [], rd_ContainerPrefix = [], rd_ContainerSuffix = [], rd_PodReplacements = [], rd_ContainerReplacements = [],
     rd_ParentDirectories = [''kubepods''], rd_NodeAggregationLevelGlobs = [], rd_MinCPUCoresNanoSec = 0,
     rd_MaxCPUCoresNanoSec = 100, rd_DropFirstValue = None\<rparr>"

definition ex_walk :: fileSystem where
  "ex_walk = (ex_fs [])\<lparr>fs_WalkDir := (\<lambda>p. [(''kubepods'', ''kubepods'', None), (''gone'', ''gone'', Some NotExist),
     (''kubepods/podu/c/cpu.stat'', ''cpu.stat'', None)])\<rparr>"

theorem container_files_exact_witness:
  "recorded (getContainers ex_reader ex_walk [''cg''] (cpuFilenames ex_reader))
     (ContainerKey_zero\<lparr>ck_ContainerID := ''c'', ck_PodUID := ''u''\<rparr>) CPUUsage \<noteq> None"
proof -
  let ?k = "ContainerKey_zero\<lparr>ck_ContainerID := ''c'', ck_PodUID := ''u''\<rparr>"
  have "file_of ex_reader (cpuFilenames ex_reader) ?k CPUUsage (''kubepods/podu/c/cpu.stat'', ''cpu.stat'', None)"
    by code_simp
  moreover have "\<forall>p \<in> set [''cg'']. \<forall>e \<in> set (fs_WalkDir ex_walk p). snd (snd e) \<noteq> Some OtherError"
    by (simp add: ex_walk_def)
  note container_files_exact [OF this, of ex_reader "cpuFilenames ex_reader" ?k CPUUsage]
  ultimately show ?thesis by (auto simp: ex_walk_def split: option.splits)
qed

end
