(* ===== verification/Sample_Cache.thy ===== *)
theory Sample_Cache
  imports Cgroup_Reader
begin

text \<open>
  The sampler's cache, \<^verbatim>\<open>pkg/sampler/cache.go\<close>: a ring of the last samples (\<^verbatim>\<open>container/ring\<close>), the rates derived
  from the cumulative counters of two samples, and the summary over the ring. Counters are \<^verbatim>\<open>uint64\<close> and wrap.
  The runtime's statistics, the cAdvisor client and the implementation-defined conversion of a float out
  of range are arguments.
\<close>

section \<open>Ring\<close>

record 'a ring =
  rg_slots :: "'a option list"
  rg_pos :: nat

definition ring_New :: "nat \<Rightarrow> 'a ring" where
  "ring_New n = \<lparr>rg_slots = replicate n None, rg_pos = 0\<rparr>"

definition ring_Next :: "'a ring \<Rightarrow> 'a ring" where
  "ring_Next r = r\<lparr>rg_pos := Suc (rg_pos r) mod length (rg_slots r)\<rparr>"

definition ring_set :: "'a \<Rightarrow> 'a ring \<Rightarrow> 'a ring" where
  "ring_set x r = r\<lparr>rg_slots := (rg_slots r)[rg_pos r := Some x]\<rparr>"

definition ring_Value :: "'a ring \<Rightarrow> 'a option" where
  "ring_Value r = rg_slots r ! rg_pos r"

text \<open>The values \<^verbatim>\<open>Do\<close> calls its function on, in order.\<close>

definition ring_Do :: "'a ring \<Rightarrow> 'a option list" where
  "ring_Do r = map (\<lambda>i. rg_slots r ! ((rg_pos r + i) mod length (rg_slots r))) [0..<length (rg_slots r)]"

section \<open>Samples\<close>

record cadvisorNetworkStats =
  nw_RxBytes :: u64
  nw_RxPackets :: u64
  nw_RxErrors :: u64
  nw_RxDropped :: u64
  nw_TxBytes :: u64
  nw_TxPackets :: u64
  nw_TxErrors :: u64
  nw_TxDropped :: u64

definition nw_zero :: cadvisorNetworkStats where
  "nw_zero = \<lparr>nw_RxBytes = 0, nw_RxPackets = 0, nw_RxErrors = 0, nw_RxDropped = 0,
     nw_TxBytes = 0, nw_TxPackets = 0, nw_TxErrors = 0, nw_TxDropped = 0\<rparr>"

record sampleInstant =
  si_Time :: gotime
  si_MemoryBytes :: u64
  si_CumulativeCPUUsec :: u64
  si_CumulativeCPUThrottlingUsec :: u64
  si_CumulativeCPUPeriods :: u64
  si_CumulativeCPUThrottledPeriods :: u64
  si_CumulativeMemoryOOM :: u64
  si_CumulativeMemoryOOMKill :: u64
  si_MemoryOOM :: u64
  si_MemoryOOMKill :: u64
  si_HasCPUData :: bool
  si_CPUCoresNanoSec :: u64
  si_CPUThrottledUSec :: u64
  si_CPUPercentPeriodsThrottled :: float64
  si_CPUPeriodsSec :: u64
  si_CPUThrottledPeriodsSec :: u64
  si_CAdvisorNetworkStats :: "cadvisorNetworkStats option"

definition si_zero :: sampleInstant where
  "si_zero = \<lparr>si_Time = 0, si_MemoryBytes = 0, si_CumulativeCPUUsec = 0, si_CumulativeCPUThrottlingUsec = 0,
     si_CumulativeCPUPeriods = 0, si_CumulativeCPUThrottledPeriods = 0, si_CumulativeMemoryOOM = 0,
     si_CumulativeMemoryOOMKill = 0, si_MemoryOOM = 0, si_MemoryOOMKill = 0, si_HasCPUData = False,
     si_CPUCoresNanoSec = 0, si_CPUThrottledUSec = 0, si_CPUPercentPeriodsThrottled = Fin 0, si_CPUPeriodsSec = 0,
     si_CPUThrottledPeriodsSec = 0, si_CAdvisorNetworkStats = None\<rparr>"

record sampleInstants =
  ss_containers :: "(ContainerKey, sampleInstant) gomap"
  ss_node :: "(string, sampleInstant) gomap"

record sampleResult =
  sr_values :: "sampleInstant list"
  sr_avg :: sampleInstant

record allSampleInstants =
  al_containers :: "(ContainerKey, sampleResult) gomap"
  al_node :: "(string, sampleResult) gomap"

record sampleCache =
  ca_Size :: nat
  ca_metricsReader :: metricsReader
  ca_samples :: "sampleInstants ring"
  ca_UseContainerMonitor :: bool
  ca_UseCadvisorMonitor :: bool

definition cache_init :: "reader \<Rightarrow> sampleCache \<Rightarrow> sampleCache" where
  "cache_init readerConfig s =
     s\<lparr>ca_metricsReader := (ca_metricsReader s)\<lparr>mr_Reader := readerConfig\<rparr>, ca_samples := ring_New (ca_Size s)\<rparr>"

definition AddSample :: "sampleCache \<Rightarrow> sampleInstants \<Rightarrow> sampleCache" where
  "AddSample s results = s\<lparr>ca_samples := ring_set results (ring_Next (ca_samples s))\<rparr>"

definition lastSampleForContainer :: "sampleCache \<Rightarrow> ContainerKey \<Rightarrow> sampleInstant" where
  "lastSampleForContainer s k =
     (case ring_Value (ca_samples s) of
        None \<Rightarrow> si_zero
      | Some prev \<Rightarrow> (case map_of (ss_containers prev) k of Some result \<Rightarrow> result | None \<Rightarrow> si_zero))"

definition lastSampleForNode :: "sampleCache \<Rightarrow> (string, sampleInstant) gomap" where
  "lastSampleForNode s = (case ring_Value (ca_samples s) of None \<Rightarrow> [] | Some prev \<Rightarrow> ss_node prev)"

section \<open>Rates\<close>

definition getSeconds :: "sampleInstant \<Rightarrow> sampleInstant \<Rightarrow> float64" where
  "getSeconds old new = Seconds (time_sub (si_Time new) (si_Time old))"

definition normalizeSeconds :: "(float64 \<Rightarrow> u64) \<Rightarrow> u64 \<Rightarrow> u64 \<Rightarrow> float64 \<Rightarrow> u64" where
  "normalizeSeconds conv old new sec = f64_to_u64 conv (f64_max (f64_div (f64_of_u64 (new - old)) sec) (Fin 0))"

definition computeSampleDelta :: "(float64 \<Rightarrow> u64) \<Rightarrow> sampleInstant \<Rightarrow> sampleInstant \<Rightarrow> sampleInstant" where
  "computeSampleDelta conv prev sample =
     (if IsZero (si_Time prev) then sample
      else
        (let sec = getSeconds prev sample;
             deltaPeriods = f64_sub (f64_of_u64 (si_CumulativeCPUPeriods sample)) (f64_of_u64 (si_CumulativeCPUPeriods prev));
             sample = sample\<lparr>
               si_HasCPUData := True,
               si_CPUCoresNanoSec := normalizeSeconds conv (si_CumulativeCPUUsec prev) (si_CumulativeCPUUsec sample) sec,
               si_CPUThrottledUSec :=
                 normalizeSeconds conv (si_CumulativeCPUThrottlingUsec prev) (si_CumulativeCPUThrottlingUsec sample) sec,
               si_CPUPeriodsSec := normalizeSeconds conv (si_CumulativeCPUPeriods prev) (si_CumulativeCPUPeriods sample) sec,
               si_CPUThrottledPeriodsSec :=
                 normalizeSeconds conv (si_CumulativeCPUThrottledPeriods prev) (si_CumulativeCPUThrottledPeriods sample) sec\<rparr>;
             sample = (if f64_neq0 deltaPeriods
                       then sample\<lparr>si_CPUPercentPeriodsThrottled :=
                              f64_div (f64_sub (f64_of_u64 (si_CumulativeCPUThrottledPeriods sample))
                                               (f64_of_u64 (si_CumulativeCPUThrottledPeriods prev))) deltaPeriods\<rparr>
                       else sample)
         in sample\<lparr>si_MemoryOOM := si_CumulativeMemoryOOM sample - si_CumulativeMemoryOOM prev,
                   si_MemoryOOMKill := si_CumulativeMemoryOOMKill sample - si_CumulativeMemoryOOMKill prev\<rparr>))"

definition metricToSample ::
  "(float64 \<Rightarrow> u64) \<Rightarrow> sampleCache \<Rightarrow> sampleInstant \<Rightarrow> containerCPUMetrics \<Rightarrow> containerMemoryMetrics \<Rightarrow> sampleInstant" where
  "metricToSample conv s prev cpu memory =
     computeSampleDelta conv prev
       (si_zero\<lparr>si_Time := cu_Time cpu,
          si_CumulativeCPUUsec := cu_UsageNanoSec cpu,
          si_CumulativeCPUThrottlingUsec := th_ThrottledNanoSec cpu,
          si_CumulativeCPUPeriods := th_TotalPeriods cpu,
          si_CumulativeCPUThrottledPeriods := th_ThrottledPeriods cpu,
          si_MemoryBytes := (if IsCgroupV2 (mr_Reader (ca_metricsReader s)) then mm_Current memory else mm_RSS memory + mm_Cache memory),
          si_CumulativeMemoryOOMKill := mm_OOMKills memory,
          si_CumulativeMemoryOOM := mm_OOMs memory\<rparr>)"

definition containerToSample ::
  "(float64 \<Rightarrow> u64) \<Rightarrow> sampleCache \<Rightarrow> ContainerKey \<Rightarrow> containerCPUMetrics \<Rightarrow> containerMemoryMetrics \<Rightarrow> sampleInstant" where
  "containerToSample conv s k cpu memory = metricToSample conv s (lastSampleForContainer s k) cpu memory"

definition nodeToSample ::
  "(float64 \<Rightarrow> u64) \<Rightarrow> sampleCache \<Rightarrow> (string, containerCPUMetrics) gomap \<Rightarrow> (string, containerMemoryMetrics) gomap \<Rightarrow>
   (string, sampleInstant) gomap" where
  "nodeToSample conv s cpu memory =
     (let prev = lastSampleForNode s
      in foldl (\<lambda>samples (level, c).
            AList.update level (metricToSample conv s (gget si_zero prev level) c (gget mem_zero memory level)) samples) [] cpu)"

section \<open>Summary\<close>

definition drop_first :: "sampleCache \<Rightarrow> bool" where
  "drop_first s = (case rd_DropFirstValue (mr_Reader (ca_metricsReader s)) of None \<Rightarrow> False | Some b \<Rightarrow> b)"

definition summary_values :: "bool \<Rightarrow> sampleInstant list \<Rightarrow> sampleInstant list" where
  "summary_values dropFirstRecord vs = (if dropFirstRecord then tl vs else vs)"

definition nw_add :: "cadvisorNetworkStats \<Rightarrow> cadvisorNetworkStats \<Rightarrow> cadvisorNetworkStats" where
  "nw_add a b = \<lparr>nw_RxBytes = nw_RxBytes a + nw_RxBytes b, nw_RxPackets = nw_RxPackets a + nw_RxPackets b,
     nw_RxErrors = nw_RxErrors a + nw_RxErrors b, nw_RxDropped = nw_RxDropped a + nw_RxDropped b,
     nw_TxBytes = nw_TxBytes a + nw_TxBytes b, nw_TxPackets = nw_TxPackets a + nw_TxPackets b,
     nw_TxErrors = nw_TxErrors a + nw_TxErrors b, nw_TxDropped = nw_TxDropped a + nw_TxDropped b\<rparr>"

definition nw_div :: "cadvisorNetworkStats \<Rightarrow> u64 \<Rightarrow> cadvisorNetworkStats" where
  "nw_div a n = \<lparr>nw_RxBytes = nw_RxBytes a div n, nw_RxPackets = nw_RxPackets a div n,
     nw_RxErrors = nw_RxErrors a div n, nw_RxDropped = nw_RxDropped a div n,
     nw_TxBytes = nw_TxBytes a div n, nw_TxPackets = nw_TxPackets a div n,
     nw_TxErrors = nw_TxErrors a div n, nw_TxDropped = nw_TxDropped a div n\<rparr>"

definition populateCadvisorSummary :: "sampleResult \<Rightarrow> bool \<Rightarrow> sampleResult" where
  "populateCadvisorSummary sr dropFirstRecord =
     (let (n, tot) = foldl (\<lambda>(n, tot) v. case si_CAdvisorNetworkStats v of
                                             None \<Rightarrow> (n, tot)
                                           | Some st \<Rightarrow> (n + 1, nw_add tot st))
                       (0 :: u64, nw_zero) (summary_values dropFirstRecord (sr_values sr))
      in if n > 0 then sr\<lparr>sr_avg := (sr_avg sr)\<lparr>si_CAdvisorNetworkStats := Some (nw_div tot n)\<rparr>\<rparr> else sr)"

definition sum_u64 :: "u64 list \<Rightarrow> u64" where
  "sum_u64 xs = foldl (+) 0 xs"

definition populateSummary :: "(float64 \<Rightarrow> u64) \<Rightarrow> sampleCache \<Rightarrow> sampleResult \<Rightarrow> sampleResult" where
  "populateSummary conv s sr =
     (if length (sr_values sr) < 2 then sr
      else
        (let r = mr_Reader (ca_metricsReader s);
             avg = computeSampleDelta conv (hd (sr_values sr)) (last (sr_values sr));
             vs = summary_values (drop_first s) (sr_values sr);
             l = sum_u64 (map (\<lambda>_. 1) vs);
             mem = sum_u64 (map si_MemoryBytes vs);
             cpuCoresNanoSec = sum_u64 (map si_CPUCoresNanoSec vs);
             cpuThrottledUSec = sum_u64 (map si_CPUThrottledUSec vs);
             anomalous = (\<lambda>x. length (sr_values sr) < ca_Size s \<or> x > rd_MaxCPUCoresNanoSec r
                               \<or> int64_of x < rd_MinCPUCoresNanoSec r);
             avg = avg\<lparr>si_MemoryBytes := mem div l\<rparr>;
             avg = (if anomalous (si_CPUCoresNanoSec avg) then avg\<lparr>si_CPUCoresNanoSec := cpuCoresNanoSec div l\<rparr> else avg);
             avg = (if anomalous (si_CPUThrottledUSec avg) then avg\<lparr>si_CPUThrottledUSec := cpuThrottledUSec div l\<rparr> else avg)
         in populateCadvisorSummary (sr\<lparr>sr_avg := avg\<rparr>) (drop_first s)))"

definition sample_ok :: "sampleCache \<Rightarrow> sampleInstant \<Rightarrow> bool" where
  "sample_ok s v \<longleftrightarrow>
     si_HasCPUData v
     \<and> \<not> si_CPUCoresNanoSec v > rd_MaxCPUCoresNanoSec (mr_Reader (ca_metricsReader s))
     \<and> \<not> si_CPUThrottledUSec v > rd_MaxCPUCoresNanoSec (mr_Reader (ca_metricsReader s))"

definition index_samples :: "sampleCache \<Rightarrow> ('k, sampleResult) gomap \<Rightarrow> ('k, sampleInstant) gomap \<Rightarrow> ('k, sampleResult) gomap" where
  "index_samples s index m =
     foldl (\<lambda>index (k, v).
        if \<not> sample_ok s v then index
        else (let c = gget \<lparr>sr_values = [], sr_avg = si_zero\<rparr> index k
              in AList.update k (c\<lparr>sr_values := sr_values c @ [v]\<rparr>) index)) index m"

definition getAllSamples :: "(float64 \<Rightarrow> u64) \<Rightarrow> sampleCache \<Rightarrow> allSampleInstants \<times> nat" where
  "getAllSamples conv s =
     (let samples = List.map_filter (\<lambda>x. x) (ring_Do (ring_Next (ca_samples s)));
          containers = foldl (\<lambda>index sample. index_samples s index (ss_containers sample)) [] samples;
          node = foldl (\<lambda>index sample. index_samples s index (ss_node sample)) [] samples
      in (\<lparr>al_containers = map (\<lambda>(k, c). (k, populateSummary conv s c)) containers,
           al_node = map (\<lambda>(k, c). (k, populateSummary conv s c)) node\<rparr>, length samples))"

section \<open>cAdvisor\<close>

text \<open>A sample of the metric vector: its labels, its value and its timestamp.\<close>

record cadvisorSample =
  cv_Metric :: strmap
  cv_Value :: float64
  cv_Timestamp :: gotime

definition containerKeyFromSampleMetric :: "strmap \<Rightarrow> ContainerKey" where
  "containerKeyFromSampleMetric metric =
     (let tokens = SplitChar (CHR ''/'') (sget metric ''id'');
          podUID = (if length tokens > 3 then TrimPrefix (tokens ! 3) ''pod'' else '''')
      in ContainerKey_zero\<lparr>ck_ContainerID := sget metric ''name'', ck_NamespaceName := sget metric ''namespace'',
           ck_PodName := sget metric ''pod'', ck_PodUID := podUID\<rparr>)"

definition add_network :: "string \<Rightarrow> u64 \<Rightarrow> cadvisorNetworkStats \<Rightarrow> cadvisorNetworkStats" where
  "add_network name v st =
     (if name = ''container_network_receive_bytes_total'' then st\<lparr>nw_RxBytes := nw_RxBytes st + v\<rparr>
      else if name = ''container_network_receive_packets_total'' then st\<lparr>nw_RxPackets := nw_RxPackets st + v\<rparr>
      else if name = ''container_network_receive_packets_dropped_total'' then st\<lparr>nw_RxDropped := nw_RxDropped st + v\<rparr>
      else if name = ''container_network_receive_errors_total'' then st\<lparr>nw_RxErrors := nw_RxErrors st + v\<rparr>
      else if name = ''container_network_transmit_bytes_total'' then st\<lparr>nw_TxBytes := nw_TxBytes st + v\<rparr>
      else if name = ''container_network_transmit_packets_total'' then st\<lparr>nw_TxPackets := nw_TxPackets st + v\<rparr>
      else if name = ''container_network_transmit_packets_dropped_total'' then st\<lparr>nw_TxDropped := nw_TxDropped st + v\<rparr>
      else if name = ''container_network_transmit_errors_total'' then st\<lparr>nw_TxErrors := nw_TxErrors st + v\<rparr>
      else st)"

definition sampleInstantsFromMetricVector ::
  "(float64 \<Rightarrow> u64) \<Rightarrow> cadvisorSample list \<Rightarrow> (ContainerKey, sampleInstant) gomap \<Rightarrow> (ContainerKey, sampleInstant) gomap" where
  "sampleInstantsFromMetricVector conv vector containers =
     foldl (\<lambda>containers sample.
        let key = containerKeyFromSampleMetric (cv_Metric sample);
            v = f64_to_u64 conv (cv_Value sample)
        in if ck_PodUID key = '''' then containers
           else if v = 0 then containers
           else (let c = gget si_zero containers key;
                     st = (case si_CAdvisorNetworkStats c of None \<Rightarrow> nw_zero | Some st \<Rightarrow> st);
                     c = (if si_Time c < cv_Timestamp sample then c\<lparr>si_Time := cv_Timestamp sample\<rparr> else c);
                     c = c\<lparr>si_CAdvisorNetworkStats := Some (add_network (sget (cv_Metric sample) ''__name__'') v st)\<rparr>
                 in AList.update key c containers)) containers vector"

text \<open>The client is \<^const>\<open>None\<close> where it is nil; its own result is \<^const>\<open>None\<close> where it fails.\<close>

definition fetchCAdvisorMetrics ::
  "(float64 \<Rightarrow> u64) \<Rightarrow> cadvisorSample list option option \<Rightarrow> (ContainerKey, sampleInstant) gomap \<Rightarrow>
   gofail + (ContainerKey, sampleInstant) gomap" where
  "fetchCAdvisorMetrics conv client containers =
     (case client of
        None \<Rightarrow> Inr containers
      | Some None \<Rightarrow> Inl GoError
      | Some (Some vector) \<Rightarrow> Inr (sampleInstantsFromMetricVector conv vector containers))"

section \<open>The container runtime\<close>

text \<open>
  Statistics of one container from containerd, for either cgroup version: a part that is missing is
  \<^const>\<open>None\<close>. The usage total is in nanoseconds for v1 and in microseconds for v2.
\<close>

record runtimeStats =
  rs_CPU :: "(u64 \<times> u64 \<times> u64 \<times> u64) option"
  rs_Memory :: "(u64 \<times> u64) option"
  rs_OOM :: "(u64 \<times> u64) option"

definition cmStatsToCPUResultV1 :: "runtimeStats \<Rightarrow> gotime \<Rightarrow> containerCPUMetrics" where
  "cmStatsToCPUResultV1 stats readTime =
     (case rs_CPU stats of
        None \<Rightarrow> cpu_zero
      | Some (usageTotal, throttledTime, throttledPeriods, periods) \<Rightarrow>
          \<lparr>cu_Time = readTime, cu_UsageNanoSec = usageTotal, th_ThrottledNanoSec = throttledTime,
           th_ThrottledPeriods = throttledPeriods, th_TotalPeriods = periods\<rparr>)"

definition cmStatsToCPUResultV2 :: "runtimeStats \<Rightarrow> gotime \<Rightarrow> containerCPUMetrics" where
  "cmStatsToCPUResultV2 stats readTime =
     (case rs_CPU stats of
        None \<Rightarrow> cpu_zero
      | Some (usageUsec, throttledUsec, nrThrottled, nrPeriods) \<Rightarrow>
          \<lparr>cu_Time = readTime, cu_UsageNanoSec = usageUsec * 1000, th_ThrottledNanoSec = throttledUsec * 1000,
           th_ThrottledPeriods = nrThrottled, th_TotalPeriods = nrPeriods\<rparr>)"

definition with_oom :: "runtimeStats \<Rightarrow> containerMemoryMetrics \<Rightarrow> containerMemoryMetrics" where
  "with_oom stats m =
     (case rs_OOM stats of None \<Rightarrow> m | Some (oomKill, oom) \<Rightarrow> m\<lparr>mm_OOMKills := oomKill, mm_OOMs := oom\<rparr>)"

definition cmStatsToMemoryResultV1 :: "runtimeStats \<Rightarrow> gotime \<Rightarrow> containerMemoryMetrics" where
  "cmStatsToMemoryResultV1 stats readTime =
     (case rs_Memory stats of
        None \<Rightarrow> mem_zero
      | Some (rss, pageCache) \<Rightarrow> with_oom stats (mem_zero\<lparr>mm_Time := readTime, mm_RSS := rss, mm_Cache := pageCache\<rparr>))"

definition cmStatsToMemoryResultV2 :: "runtimeStats \<Rightarrow> gotime \<Rightarrow> containerMemoryMetrics" where
  "cmStatsToMemoryResultV2 stats readTime =
     (case rs_Memory stats of
        None \<Rightarrow> mem_zero
      | Some (usage, _) \<Rightarrow> with_oom stats (mem_zero\<lparr>mm_Time := readTime, mm_Current := usage\<rparr>))"

text \<open>
  \<^verbatim>\<open>containers\<close> is what containerd lists (\<^const>\<open>None\<close> if that fails): for each container its key and its
  statistics, \<^const>\<open>None\<close> where they cannot be read.
\<close>

definition initCM :: "fileSystem \<Rightarrow> metricsReader \<Rightarrow> gofail option \<times> metricsReader" where
  "initCM fs r =
     (case mr_once r of
        Some err \<Rightarrow> (err, r)
      | None \<Rightarrow>
         (let (ok, r) = loadNodeLevelMetricFilePaths fs r; err = (if ok then None else Some GoError)
          in (err, r\<lparr>mr_once := Some err\<rparr>)))"

type_synonym cpu_and_memory =
  "gofail + (ContainerKey, containerCPUMetrics) gomap \<times> (ContainerKey, containerMemoryMetrics) gomap"

definition getContainerCPUAndMemoryCM ::
  "fileSystem \<Rightarrow> (ContainerKey \<times> runtimeStats option) list option \<Rightarrow> metricsReader \<Rightarrow> cpu_and_memory \<times> metricsReader" where
  "getContainerCPUAndMemoryCM fs containers r =
     (case containers of
        None \<Rightarrow> (Inl GoError, r)
      | Some cs \<Rightarrow>
         (let (err, r) = initCM fs r in
          case err of
            Some e \<Rightarrow> (Inl e, r)
          | None \<Rightarrow>
             (let v2 = IsCgroupV2 (mr_Reader r);
                  (cpu, mem, known) =
                    foldl (\<lambda>(cpu, mem, known) (k, st).
                       case st of
                         None \<Rightarrow> (cpu, mem, known)
                       | Some st \<Rightarrow>
                          (let t = fs_readTime fs (ck_PodUID k @ ''/'' @ ck_ContainerID k) in
                           (AList.update k ((if v2 then cmStatsToCPUResultV2 else cmStatsToCPUResultV1) st t) cpu,
                            AList.update k ((if v2 then cmStatsToMemoryResultV2 else cmStatsToMemoryResultV1) st t) mem,
                            List.insert (ck_PodUID k) known))) ([], [], []) cs
              in (Inr (cpu, mem), r\<lparr>mr_knownContainersSet := Some known\<rparr>))))"

definition getContainerCPUAndMemory :: "fileSystem \<Rightarrow> metricsReader \<Rightarrow> cpu_and_memory \<times> metricsReader" where
  "getContainerCPUAndMemory fs r =
     (case GetContainerCPUMetrics fs r of
        (Inl e, r) \<Rightarrow> (Inl e, r)
      | (Inr cpu, r) \<Rightarrow>
          if length cpu = 0 then (Inr ([], []), r)
          else (case GetContainerMemoryMetrics fs r of
                  (Inl e, r) \<Rightarrow> (Inl e, r)
                | (Inr memory, r) \<Rightarrow> (Inr (if length memory = 0 then ([], []) else (cpu, memory)), r)))"

section \<open>Fetching a sample\<close>

record samplerInputs =
  in_fs :: fileSystem
  in_containerd :: "(ContainerKey \<times> runtimeStats option) list option"
  in_cadvisor :: "cadvisorSample list option option"

definition read_levels ::
  "(metricFiles \<Rightarrow> gofail + 'm) \<Rightarrow> (string, metricFiles) gomap \<Rightarrow> gofail + (string, 'm) gomap" where
  "read_levels get files =
     rfold (\<lambda>ms (level, fs). case get fs of Inl e \<Rightarrow> Inl e | Inr m \<Rightarrow> Inr (AList.update level m ms)) [] files"

definition sample_containers ::
  "(float64 \<Rightarrow> u64) \<Rightarrow> samplerInputs \<Rightarrow> sampleCache \<Rightarrow> (ContainerKey, containerCPUMetrics) gomap \<Rightarrow>
   (ContainerKey, containerMemoryMetrics) gomap \<Rightarrow> gofail + (ContainerKey, sampleInstant) gomap" where
  "sample_containers conv i s cpuMetrics memoryMetrics =
     (let containers = foldl (\<lambda>m (key, cpu). AList.update key
                                (containerToSample conv s key cpu (gget mem_zero memoryMetrics key)) m) [] cpuMetrics
      in if ca_UseCadvisorMonitor s then fetchCAdvisorMetrics conv (in_cadvisor i) containers else Inr containers)"

text \<open>The first component is the error that \<^verbatim>\<open>fetchSample\<close> returns (or its panic).\<close>

definition fetchSample :: "(float64 \<Rightarrow> u64) \<Rightarrow> samplerInputs \<Rightarrow> sampleCache \<Rightarrow> gofail option \<times> sampleCache" where
  "fetchSample conv i s =
     (let (res, r) = (if ca_UseContainerMonitor s
                      then getContainerCPUAndMemoryCM (in_fs i) (in_containerd i) (ca_metricsReader s)
                      else getContainerCPUAndMemory (in_fs i) (ca_metricsReader s));
          s = s\<lparr>ca_metricsReader := r\<rparr>
      in case res of
           Inl e \<Rightarrow> (Some e, s)
         | Inr (cpuMetrics, memoryMetrics) \<Rightarrow>
            (case sample_containers conv i s cpuMetrics memoryMetrics of
               Inl e \<Rightarrow> (Some e, s)
             | Inr containers \<Rightarrow>
                (case read_levels (GetLevelCPUMetrics (mr_Reader r) (in_fs i)) (mr_nodeCPUFiles r) of
                   Inl e \<Rightarrow> (Some e, s)
                 | Inr nodeCPU \<Rightarrow>
                    (case read_levels (GetLevelMemMetrics (mr_Reader r) (in_fs i)) (mr_nodeMemoryFiles r) of
                       Inl e \<Rightarrow> (Some e, s)
                     | Inr nodeMemory \<Rightarrow>
                         (None, AddSample s \<lparr>ss_containers = containers, ss_node = nodeToSample conv s nodeCPU nodeMemory\<rparr>)))))"

end
