(* ===== verification/Cadvisor_Client.thy ===== *)
theory Cadvisor_Client
  imports Sample_Cache
begin

text \<open>
  The client of cAdvisor, \<^verbatim>\<open>pkg/cadvisor/client/client.go\<close>, and what becomes of its metrics in the sample of a
  node: the network counters of every container are the sums of the samples that carry its key. HTTP and the
  decoder of the exposition format are arguments; a body is the list of what the decoder reads from it, an
  error or a vector of samples, and its end is the end of the file.
\<close>

section \<open>The client\<close>

record httpResponse =
  hr_StatusCode :: int
  hr_Status :: string
  hr_Body :: "(string + cadvisorSample list) list"

record httpMetricsClient =
  hc_Client :: "(string \<Rightarrow> strmap \<Rightarrow> string + httpResponse) option"
  hc_URL :: string

definition NewHttpMetricsClient :: "(string \<Rightarrow> strmap \<Rightarrow> string + httpResponse) option \<Rightarrow> string \<Rightarrow> httpMetricsClient" where
  "NewHttpMetricsClient client url = \<lparr>hc_Client = client, hc_URL = url\<rparr>"

definition headers :: strmap where
  "headers =
     [(''Accept'', ''application/openmetrics-text;version=1.0.0,application/openmetrics-text;version=0.0.1;q=0.75,text/plain;version=0.0.4;q=0.5,*/*;q=0.1''),
      (''User-Agent'', ''sampler''),
      (''X-Prometheus-Scrape-Timeout-Seconds'', ''60'')]"

text \<open>\<^verbatim>\<open>NewRequest\<close> is the error of an URL, if any. The number is that of bodies that are open when the function returns.\<close>

definition http_open ::
  "(string \<Rightarrow> string option) \<Rightarrow> httpMetricsClient \<Rightarrow> (string + (string + cadvisorSample list) list) \<times> nat" where
  "http_open NewRequest c =
     (case hc_Client c of
        None \<Rightarrow> (Inl ''uninitialized http client'', 0)
      | Some Do \<Rightarrow>
         (case NewRequest (hc_URL c) of
            Some err \<Rightarrow> (Inl err, 0)
          | None \<Rightarrow>
             (case Do (hc_URL c) headers of
                Inl err \<Rightarrow> (Inl err, 0)
              | Inr resp \<Rightarrow>
                  if hr_StatusCode resp \<noteq> 200 then (Inl (''server returned HTTP status '' @ hr_Status resp), 1)
                  else (Inr (hr_Body resp), 1))))"

fun ParseMetrics :: "cadvisorSample list \<Rightarrow> (string + cadvisorSample list) list \<Rightarrow> string + cadvisorSample list" where
  "ParseMetrics all [] = Inr all"
| "ParseMetrics all (Inl err # rest) = Inl err"
| "ParseMetrics all (Inr samples # rest) = ParseMetrics (all @ samples) rest"

definition client_Metrics :: "(string \<Rightarrow> string option) \<Rightarrow> httpMetricsClient \<Rightarrow> (string + cadvisorSample list) \<times> nat" where
  "client_Metrics NewRequest c =
     (case http_open NewRequest c of
        (Inl err, n) \<Rightarrow> (Inl err, n)
      | (Inr reader, n) \<Rightarrow> (ParseMetrics [] reader, n - 1))"

definition MetricName :: "cadvisorSample \<Rightarrow> string" where
  "MetricName sample = sget (cv_Metric sample) ''__name__''"

text \<open>What the sampler sees of a client that is not nil.\<close>

definition client_result :: "(string \<Rightarrow> string option) \<Rightarrow> httpMetricsClient \<Rightarrow> cadvisorSample list option" where
  "client_result NewRequest c = (case fst (client_Metrics NewRequest c) of Inl err \<Rightarrow> None | Inr vector \<Rightarrow> Some vector)"

lemma ParseMetrics_Inr: "ParseMetrics all fs = Inr v \<longleftrightarrow> (\<exists>vs. fs = map Inr vs \<and> v = all @ concat vs)"
proof (induction all fs rule: ParseMetrics.induct)
  case (3 all samples rest)
  show ?case
  proof
    assume "ParseMetrics all (Inr samples # rest) = Inr v"
    with 3 obtain vs where "rest = map Inr vs" "v = (all @ samples) @ concat vs" by auto
    then show "\<exists>vs. Inr samples # rest = map Inr vs \<and> v = all @ concat vs" by (intro exI [of _ "samples # vs"]) simp
  qed (use 3 in \<open>auto simp: Cons_eq_map_conv\<close>)
qed (auto simp: Cons_eq_map_conv)

lemma ParseMetrics_frames [simp]: "ParseMetrics all (map Inr vs) = Inr (all @ concat vs)"
  by (auto simp: ParseMetrics_Inr)

lemma client_result_Some:
  "client_result NewRequest c = Some v \<longleftrightarrow>
     (\<exists>Do resp vs. hc_Client c = Some Do \<and> NewRequest (hc_URL c) = None \<and> Do (hc_URL c) headers = Inr resp
        \<and> hr_StatusCode resp = 200 \<and> hr_Body resp = map Inr vs \<and> v = concat vs)"
  by (auto simp: client_result_def client_Metrics_def http_open_def ParseMetrics_Inr split: option.splits sum.splits if_splits)

text \<open>The body is closed unless the status is not the one expected: then it is left open.\<close>

theorem body_left_open:
  "snd (client_Metrics NewRequest c) = (case hc_Client c of
      Some Do \<Rightarrow> (case (NewRequest (hc_URL c), Do (hc_URL c) headers) of
                     (None, Inr resp) \<Rightarrow> if hr_StatusCode resp = 200 then 0 else 1
                   | _ \<Rightarrow> 0)
    | None \<Rightarrow> 0)"
  by (auto simp: client_Metrics_def http_open_def split: option.split sum.split)

section \<open>Network totals\<close>

definition network_fields :: "(string \<times> (cadvisorNetworkStats \<Rightarrow> u64)) list" where
  "network_fields =
     [(''container_network_receive_bytes_total'', nw_RxBytes),
      (''container_network_receive_packets_total'', nw_RxPackets),
      (''container_network_receive_packets_dropped_total'', nw_RxDropped),
      (''container_network_receive_errors_total'', nw_RxErrors),
      (''container_network_transmit_bytes_total'', nw_TxBytes),
      (''container_network_transmit_packets_total'', nw_TxPackets),
      (''container_network_transmit_packets_dropped_total'', nw_TxDropped),
      (''container_network_transmit_errors_total'', nw_TxErrors)]"

definition network_of :: "(ContainerKey, sampleInstant) gomap \<Rightarrow> ContainerKey \<Rightarrow> cadvisorNetworkStats" where
  "network_of cs k = (case si_CAdvisorNetworkStats (gget si_zero cs k) of None \<Rightarrow> nw_zero | Some st \<Rightarrow> st)"

definition sample_of :: "ContainerKey \<Rightarrow> string \<Rightarrow> cadvisorSample \<Rightarrow> bool" where
  "sample_of k name s \<longleftrightarrow> containerKeyFromSampleMetric (cv_Metric s) = k \<and> MetricName s = name"

definition total_of :: "(float64 \<Rightarrow> u64) \<Rightarrow> ContainerKey \<Rightarrow> string \<Rightarrow> cadvisorSample list \<Rightarrow> u64" where
  "total_of conv k name vector = (\<Sum>s \<leftarrow> filter (sample_of k name) vector. f64_to_u64 conv (cv_Value s))"

text \<open>The samples that leave a trace: of a pod, and not zero.\<close>

definition counted :: "(float64 \<Rightarrow> u64) \<Rightarrow> cadvisorSample \<Rightarrow> bool" where
  "counted conv s \<longleftrightarrow> ck_PodUID (containerKeyFromSampleMetric (cv_Metric s)) \<noteq> '''' \<and> f64_to_u64 conv (cv_Value s) \<noteq> 0"

lemma add_network_field:
  "(name, f) \<in> set network_fields \<Longrightarrow> f (add_network n v st) = f st + (if n = name then v else 0)"
  unfolding network_fields_def list.set insert_iff empty_iff prod.inject
  by (elim disjE conjE FalseE; hypsubst; simp add: add_network_def)

definition add_sample :: "(float64 \<Rightarrow> u64) \<Rightarrow> (ContainerKey, sampleInstant) gomap \<Rightarrow> cadvisorSample \<Rightarrow> (ContainerKey, sampleInstant) gomap" where
  "add_sample conv cs s = sampleInstantsFromMetricVector conv [s] cs"

lemma sampleInstants_fold: "sampleInstantsFromMetricVector conv vector cs = foldl (add_sample conv) cs vector"
proof -
  have "sampleInstantsFromMetricVector conv (v @ [s]) cs = add_sample conv (sampleInstantsFromMetricVector conv v cs) s" for v s
    by (simp add: add_sample_def sampleInstantsFromMetricVector_def)
  then show ?thesis by (induction vector rule: rev_induct) (simp_all add: sampleInstantsFromMetricVector_def [of _ "[]"])
qed

lemma add_sample_uncounted: "\<not> counted conv s \<Longrightarrow> add_sample conv cs s = cs"
  by (auto simp: add_sample_def sampleInstantsFromMetricVector_def counted_def Let_def)

lemma add_sample_other: "containerKeyFromSampleMetric (cv_Metric s) \<noteq> k \<Longrightarrow> map_of (add_sample conv cs s) k = map_of cs k"
  by (auto simp: add_sample_def sampleInstantsFromMetricVector_def Let_def update_conv')

lemma add_sample_key:
  assumes "counted conv s" "containerKeyFromSampleMetric (cv_Metric s) = k"
  shows "\<exists>c. map_of (add_sample conv cs s) k = Some c \<and> si_Time c = max (si_Time (gget si_zero cs k)) (cv_Timestamp s)
     \<and> si_CAdvisorNetworkStats c = Some (add_network (MetricName s) (f64_to_u64 conv (cv_Value s)) (network_of cs k))"
  using assms by (auto simp: add_sample_def sampleInstantsFromMetricVector_def counted_def Let_def update_conv' network_of_def MetricName_def)

lemma network_of_lookup: "network_of cs k = (case map_of cs k of None \<Rightarrow> nw_zero
    | Some c \<Rightarrow> (case si_CAdvisorNetworkStats c of None \<Rightarrow> nw_zero | Some st \<Rightarrow> st))"
  by (auto simp: network_of_def gget_def si_zero_def split: option.split)

lemma add_sample_field:
  assumes "(name, f) \<in> set network_fields" "ck_PodUID k \<noteq> ''''"
  shows "f (network_of (add_sample conv cs s) k) = f (network_of cs k) + (if sample_of k name s then f64_to_u64 conv (cv_Value s) else 0)"
proof (cases "containerKeyFromSampleMetric (cv_Metric s) = k")
  case k: True
  show ?thesis
  proof (cases "counted conv s")
    case True
    with k add_sample_key [OF True k, of cs] show ?thesis
      by (auto simp: network_of_lookup [of "add_sample conv cs s"] add_network_field [OF assms(1)] sample_of_def)
  next
    case False
    with k assms(2) show ?thesis by (auto simp: add_sample_uncounted counted_def)
  qed
qed (simp add: network_of_lookup add_sample_other sample_of_def)

lemma add_sample_present:
  "map_of (add_sample conv cs s) k \<noteq> None \<longleftrightarrow> map_of cs k \<noteq> None \<or> (counted conv s \<and> containerKeyFromSampleMetric (cv_Metric s) = k)"
proof (cases "counted conv s \<and> containerKeyFromSampleMetric (cv_Metric s) = k")
  case True
  then show ?thesis using add_sample_key [of conv s k cs] by auto
next
  case False
  then show ?thesis using add_sample_uncounted [of conv s cs] add_sample_other [of s k conv cs] by auto
qed

lemma sampleInstants_field:
  assumes "(name, f) \<in> set network_fields" "ck_PodUID k \<noteq> ''''"
  shows "f (network_of (sampleInstantsFromMetricVector conv v cs) k) = f (network_of cs k) + total_of conv k name v"
  unfolding sampleInstants_fold
  by (induction v arbitrary: cs) (simp_all add: total_of_def add_sample_field [OF assms])

lemma sampleInstants_present:
  "map_of (sampleInstantsFromMetricVector conv v cs) k \<noteq> None \<longleftrightarrow>
     map_of cs k \<noteq> None \<or> (\<exists>s \<in> set v. counted conv s \<and> containerKeyFromSampleMetric (cv_Metric s) = k)"
  unfolding sampleInstants_fold using add_sample_present by (induction v arbitrary: cs) auto

text \<open>What a vector of samples makes of the entry of a container.\<close>

definition network_grown ::
  "(float64 \<Rightarrow> u64) \<Rightarrow> cadvisorSample list \<Rightarrow> (ContainerKey, sampleInstant) gomap \<Rightarrow> (ContainerKey, sampleInstant) gomap \<Rightarrow> ContainerKey \<Rightarrow> bool" where
  "network_grown conv vector cs cs' k \<longleftrightarrow>
     (if ck_PodUID k = [] then map_of cs' k = map_of cs k
      else (map_of cs' k = None \<longleftrightarrow>
              map_of cs k = None \<and> \<not> list_ex (\<lambda>s. counted conv s \<and> containerKeyFromSampleMetric (cv_Metric s) = k) vector)
           \<and> list_all (\<lambda>(name, f). f (network_of cs' k) = f (network_of cs k) + total_of conv k name vector) network_fields)"

lemma sampleInstants_grown: "network_grown conv vector cs (sampleInstantsFromMetricVector conv vector cs) k"
proof (cases "ck_PodUID k = []")
  case True
  then have "map_of (add_sample conv m s) k = map_of m k" for m s
    using add_sample_other [of s k] add_sample_uncounted [of conv s m]
    by (cases "containerKeyFromSampleMetric (cv_Metric s) = k") (auto simp: counted_def)
  then have "map_of (foldl (add_sample conv) cs vector) k = map_of cs k" by (induction vector arbitrary: cs) simp_all
  with True show ?thesis by (simp add: network_grown_def sampleInstants_fold)
next
  case False
  with sampleInstants_field [of _ _ k conv vector cs] sampleInstants_present [of conv vector cs k] show ?thesis
    by (auto simp: network_grown_def list_all_iff list_ex_iff)
qed

text \<open>
  C23. From the kubelet's answer to the sample of the node: where the client gets a response with status 200 whose body
  decodes, every network counter of every container of a pod grows by the sum, with wrap-around, of all samples
  of the body that carry the container's key and the counter's name, a container that was not there is there exactly
  if some sample of it is not zero, and everything without a pod is left out. Any other answer is an error that
  leaves the sample alone.
\<close>

theorem network_totals_from_response:
  "case client_result NewRequest c of
     None \<Rightarrow> fetchCAdvisorMetrics conv (Some (client_result NewRequest c)) cs = Inl GoError
   | Some vector \<Rightarrow>
       (\<exists>Do resp vs. hc_Client c = Some Do \<and> Do (hc_URL c) headers = Inr resp \<and> hr_StatusCode resp = 200
          \<and> hr_Body resp = map Inr vs \<and> vector = concat vs)
       \<and> (\<exists>cs'. fetchCAdvisorMetrics conv (Some (client_result NewRequest c)) cs = Inr cs' \<and> (\<forall>k. network_grown conv vector cs cs' k))"
proof (cases "client_result NewRequest c")
  case (Some vector)
  with client_result_Some [of NewRequest c vector] show ?thesis
    by (simp add: fetchCAdvisorMetrics_def) (blast intro: sampleInstants_grown)
qed (simp add: fetchCAdvisorMetrics_def)

definition ex_cadvisor_sample :: "int \<Rightarrow> cadvisorSample" where
  "ex_cadvisor_sample n =
     \<lparr>cv_Metric = [(''__name__'', ''container_network_receive_bytes_total''), (''id'', ''/kubepods/burstable/podu/c''), (''name'', ''c'')],
      cv_Value = Fin (of_int n), cv_Timestamp = 1\<rparr>"

definition ex_client :: httpMetricsClient where
  "ex_client = NewHttpMetricsClient (Some (\<lambda>_ _. Inr \<lparr>hr_StatusCode = 200, hr_Status = ''200 OK'',
     hr_Body = [Inr [ex_cadvisor_sample 5], Inr [ex_cadvisor_sample 7]]\<rparr>)) ''http://node''"

theorem network_totals_from_response_witness:
  "\<exists>cs'. fetchCAdvisorMetrics (\<lambda>_. 0) (Some (client_result (\<lambda>_. None) ex_client)) [] = Inr cs'
     \<and> nw_RxBytes (network_of cs' (ContainerKey_zero\<lparr>ck_ContainerID := ''c'', ck_PodUID := ''u''\<rparr>)) = 12"
proof -
  let ?k = "ContainerKey_zero\<lparr>ck_ContainerID := ''c'', ck_PodUID := ''u''\<rparr>"
  have r: "client_result (\<lambda>_. None) ex_client = Some [ex_cadvisor_sample 5, ex_cadvisor_sample 7]"
    by (simp add: client_result_def client_Metrics_def http_open_def ex_client_def NewHttpMetricsClient_def)
  have k: "containerKeyFromSampleMetric (cv_Metric (ex_cadvisor_sample n)) = ?k" for n
    by (simp add: containerKeyFromSampleMetric_def ex_cadvisor_sample_def ContainerKey_zero_def TrimPrefix_def HasPrefix_def gget_def Let_def)
  have t: "total_of (\<lambda>_. 0) ?k ''container_network_receive_bytes_total'' [ex_cadvisor_sample 5, ex_cadvisor_sample 7] = 12"
    using k by (simp add: total_of_def sample_of_def MetricName_def ex_cadvisor_sample_def gget_def f64_to_u64_def trunc_rat_def)
  from network_totals_from_response [where NewRequest = "\<lambda>_. None" and c = ex_client and conv = "\<lambda>_. 0" and cs = "[]"]
  obtain cs' where cs': "fetchCAdvisorMetrics (\<lambda>_. 0) (Some (client_result (\<lambda>_. None) ex_client)) [] = Inr cs'"
    and "network_grown (\<lambda>_. 0) [ex_cadvisor_sample 5, ex_cadvisor_sample 7] [] cs' ?k"
    unfolding r option.case by blast
  then have "nw_RxBytes (network_of cs' ?k) = nw_RxBytes (network_of [] ?k) + 12"
    using t by (simp add: network_fields_def network_grown_def)
  with cs' show ?thesis by (simp add: network_of_lookup nw_zero_def)
qed

end
