(* ===== verification/Sample_List.thy ===== *)
theory Sample_List
  imports Labels
begin

text \<open>
  Saving samples locally, \<^verbatim>\<open>pkg/collector/local.go\<close>: the builder that records what is collected, the normal form that
  is written, and how a scrape is divided into files. A pointer to a sample is its position in the list; a file
  is the pair of its name and its contents before marshalling. The formatted time, the cluster name from the
  environment and the float functions \<^verbatim>\<open>math.Pow\<close> and \<^verbatim>\<open>math.Log\<close> are arguments.
\<close>

section \<open>Messages\<close>

record savedHistogram =
  hg_Base :: float64
  hg_BaseScale :: int
  hg_ZeroCount :: int
  hg_MaxValue :: float64
  hg_ExponentOffset :: int
  hg_BucketCounts :: "int list"

record savedMetric =
  vm_Source :: string
  vm_ResourceType :: string
  vm_Values :: "float64 list"
  vm_Histogram :: "savedHistogram option"

record savedSample =
  sa_Source :: string
  sa_Level :: string
  sa_Operation :: string
  sa_Labels :: strmap
  sa_Values :: "savedMetric list"

record sampleList =
  sl_Timestamp :: "gotime option"
  sl_Items :: "savedSample list"
  sl_Name :: string
  sl_MetricName :: string
  sl_ClusterName :: string
  sl_Type :: string

record sampleListBuilder =
  sb_Mask :: labelsMask
  sb_SourceType :: string
  sb_SampleList :: sampleList

record saveSamplesLocally =
  sv_DirectoryPath :: string
  sv_TimeFormat :: string
  sv_SaveProto :: "bool option"
  sv_SaveJSON :: "bool option"
  sv_ExcludeTimestamp :: bool
  sv_SortValues :: bool
  sv_SampleSources :: "(sources \<times> labelsMask) list"

definition zeroBuiltInMask :: builtInLabelsMask where
  "zeroBuiltInMask =
     \<lparr>bm_ContainerName = False, bm_PodName = False, bm_NamespaceName = False, bm_NodeName = False,
      bm_NodeUnschedulable = False, bm_WorkloadName = False, bm_WorkloadKind = False, bm_WorkloadAPIGroup = False,
      bm_WorkloadAPIVersion = False, bm_App = False, bm_QuotaName = False, bm_AllocationStrategy = False,
      bm_PriorityClass = False, bm_Scheduled = False, bm_Level = False, bm_PVCName = False, bm_PVName = False,
      bm_StorageClass = False, bm_CGroup = False, bm_Phase = False, bm_PVType = False,
      bm_ContainerImage = False, bm_ContainerImageID = False\<rparr>"

definition zeroMask :: labelsMask where
  "zeroMask = \<lparr>lm_Level = '''', lm_BuiltIn = zeroBuiltInMask, lm_Extensions = [], lm_Filters = [], lm_ID = 0\<rparr>"

section \<open>Building\<close>

definition newSampleListBuilder ::
  "saveSamplesLocally option \<Rightarrow> gotime \<Rightarrow> string \<Rightarrow> bool \<Rightarrow> sampleListBuilder option" where
  "newSampleListBuilder save now src createIfNoMatch =
     (case save of
        None \<Rightarrow> None
      | Some s \<Rightarrow>
         (let sb = \<lparr>sb_Mask = zeroMask, sb_SourceType = src,
                    sb_SampleList = \<lparr>sl_Timestamp = Some now, sl_Items = [], sl_Name = '''', sl_MetricName = '''',
                                     sl_ClusterName = '''', sl_Type = src\<rparr>\<rparr>
          in case find (\<lambda>(srcs, _). src_Type srcs = src) (sv_SampleSources s) of
               Some (_, mk) \<Rightarrow> Some (sb\<lparr>sb_Mask := mk\<rparr>)
             | None \<Rightarrow> if createIfNoMatch then Some sb else None))"

definition NewAggregatedSampleListBuilder :: "saveSamplesLocally option \<Rightarrow> gotime \<Rightarrow> string \<Rightarrow> sampleListBuilder option" where
  "NewAggregatedSampleListBuilder save now src = newSampleListBuilder save now src True"

definition NewSampleListBuilder :: "saveSamplesLocally option \<Rightarrow> gotime \<Rightarrow> string \<Rightarrow> sampleListBuilder option" where
  "NewSampleListBuilder save now src = newSampleListBuilder save now src False"

definition add_item :: "savedSample \<Rightarrow> sampleListBuilder \<Rightarrow> sampleListBuilder" where
  "add_item i sb = sb\<lparr>sb_SampleList := (sb_SampleList sb)\<lparr>sl_Items := sl_Items (sb_SampleList sb) @ [i]\<rparr>\<rparr>"

text \<open>\<^const>\<open>None\<close> is a panic: a mask that has no internal mask, or fewer values than names.\<close>

definition NewSample ::
  "labelState \<Rightarrow> LabelsValues \<Rightarrow> sampleListBuilder option \<Rightarrow> (nat option \<times> sampleListBuilder option) option" where
  "NewSample c labels sb =
     (case sb of
        None \<Rightarrow> Some (None, None)
      | Some b \<Rightarrow>
          do { names \<leftarrow> getLabelNames c (sb_Mask b);
               values \<leftarrow> getLabelValues c (sb_Mask b) labels;
               if length values < length names then None
               else Some (Some (length (sl_Items (sb_SampleList b))),
                          Some (add_item \<lparr>sa_Source = '''', sa_Level = '''', sa_Operation = '''',
                                  sa_Labels = foldl (\<lambda>m (k, v). AList.update k v m) [] (zip names values),
                                  sa_Values = []\<rparr> b)) })"

definition add_values :: "nat option \<Rightarrow> savedMetric \<Rightarrow> sampleListBuilder option \<Rightarrow> sampleListBuilder option" where
  "add_values s m sb =
     (case (s, sb) of
        (Some i, Some b) \<Rightarrow>
           Some (b\<lparr>sb_SampleList := (sb_SampleList b)\<lparr>sl_Items :=
              (sl_Items (sb_SampleList b))[i := (sl_Items (sb_SampleList b) ! i)
                 \<lparr>sa_Values := sa_Values (sl_Items (sb_SampleList b) ! i) @ [m]\<rparr>]\<rparr>\<rparr>)
      | _ \<Rightarrow> sb)"

definition AddQuantityValues ::
  "('q, 'd) quantity_ops \<Rightarrow> nat option \<Rightarrow> string \<Rightarrow> source \<Rightarrow> 'q list \<Rightarrow> sampleListBuilder option \<Rightarrow> sampleListBuilder option" where
  "AddQuantityValues Q s resourceType src vs sb =
     add_values s \<lparr>vm_Source = src, vm_ResourceType = resourceType, vm_Values = map (qo_AsApproximateFloat64 Q) vs, vm_Histogram = None\<rparr> sb"

definition AddIntValues ::
  "nat option \<Rightarrow> string \<Rightarrow> source \<Rightarrow> int list \<Rightarrow> sampleListBuilder option \<Rightarrow> sampleListBuilder option" where
  "AddIntValues s resourceType src vs sb =
     add_values s \<lparr>vm_Source = src, vm_ResourceType = resourceType, vm_Values = map f64_of_int vs, vm_Histogram = None\<rparr> sb"

subsection \<open>Histograms\<close>

record float_math =
  fm_Pow :: "float64 \<Rightarrow> float64 \<Rightarrow> float64"
  fm_Log :: "float64 \<Rightarrow> float64"
  fm_to_int64 :: "float64 \<Rightarrow> int"

definition bucket_index :: "float_math \<Rightarrow> exponentialBuckets \<Rightarrow> float64 \<Rightarrow> float64 \<Rightarrow> int" where
  "bucket_index fm b base val =
     int64_wrap (f64_to_i64 (fm_to_int64 fm) (f64_floor (f64_div (fm_Log fm val) (fm_Log fm base))) - eb_ExponentOffset b)"

definition bucketBase :: "float_math \<Rightarrow> exponentialBuckets \<Rightarrow> float64" where
  "bucketBase fm b = fm_Pow fm (eb_MinimumBase b) (fm_Pow fm (Fin 2) (f64_of_int (eb_Compression b)))"

definition bucketLowerBound :: "float_math \<Rightarrow> exponentialBuckets \<Rightarrow> float64" where
  "bucketLowerBound fm b = fm_Pow fm (bucketBase fm b) (f64_of_int (eb_ExponentOffset b))"

text \<open>\<^const>\<open>None\<close> is a panic: an index out of range, or a slice of negative length.\<close>

definition count_bucket ::
  "float_math \<Rightarrow> exponentialBuckets \<Rightarrow> int list \<Rightarrow> float64 \<Rightarrow> int list option" where
  "count_bucket fm b counts val =
     (if f64_less val (bucketLowerBound fm b) then Some counts
      else let i = bucket_index fm b (bucketBase fm b) val
           in if 0 \<le> i \<and> i < int (length counts) then Some (counts[nat i := counts ! nat i + 1]) else None)"

definition histogramOf :: "float_math \<Rightarrow> exponentialBuckets \<Rightarrow> float64 list \<Rightarrow> savedHistogram option" where
  "histogramOf fm b vals =
     (let lowerBound = bucketLowerBound fm b;
          maxVal = foldl f64_max NInf vals;
          h = \<lparr>hg_Base = bucketBase fm b, hg_BaseScale = int32_wrap (eb_Compression b),
               hg_ZeroCount = int (length (filter (\<lambda>val. f64_less val lowerBound) vals)), hg_MaxValue = maxVal,
               hg_ExponentOffset = int32_wrap (eb_ExponentOffset b), hg_BucketCounts = []\<rparr>
      in if eb_SaveMaxOnly b \<or> f64_less maxVal lowerBound then Some h
         else
           (let len = int64_wrap (bucket_index fm b (bucketBase fm b) maxVal + 1)
            in if len < 0 then None
               else map_option (\<lambda>counts. h\<lparr>hg_BucketCounts := counts\<rparr>)
                      (ofold (count_bucket fm b) (replicate (nat len) 0) vals)))"

definition AddHistogramValues ::
  "('q, 'd) quantity_ops \<Rightarrow> float_math \<Rightarrow> nat option \<Rightarrow> string \<Rightarrow> source \<Rightarrow> exponentialBuckets \<Rightarrow> 'q list \<Rightarrow>
   sampleListBuilder option \<Rightarrow> sampleListBuilder option option" where
  "AddHistogramValues Q fm s resourceType src buckets vs sb =
     (if sb = None then Some None
      else map_option (\<lambda>h. add_values s \<lparr>vm_Source = src, vm_ResourceType = resourceType, vm_Values = [], vm_Histogram = Some h\<rparr> sb)
             (histogramOf fm buckets (map (qo_AsApproximateFloat64 Q) vs)))"

section \<open>Normal form\<close>

definition metric_less :: "savedMetric \<Rightarrow> savedMetric \<Rightarrow> bool" where
  "metric_less a b =
     (if vm_Source a \<noteq> vm_Source b then string_less (vm_Source a) (vm_Source b)
      else string_less (vm_ResourceType a) (vm_ResourceType b))"

text \<open>Labels are compared in the order of the sorted keys of the first; a key the second lacks reads as empty.\<close>

fun labels_less :: "string list \<Rightarrow> strmap \<Rightarrow> strmap \<Rightarrow> bool" where
  "labels_less [] a b = False"
| "labels_less (k # ks) a b =
     (if sget a k \<noteq> sget b k then string_less (sget a k) (sget b k) else labels_less ks a b)"

definition sample_less :: "savedSample \<Rightarrow> savedSample \<Rightarrow> bool" where
  "sample_less a b =
     (if sa_Source a \<noteq> sa_Source b then string_less (sa_Source a) (sa_Source b)
      else if sa_Level a \<noteq> sa_Level b then string_less (sa_Level a) (sa_Level b)
      else if sa_Operation a \<noteq> sa_Operation b then string_less (sa_Operation a) (sa_Operation b)
      else labels_less (sort_Sort string_less (map fst (sa_Labels a))) (sa_Labels a) (sa_Labels b))"

definition sort_metrics :: "savedSample \<Rightarrow> savedSample" where
  "sort_metrics i = i\<lparr>sa_Values := sort_Sort metric_less (sa_Values i)\<rparr>"

definition SaveSamplesToFile ::
  "saveSamplesLocally \<Rightarrow> string \<Rightarrow> string \<Rightarrow> sampleListBuilder option \<Rightarrow> (string \<times> sampleList) option" where
  "SaveSamplesToFile s clusterName now sb =
     (case sb of
        None \<Rightarrow> None
      | Some b \<Rightarrow>
         (let l = sb_SampleList b;
              l = (if sv_ExcludeTimestamp s then l\<lparr>sl_Timestamp := None\<rparr> else l);
              l = (if clusterName \<noteq> '''' then l\<lparr>sl_ClusterName := clusterName\<rparr> else l);
              l = (if sv_SortValues s then l\<lparr>sl_Items := map sort_metrics (sl_Items l)\<rparr> else l);
              t = sb_SourceType b;
              base = (if clusterName \<noteq> '''' then now @ ''_'' @ clusterName @ ''_'' @ t else now @ ''_'' @ t) @ ''.samplelist.pb''
          in Some (join_with ''/'' [sv_DirectoryPath s, t, base], l)))"

definition NormalizeForSave :: "saveSamplesLocally \<Rightarrow> string \<Rightarrow> sampleList list \<Rightarrow> sampleList list" where
  "NormalizeForSave s clusterName items =
     (let items = (if sv_ExcludeTimestamp s then map (\<lambda>l. l\<lparr>sl_Timestamp := None\<rparr>) items else items);
          items = (if clusterName \<noteq> '''' then map (\<lambda>l. l\<lparr>sl_ClusterName := clusterName\<rparr>) items else items)
      in if sv_SortValues s
         then map (\<lambda>l. l\<lparr>sl_Items := map sort_metrics (sort_Sort sample_less (sl_Items l))\<rparr>)
                (sort_Sort (\<lambda>a b. string_less (sl_MetricName a) (sl_MetricName b)) items)
         else items)"

section \<open>Files of a scrape\<close>

definition shard :: "sampleList list \<Rightarrow> (string, sampleList list) gomap" where
  "shard items = foldl (\<lambda>am s. AList.update (sl_Name s) (gget [] am (sl_Name s) @ [s]) am) [] items"

definition scrape_filename :: "saveSamplesLocally \<Rightarrow> string \<Rightarrow> string \<Rightarrow> string \<Rightarrow> string \<Rightarrow> string" where
  "scrape_filename s clusterName now ext k =
     join_with ''/'' [sv_DirectoryPath s, k,
       (if clusterName \<noteq> '''' then now @ ''_'' @ clusterName @ ''_'' @ k else now @ ''_'' @ k) @ ext]"

definition SaveScrapeResultToFile ::
  "saveSamplesLocally \<Rightarrow> string \<Rightarrow> string \<Rightarrow> sampleList list \<Rightarrow> (string \<times> sampleList list) list" where
  "SaveScrapeResultToFile s clusterName now items =
     map (\<lambda>(k, v). (scrape_filename s clusterName now ''.scraperesult.pb'' k, v)) (shard items)"

record jsonLine =
  jl_MetricName :: string
  jl_Timestamp :: "gotime option"
  jl_Value :: float64
  jl_Labels :: strmap

definition ProtoToJSON :: "sampleList \<Rightarrow> jsonLine list" where
  "ProtoToJSON s =
     concat (map (\<lambda>i. concat (map (\<lambda>v. map (\<lambda>x.
        \<lparr>jl_MetricName = sl_MetricName s, jl_Timestamp = sl_Timestamp s, jl_Value = x,
         jl_Labels = AList.update ''cluster_name'' (sl_ClusterName s)
                       (AList.update ''data_source'' (sl_Name s) (sa_Labels i))\<rparr>)
        (vm_Values v)) (sa_Values i))) (sl_Items s))"

definition SaveScrapeResultToJSONFile ::
  "saveSamplesLocally \<Rightarrow> string \<Rightarrow> string \<Rightarrow> sampleList list \<Rightarrow> (string \<times> jsonLine list) list" where
  "SaveScrapeResultToJSONFile s clusterName now items =
     map (\<lambda>(k, v). (scrape_filename s clusterName now ''_metrics.json'' k, concat (map ProtoToJSON v))) (shard items)"

text \<open>
  The files of a scrape, from all sample lists that were sent. Without a configuration nothing is saved; lists are sent
  only where there is one, so the remaining case is a nil dereference.
\<close>

definition saveMetricsToLocalFile ::
  "saveSamplesLocally option \<Rightarrow> string \<Rightarrow> string \<Rightarrow> sampleList list \<Rightarrow>
   ((string \<times> sampleList list) list \<times> (string \<times> jsonLine list) list) option" where
  "saveMetricsToLocalFile save clusterName now items =
     (case save of
        None \<Rightarrow> if length items = 0 then Some ([], []) else None
      | Some s \<Rightarrow>
         (let items = NormalizeForSave s clusterName items
          in Some (if sv_SaveProto s = Some True \<and> length items > 0 then SaveScrapeResultToFile s clusterName now items else [],
                   if sv_SaveJSON s = Some True \<and> length items > 0 then SaveScrapeResultToJSONFile s clusterName now items else [])))"

section \<open>Properties\<close>

lemma shard_lookup: "gget [] (shard items) k = filter (\<lambda>s. sl_Name s = k) items"
proof -
  have "gget [] (foldl (\<lambda>am s. AList.update (sl_Name s) (gget [] am (sl_Name s) @ [s]) am) am items) k
      = gget [] am k @ filter (\<lambda>s. sl_Name s = k) items" for am
    by (induction items arbitrary: am) auto
  then show ?thesis by (simp add: shard_def)
qed

lemma shard_wf: "gomap_wf (shard items)"
proof -
  have "gomap_wf am \<Longrightarrow> gomap_wf (foldl (\<lambda>am s. AList.update (sl_Name s) (gget [] am (sl_Name s) @ [s]) am) am items)" for am
    by (induction items arbitrary: am) auto
  then show ?thesis by (simp add: shard_def)
qed

lemma shard_keys: "fst ` set (shard items) = sl_Name ` set items"
proof -
  have "fst ` set (foldl (\<lambda>am s. AList.update (sl_Name s) (gget [] am (sl_Name s) @ [s]) am) am items)
      = fst ` set am \<union> sl_Name ` set items" for am
    by (induction items arbitrary: am) (auto simp: map_fst_update_dom)
  then show ?thesis by (simp add: shard_def)
qed

lemma shard_entry: "(k, v) \<in> set (shard items) \<Longrightarrow> v = filter (\<lambda>s. sl_Name s = k) items"
  using shard_lookup [of items k] by (simp add: gomap_wf_mem_iff [OF shard_wf] gget_def)

text \<open>
  Dividing a scrape into files loses and duplicates nothing: there is one file for every name that occurs, it holds
  the lists of that name in their order, and the files together hold the scrape.
\<close>

theorem scrape_files_partition:
  "distinct (map fst (shard items)) \<and> fst ` set (shard items) = sl_Name ` set items
   \<and> list_all (\<lambda>(k, v). v = filter (\<lambda>s. sl_Name s = k) items) (shard items)
   \<and> mset (concat (map snd (SaveScrapeResultToFile s cluster now items))) = mset items"
proof -
  have d: "distinct (map fst (shard items))" using shard_wf by (simp add: gomap_wf_def)
  have "count (mset (concat (map snd am))) x = count (mset items) x"
    if "distinct (map fst am)" "\<And>k v. (k, v) \<in> set am \<Longrightarrow> v = filter (\<lambda>s. sl_Name s = k) items"
       "sl_Name x \<in> fst ` set am \<or> x \<notin> set items" for am x
  proof -
    have c: "count (mset v) x = (if k = sl_Name x then count (mset items) x else 0)" if "(k, v) \<in> set am" for k v
      using \<open>\<And>k v. (k, v) \<in> set am \<Longrightarrow> v = filter (\<lambda>s. sl_Name s = k) items\<close> [OF that] by auto
    have "count (mset (concat (map snd am))) x = (\<Sum>(k, v) \<leftarrow> am. count (mset v) x)"
      by (induction am) auto
    also have "\<dots> = (\<Sum>(k, v) \<leftarrow> am. if k = sl_Name x then count (mset items) x else 0)"
      using c by (intro arg_cong [of _ _ sum_list] map_cong) auto
    also have "\<dots> = (if sl_Name x \<in> fst ` set am then count (mset items) x else 0)"
      using that(1) by (induction am) force+
    finally show ?thesis using that(3) by (auto simp: count_eq_zero_iff)
  qed
  from this [OF d shard_entry] have "mset (concat (map snd (shard items))) = mset items"
    by (intro multiset_eqI) (auto simp: shard_keys)
  moreover have "map snd (SaveScrapeResultToFile s cluster now items) = map snd (shard items)"
    by (simp add: SaveScrapeResultToFile_def split_beta comp_def)
  ultimately show ?thesis using d shard_entry by (auto simp: shard_keys list_all_iff)
qed

section \<open>Histograms of retained samples\<close>

lemma sum_list_update_plus: "i < length xs \<Longrightarrow> sum_list (xs[i := xs ! i + (1::int)]) = sum_list xs + 1"
  by (induction xs arbitrary: i) (auto split: nat.split)

lemma count_buckets_sum:
  "ofold (count_bucket fm b) counts vals = Some counts' \<Longrightarrow>
     sum_list counts' = sum_list counts + int (length (filter (\<lambda>v. \<not> f64_less v (bucketLowerBound fm b)) vals))
     \<and> length counts' = length counts"
  by (induction vals arbitrary: counts)
     (auto simp: count_bucket_def Let_def bind_eq_Some_conv sum_list_update_plus nat_less_iff split: if_splits)

text \<open>
  A saved histogram accounts for every value: unless only the maximum is saved or all values are below the lower bound,
  the values counted as zero and those in the buckets are all values.
\<close>

theorem histogram_counts_all_values:
  assumes "histogramOf fm b vals = Some h"
    and "\<not> eb_SaveMaxOnly b" "\<not> f64_less (hg_MaxValue h) (bucketLowerBound fm b)"
  shows "hg_ZeroCount h + sum_list (hg_BucketCounts h) = int (length vals)"
proof -
  obtain n counts where n: "ofold (count_bucket fm b) (replicate n 0) vals = Some counts"
    and h: "hg_BucketCounts h = counts" "hg_ZeroCount h = int (length (filter (\<lambda>v. f64_less v (bucketLowerBound fm b)) vals))"
    using assms by (auto simp: histogramOf_def Let_def split: if_splits)
  from count_buckets_sum [OF n] h sum_length_filter_compl [of "\<lambda>v. f64_less v (bucketLowerBound fm b)" vals] show ?thesis
    by (simp add: sum_list_replicate flip: of_nat_add)
qed

text \<open>
  A value on the boundary of the lowest bucket can take the process down: with the base 10 and the offset 3 the lower
  bound is 1000, and the logarithms of 1000 and 10 as doubles have a quotient below 3, so that the index of 1000 is
  negative. The hypotheses are the values of \<^verbatim>\<open>math.Pow\<close> and \<^verbatim>\<open>math.Log\<close> at these arguments.
\<close>

definition decimal_buckets :: exponentialBuckets where
  "decimal_buckets = \<lparr>eb_MinimumBase = Fin 10, eb_Compression = 0, eb_ExponentOffset = 3, eb_SaveMaxOnly = False\<rparr>"

theorem histogram_panics_at_lower_bound:
  assumes "fm_Pow fm (Fin 2) (Fin 0) = Fin 1" "fm_Pow fm (Fin 10) (Fin 1) = Fin 10" "fm_Pow fm (Fin 10) (Fin 3) = Fin 1000"
    and "fm_Log fm (Fin 1000) = Fin (243045032034301 / 2 ^ 45)" "fm_Log fm (Fin 10) = Fin (2592480341699211 / 2 ^ 50)"
  shows "histogramOf fm decimal_buckets [Fin 1000] = None"
proof -
  have "f64_div (Fin (243045032034301 / 2 ^ 45)) (Fin (2592480341699211 / 2 ^ 50)) = Fin (3 - 1 / 2 ^ 51)"
  proof -
    let ?x = "7777441025097632 / 2592480341699211 :: rat"
    have "ulp_exp ?x = 1 - 52" by (rule ulp_exp_eq) simp_all
    then have "rnd64 ?x = of_int (round_half_even (?x * 2 ^ 51)) / 2 ^ 51"
      by (simp add: rnd64_def Let_def power_int_minus divide_simps)
    moreover have "\<lfloor>?x * 2 ^ 51\<rfloor> = 6755399441055743" by (simp add: floor_eq_iff)
    then have "round_half_even (?x * 2 ^ 51) = 6755399441055743" by (simp add: round_half_even_def)
    moreover have "r < 2 ^ 1024" if "r < 8" for r :: rat using that power_increasing [of 3 1024 "2 :: rat"] by simp
    ultimately show ?thesis by (simp add: f64_of_rat_def Let_def)
  qed
  moreover have "\<lfloor>6755399441055743 / 2251799813685248 :: rat\<rfloor> = 2" by (simp add: floor_eq_iff)
  ultimately have "bucket_index fm decimal_buckets (Fin 10) (Fin 1000) = - 1"
    using assms by (simp add: bucket_index_def decimal_buckets_def f64_to_i64_def trunc_rat_def int64_wrap_def)
  moreover have "f64_of_int 0 = Fin 0" "f64_of_int 3 = Fin 3" by (simp_all add: f64_of_int_exact)
  then have "bucketBase fm decimal_buckets = Fin 10" "bucketLowerBound fm decimal_buckets = Fin 1000"
    using assms by (simp_all add: bucketLowerBound_def bucketBase_def decimal_buckets_def)
  moreover have "\<not> eb_SaveMaxOnly decimal_buckets" by (simp add: decimal_buckets_def)
  ultimately show ?thesis by (simp add: histogramOf_def count_bucket_def int64_wrap_def)
qed

end
