(* ===== verification/Utilization_Server.thy ===== *)
theory Utilization_Server
  imports Sampler_Api
begin

text \<open>
  The server that receives utilization from the samplers,
  \<^verbatim>\<open>pkg/collector/utilization/sampler_collector.go\<close>: its cache of one response per node, the stream handler, the
  readers, and the goroutine that expires old responses. The clock is an argument, the messages of a stream
  are a list, and the interleaving of handlers with the expiry is a step relation. The listeners
  are set up in \<^verbatim>\<open>Service_Start\<close>; the counters for monitoring are left out.
\<close>

section \<open>State\<close>

record server =
  sv_Responses :: "(string, listMetricsResponse) gomap"
  sv_ttl :: duration
  sv_expireFreq :: duration
  sv_ServeResults :: bool
  sv_IsReadyResult :: bool
  sv_IsCached :: bool
  sv_IsHealthyResult :: bool

datatype startError = BadDuration | TTLTooShort | ExpireTooShort

text \<open>The durations that \<^verbatim>\<open>Start\<close> reads from the configuration; the parser of duration strings is an argument.\<close>

definition start_durations ::
  "(string \<Rightarrow> duration option) \<Rightarrow> string \<Rightarrow> string \<Rightarrow> server \<Rightarrow> startError + server" where
  "start_durations ParseDuration ttlDuration expireDuration s =
     (let ttl = (if ttlDuration = '''' then Inr (Minute * 5)
                 else case ParseDuration ttlDuration of
                        None \<Rightarrow> Inl BadDuration
                      | Some d \<Rightarrow> if d < Minute then Inl TTLTooShort else Inr d)
      in case ttl of
           Inl e \<Rightarrow> Inl e
         | Inr ttl \<Rightarrow>
            (let s = s\<lparr>sv_ttl := ttl\<rparr> in
             if expireDuration = '''' then Inr (s\<lparr>sv_expireFreq := Minute * 15\<rparr>)
             else case ParseDuration expireDuration of
                    None \<Rightarrow> Inl BadDuration
                  | Some d \<Rightarrow> if d < Minute * 5 then Inl ExpireTooShort else Inr (s\<lparr>sv_expireFreq := d\<rparr>)))"

definition Check :: "server \<Rightarrow> bool" where
  "Check s \<longleftrightarrow> sv_IsHealthyResult s"

definition IsReady :: "server \<Rightarrow> bool" where
  "IsReady s \<longleftrightarrow> (if \<not> sv_IsReadyResult s then False else if \<not> sv_IsCached s then False else True)"

section \<open>The cache\<close>

definition CacheMetrics :: "listMetricsResponse \<Rightarrow> server \<Rightarrow> server" where
  "CacheMetrics msg s = s\<lparr>sv_Responses := AList.update (lr_NodeName msg) msg (sv_Responses s)\<rparr>"

definition ClearMetrics :: "string \<Rightarrow> server \<Rightarrow> server" where
  "ClearMetrics key s = s\<lparr>sv_Responses := AList.delete key (sv_Responses s)\<rparr>"

definition expired :: "gotime \<Rightarrow> server \<Rightarrow> listMetricsResponse \<Rightarrow> bool" where
  "expired now s v \<longleftrightarrow> time_sub now (lr_Timestamp v) > sv_ttl s"

definition getMetrics :: "gotime \<Rightarrow> bool \<Rightarrow> server \<Rightarrow> (string, listMetricsResponse) gomap" where
  "getMetrics now filterExpired s =
     (if filterExpired then filter (\<lambda>(k, v). \<not> expired now s v) (sv_Responses s) else sv_Responses s)"

text \<open>\<^verbatim>\<open>env\<close> is the value of the variable that turns the filter off in tests.\<close>

definition GetMetrics :: "string \<Rightarrow> gotime \<Rightarrow> server \<Rightarrow> (string, listMetricsResponse) gomap" where
  "GetMetrics env now s =
     (if env = ''false'' \<or> env = ''FALSE'' then getMetrics now False s else getMetrics now True s)"

definition GetNodeNames :: "gotime \<Rightarrow> server \<Rightarrow> string set" where
  "GetNodeNames now s = set (map fst (filter (\<lambda>(k, v). \<not> expired now s v) (sv_Responses s)))"

text \<open>One round of \<^verbatim>\<open>expireEntries\<close> without interference: the snapshot is walked and what has expired is cleared.\<close>

definition expireRound :: "gotime \<Rightarrow> server \<Rightarrow> server" where
  "expireRound now s =
     foldl (\<lambda>s (k, v). if expired now s v then ClearMetrics k s else s) s (getMetrics now False s)"

section \<open>The stream handler\<close>

datatype recv =
    is_Msg: Msg gotime listMetricsResponse
  | RecvEOF
  | RecvCanceled
  | RecvFailed

text \<open>
  \<^verbatim>\<open>PushMetrics\<close> on the messages of one stream; a message carries the time it is received. The first
  component says whether the handler returned an error; a list that ends is a stream still open.
\<close>

fun PushMetrics :: "recv list \<Rightarrow> server \<Rightarrow> bool \<times> server" where
  "PushMetrics [] s = (False, s)"
| "PushMetrics (RecvEOF # _) s = (False, s)"
| "PushMetrics (RecvCanceled # _) s = (False, s)"
| "PushMetrics (RecvFailed # _) s = (True, s)"
| "PushMetrics (Msg now msg # rs) s =
     (if lr_NodeName msg = '''' then PushMetrics rs s
      else PushMetrics rs (CacheMetrics (msg\<lparr>lr_Timestamp := now\<rparr>) s))"

section \<open>Usage by container\<close>

definition summary_key :: "containerMetrics \<Rightarrow> ContainerKey option" where
  "summary_key c =
     (if us_PodName c \<noteq> '''' \<and> us_ContainerName c \<noteq> '''' \<and> us_NamespaceName c \<noteq> ''''
      then Some (ContainerKey_zero\<lparr>ck_PodName := us_PodName c, ck_ContainerName := us_ContainerName c,
                   ck_NamespaceName := us_NamespaceName c\<rparr>)
      else if us_PodUID c = '''' then None
      else if us_ContainerID c = '''' then None
      else Some (ContainerKey_zero\<lparr>ck_ContainerID := us_ContainerID c, ck_PodUID := us_PodUID c\<rparr>))"

definition GetContainerUsageSummary ::
  "(string, listMetricsResponse) gomap \<Rightarrow> (ContainerKey, containerMetrics) gomap" where
  "GetContainerUsageSummary metrics =
     foldl (\<lambda>vals (n, r).
        foldl (\<lambda>vals c.
           let c = c\<lparr>us_NodeName := n\<rparr>
           in case summary_key c of None \<Rightarrow> vals | Some k \<Rightarrow> AList.update k c vals) vals (lr_Containers r)) [] metrics"

section \<open>Interleaving\<close>

text \<open>
  The expiry works on a snapshot: \<^verbatim>\<open>ss_sweep\<close> is what is left of it. The lock is held only inside a single cache
  operation, so a message can be cached between taking the snapshot and clearing an entry.
\<close>

record serverState =
  ss_server :: server
  ss_now :: gotime
  ss_sweep :: "(string \<times> listMetricsResponse) list"

inductive server_step :: "serverState \<Rightarrow> serverState \<Rightarrow> bool" where
  pass: "ss_now s \<le> t \<Longrightarrow> server_step s (s\<lparr>ss_now := t\<rparr>)"
| push: "PushMetrics [Msg (ss_now s) msg] (ss_server s) = (err, srv) \<Longrightarrow> server_step s (s\<lparr>ss_server := srv\<rparr>)"
| snapshot: "ss_sweep s = [] \<Longrightarrow> server_step s (s\<lparr>ss_sweep := getMetrics (ss_now s) False (ss_server s)\<rparr>)"
| keep: "ss_sweep s = (k, v) # rest \<Longrightarrow> \<not> expired (ss_now s) (ss_server s) v \<Longrightarrow> server_step s (s\<lparr>ss_sweep := rest\<rparr>)"
| clear: "ss_sweep s = (k, v) # rest \<Longrightarrow> expired (ss_now s) (ss_server s) v \<Longrightarrow>
    server_step s (s\<lparr>ss_server := ClearMetrics k (ss_server s), ss_sweep := rest\<rparr>)"

definition started :: "serverState \<Rightarrow> bool" where
  "started s \<longleftrightarrow> sv_Responses (ss_server s) = [] \<and> ss_sweep s = []"

inductive server_reachable :: "serverState \<Rightarrow> bool" where
  start: "started s \<Longrightarrow> server_reachable s"
| step: "server_reachable s \<Longrightarrow> server_step s s' \<Longrightarrow> server_reachable s'"

inductive_cases server_stepE: "server_step s s'"

interpretation srv_ts: transition_system started server_step server_reachable
  by (rule reachable_by_steps, fact server_reachable.start, fact server_reachable.step) (erule server_reachable.induct; blast)

section \<open>Caches keyed by node\<close>

locale node_cache = keyed_store get put
  for get :: "'s \<Rightarrow> 'k \<Rightarrow> 'r option" and put :: "'k \<Rightarrow> 'r \<Rightarrow> 's \<Rightarrow> 's" +
  fixes del :: "'k \<Rightarrow> 's \<Rightarrow> 's"
  assumes get_del: "get (del k s) k' = (if k' = k then None else get s k')"
begin

lemma get_dels:
  "get (foldl (\<lambda>s k. del k s) s ks) k' = (if k' \<in> set ks then None else get s k')"
  by (induction ks arbitrary: s) (auto simp: get_del)

end

definition cached :: "server \<Rightarrow> string \<Rightarrow> listMetricsResponse option" where
  "cached s k = map_of (sv_Responses s) k"

text \<open>\<^verbatim>\<open>CacheMetrics\<close> takes the key from the message, so a message is stored under its own node name.\<close>

definition cache_at :: "string \<Rightarrow> listMetricsResponse \<Rightarrow> server \<Rightarrow> server" where
  "cache_at k r s = s\<lparr>sv_Responses := AList.update k r (sv_Responses s)\<rparr>"

lemma CacheMetrics_at: "CacheMetrics msg = cache_at (lr_NodeName msg) msg"
  by (simp add: fun_eq_iff CacheMetrics_def cache_at_def)

interpretation srv: node_cache cached cache_at ClearMetrics
  by unfold_locales (simp_all add: cached_def cache_at_def ClearMetrics_def)

section \<open>What a stream leaves in the cache\<close>

fun accepted :: "recv list \<Rightarrow> (string \<times> listMetricsResponse) list" where
  "accepted (Msg now msg # rs) =
     (if lr_NodeName msg = '''' then accepted rs else (lr_NodeName msg, msg\<lparr>lr_Timestamp := now\<rparr>) # accepted rs)"
| "accepted _ = []"

lemma PushMetrics_accepted: "snd (PushMetrics rs s) = foldl (\<lambda>s (k, r). cache_at k r s) s (accepted rs)"
  by (induction rs s rule: PushMetrics.induct) (simp_all add: CacheMetrics_at)

lemma PushMetrics_error: "fst (PushMetrics rs s) \<longleftrightarrow> (\<exists>rest. dropWhile is_Msg rs = RecvFailed # rest)"
  by (induction rs s rule: PushMetrics.induct) auto

text \<open>
  A stream of pushed messages leaves, for every node, the last message that names it (stamped with the time it
  was received), and leaves the responses of other nodes alone; messages without a node name are skipped,
  nothing after the end of the stream counts, and the handler reports an error exactly when receiving fails.
\<close>

theorem push_stream_caches_latest:
  "cached (snd (PushMetrics rs s)) n = (case map_of (rev (accepted rs)) n of Some r \<Rightarrow> Some r | None \<Rightarrow> cached s n)
   \<and> (fst (PushMetrics rs s) \<longleftrightarrow> (\<exists>rest. dropWhile is_Msg rs = RecvFailed # rest))"
  by (simp add: PushMetrics_accepted srv.get_puts PushMetrics_error)

section \<open>Invariant of the server\<close>

definition response_ok :: "gotime \<Rightarrow> string \<times> listMetricsResponse \<Rightarrow> bool" where
  "response_ok now e \<longleftrightarrow> lr_NodeName (snd e) = fst e \<and> fst e \<noteq> '''' \<and> lr_Timestamp (snd e) \<le> now"

definition server_inv :: "serverState \<Rightarrow> bool" where
  "server_inv s \<longleftrightarrow> gomap_wf (sv_Responses (ss_server s))
     \<and> (\<forall>e \<in> set (sv_Responses (ss_server s)). response_ok (ss_now s) e)
     \<and> (\<forall>e \<in> set (ss_sweep s). response_ok (ss_now s) e)"

lemma response_ok_later: "response_ok now e \<Longrightarrow> now \<le> t \<Longrightarrow> response_ok t e"
  by (auto simp: response_ok_def)

lemma ball_update: "\<forall>e \<in> set m. P e \<Longrightarrow> P (k, v) \<Longrightarrow> \<forall>e \<in> set (AList.update k v m). P e"
  by (induction m) auto

lemma server_inv_step: "server_step s s' \<Longrightarrow> server_inv s \<Longrightarrow> server_inv s'"
proof (induction rule: server_step.induct)
  case (pass s t)
  then show ?case by (auto simp: server_inv_def intro: response_ok_later)
next
  case (push s msg err srv)
  then show ?case
    using ball_update [of "sv_Responses (ss_server s)" "response_ok (ss_now s)" "lr_NodeName msg" "msg\<lparr>lr_Timestamp := ss_now s\<rparr>"]
    by (auto simp: server_inv_def CacheMetrics_def response_ok_def [of _ "(lr_NodeName msg, x)" for x] split: if_splits)
next
  case (snapshot s)
  then show ?case by (simp add: server_inv_def getMetrics_def)
next
  case (keep s k v rest)
  then show ?case by (simp add: server_inv_def)
next
  case (clear s k v rest)
  then show ?case
    by (auto simp: server_inv_def ClearMetrics_def dest!: set_delete_subset [THEN subsetD])
qed

lemma server_inv_reachable: "server_reachable s \<Longrightarrow> server_inv s"
  by (erule srv_ts.invariant, simp add: server_inv_def started_def) (rule server_inv_step)

text \<open>
  C30. In every state the server can reach, however pushes, the clock and the expiry interleave, a response that
  \<^verbatim>\<open>GetMetrics\<close> returns is filed under its own, non-empty node name, was received no later than now and is no
  older than the time to live; and the node names reported are exactly those of these responses.
\<close>

theorem served_responses_are_fresh:
  assumes "server_reachable s"
  shows "(\<forall>k v. map_of (GetMetrics '''' (ss_now s) (ss_server s)) k = Some v \<longrightarrow>
            lr_NodeName v = k \<and> k \<noteq> '''' \<and> lr_Timestamp v \<le> ss_now s
            \<and> time_sub (ss_now s) (lr_Timestamp v) \<le> sv_ttl (ss_server s))
     \<and> GetNodeNames (ss_now s) (ss_server s) = dom (map_of (GetMetrics '''' (ss_now s) (ss_server s)))"
proof -
  have inv: "server_inv s" by (rule server_inv_reachable [OF assms])
  have "lr_NodeName v = k \<and> k \<noteq> '''' \<and> lr_Timestamp v \<le> ss_now s \<and> time_sub (ss_now s) (lr_Timestamp v) \<le> sv_ttl (ss_server s)"
    if "map_of (GetMetrics '''' (ss_now s) (ss_server s)) k = Some v" for k v
    using map_of_SomeD [OF that] inv
    by (auto simp: GetMetrics_def getMetrics_def expired_def server_inv_def response_ok_def not_less)
  moreover have "GetNodeNames (ss_now s) (ss_server s) = dom (map_of (GetMetrics '''' (ss_now s) (ss_server s)))"
    by (simp add: GetNodeNames_def GetMetrics_def getMetrics_def dom_map_of_conv_image_fst)
  ultimately show ?thesis by blast
qed

definition ex_server :: server where
  "ex_server = \<lparr>sv_Responses = [], sv_ttl = 5 * Minute, sv_expireFreq = 15 * Minute, sv_ServeResults = False,
     sv_IsReadyResult = False, sv_IsCached = False, sv_IsHealthyResult = True\<rparr>"

definition ex_response :: "gotime \<Rightarrow> listMetricsResponse" where
  "ex_response t = \<lparr>lr_Containers = [], lr_Node = [], lr_NodeName = ''n1'', lr_PodName = ''p'', lr_Reason = ''pull'', lr_Timestamp = t\<rparr>"

definition ex_state :: "gotime \<Rightarrow> gotime \<Rightarrow> (string \<times> listMetricsResponse) list \<Rightarrow> serverState" where
  "ex_state now t sweep = \<lparr>ss_server = ex_server\<lparr>sv_Responses := [(''n1'', ex_response t)]\<rparr>, ss_now = now, ss_sweep = sweep\<rparr>"

lemma ex_state_reachable: "server_reachable (ex_state 1 1 [])"
proof -
  let ?s = "\<lparr>ss_server = ex_server, ss_now = 1, ss_sweep = []\<rparr>"
  have "PushMetrics [Msg (ss_now ?s) (ex_response 0)] (ss_server ?s) = (False, ex_server\<lparr>sv_Responses := [(''n1'', ex_response 1)]\<rparr>)"
    by (simp add: CacheMetrics_def ex_server_def ex_response_def)
  from server_step.push [OF this] have "server_step ?s (ex_state 1 1 [])" by (simp add: ex_state_def)
  moreover have "server_reachable ?s" by (rule server_reachable.start) (simp add: started_def ex_server_def)
  ultimately show ?thesis by (rule server_reachable.step [rotated])
qed

theorem served_responses_are_fresh_witness:
  "lr_NodeName (ex_response 1) = ''n1'' \<and> GetNodeNames 1 (ss_server (ex_state 1 1 [])) = {''n1''}"
proof -
  have "map_of (GetMetrics '''' 1 (ss_server (ex_state 1 1 []))) ''n1'' = Some (ex_response 1)"
    by (simp add: GetMetrics_def getMetrics_def expired_def ex_state_def ex_server_def ex_response_def time_sub_def
        max_duration_def min_duration_def Minute_def)
  with served_responses_are_fresh [OF ex_state_reachable] show ?thesis
    by (auto simp: ex_state_def ex_server_def GetMetrics_def getMetrics_def split: if_splits)
qed

section \<open>Expiry\<close>

lemma expired_ttl: "sv_ttl s' = sv_ttl s \<Longrightarrow> expired now s' = expired now s"
  by (simp add: fun_eq_iff expired_def)

lemma expire_fold:
  "sv_ttl (foldl (\<lambda>s (k, v). if expired now s v then ClearMetrics k s else s) s es) = sv_ttl s"
  "cached (foldl (\<lambda>s (k, v). if expired now s v then ClearMetrics k s else s) s es) k
   = (if \<exists>v. (k, v) \<in> set es \<and> expired now s v then None else cached s k)"
proof (induction es arbitrary: s)
  case (Cons e es)
  obtain k' v' where e: "e = (k', v')" by (cases e)
  have ttl: "sv_ttl (ClearMetrics k' s) = sv_ttl s" for s by (simp add: ClearMetrics_def)
  {
    case 1
    show ?case by (simp add: e Cons.IH(1) ttl)
  next
    case 2
    show ?case by (auto simp: e Cons.IH(2) srv.get_del expired_ttl [OF ttl])
  }
qed simp_all

text \<open>
  C31. An undisturbed round of the expiry removes exactly the responses that have outlived their time to live, which
  are exactly the ones \<^verbatim>\<open>GetMetrics\<close> hides in the meantime: clearing them changes no answer.
\<close>

theorem expiry_round_exact:
  assumes "gomap_wf (sv_Responses s)"
  shows "cached (expireRound now s) k = map_of (GetMetrics '''' now s) k
     \<and> map_of (GetMetrics '''' now (expireRound now s)) k = map_of (GetMetrics '''' now s) k"
proof -
  have look: "map_of (filter (\<lambda>(k, v). \<not> expired now r v) m) k = (case map_of m k of Some v \<Rightarrow> if expired now r v then None else Some v | None \<Rightarrow> None)"
    if "gomap_wf m" for r m
    using that by (induction m) (auto simp: gomap_wf_def map_of_eq_None_iff split: option.split)
  have wf: "gomap_wf (sv_Responses (foldl (\<lambda>s (k, v). if expired now s v then ClearMetrics k s else s) r es))"
    if "gomap_wf (sv_Responses r)" for r es
    using that by (induction es arbitrary: r) (auto simp: ClearMetrics_def)
  have "cached (expireRound now s) k = (case cached s k of Some v \<Rightarrow> if expired now s v then None else Some v | None \<Rightarrow> None)"
    by (auto simp: expireRound_def getMetrics_def expire_fold(2) gomap_wf_mem_iff [OF assms, folded cached_def] split: option.split)
  moreover have "expired now (expireRound now s) = expired now s"
    by (rule expired_ttl) (simp add: expireRound_def expire_fold(1))
  moreover have "gomap_wf (sv_Responses (expireRound now s))" using wf [OF assms] by (simp add: expireRound_def)
  ultimately show ?thesis
    using assms by (auto simp: GetMetrics_def getMetrics_def look cached_def split: option.splits)
qed

theorem expiry_round_exact_witness:
  "cached (expireRound (10 * Minute) (ss_server (ex_state 1 1 []))) ''n1'' = None"
proof -
  have "gomap_wf (sv_Responses (ss_server (ex_state 1 1 [])))" by (simp add: ex_state_def gomap_wf_def)
  from expiry_round_exact [OF this, of "10 * Minute" "''n1''"] show ?thesis
    by (simp add: GetMetrics_def getMetrics_def expired_def ex_state_def ex_server_def ex_response_def time_sub_def
        max_duration_def min_duration_def Minute_def)
qed

text \<open>
  With pushes interleaved the expiry can drop a response that is not expired: it decides on the snapshot and
  clears by node name, so a response received after the snapshot was taken is deleted at age 0. (The sampler
  is then missing until its next push.)
\<close>

theorem expiry_can_drop_fresh_response:
  "\<exists>s s' v. server_reachable s \<and> server_step s s' \<and> cached (ss_server s) ''n1'' = Some v \<and> lr_Timestamp v = ss_now s
     \<and> \<not> expired (ss_now s) (ss_server s) v \<and> cached (ss_server s') ''n1'' = None"
proof -
  let ?t = "1 + 6 * Minute" and ?old = "[(''n1'', ex_response 1)]"
  have 1: "server_step (ex_state 1 1 []) (ex_state ?t 1 [])"
    using server_step.pass [of "ex_state 1 1 []" ?t] by (simp add: ex_state_def Minute_def)
  have 2: "server_step (ex_state ?t 1 []) (ex_state ?t 1 ?old)"
    using server_step.snapshot [of "ex_state ?t 1 []"] by (simp add: ex_state_def getMetrics_def)
  have "PushMetrics [Msg (ss_now (ex_state ?t 1 ?old)) (ex_response 0)] (ss_server (ex_state ?t 1 ?old))
      = (False, ss_server (ex_state ?t ?t ?old))"
    by (simp add: CacheMetrics_def ex_state_def ex_server_def ex_response_def)
  from server_step.push [OF this] have 3: "server_step (ex_state ?t 1 ?old) (ex_state ?t ?t ?old)" by (simp add: ex_state_def)
  let ?s' = "(ex_state ?t ?t ?old)\<lparr>ss_server := ClearMetrics ''n1'' (ss_server (ex_state ?t ?t ?old)), ss_sweep := []\<rparr>"
  have 4: "server_step (ex_state ?t ?t ?old) ?s'"
    by (rule server_step.clear [of _ _ "ex_response 1"]) (simp_all add: ex_state_def ex_server_def ex_response_def expired_def time_sub_def
        max_duration_def min_duration_def Minute_def)
  have "server_reachable (ex_state ?t ?t ?old)"
    by (rule server_reachable.step [OF server_reachable.step [OF server_reachable.step [OF ex_state_reachable 1] 2] 3])
  moreover have "cached (ss_server (ex_state ?t ?t ?old)) ''n1'' = Some (ex_response ?t)"
    "lr_Timestamp (ex_response ?t) = ss_now (ex_state ?t ?t ?old)"
    "\<not> expired (ss_now (ex_state ?t ?t ?old)) (ss_server (ex_state ?t ?t ?old)) (ex_response ?t)"
    by (simp_all add: cached_def ex_state_def ex_server_def ex_response_def expired_def time_sub_def Minute_def max_duration_def min_duration_def)
  moreover have "cached (ss_server ?s') ''n1'' = None" by (simp add: srv.get_del)
  ultimately show ?thesis using 4 by blast
qed

section \<open>Usage summary\<close>

definition usage_entries :: "(string, listMetricsResponse) gomap \<Rightarrow> (ContainerKey \<times> containerMetrics) list" where
  "usage_entries ms =
     concat (map (\<lambda>(n, r). List.map_filter (\<lambda>c. map_option (\<lambda>k. (k, c\<lparr>us_NodeName := n\<rparr>)) (summary_key c)) (lr_Containers r)) ms)"

lemma summary_key_node [simp]: "summary_key (c\<lparr>us_NodeName := n\<rparr>) = summary_key c"
  by (simp add: summary_key_def)

lemma usage_fold:
  "foldl (\<lambda>vals c. let c = c\<lparr>us_NodeName := n\<rparr> in case summary_key c of None \<Rightarrow> vals | Some k \<Rightarrow> AList.update k c vals) vals cs
   = foldl (\<lambda>vals (k, c). AList.update k c vals) vals
       (List.map_filter (\<lambda>c. map_option (\<lambda>k. (k, c\<lparr>us_NodeName := n\<rparr>)) (summary_key c)) cs)"
  by (induction cs arbitrary: vals) (auto simp: map_filter_simps Let_def split: option.split)

lemma GetContainerUsageSummary_entries:
  "GetContainerUsageSummary ms = foldl (\<lambda>vals (k, c). AList.update k c vals) [] (usage_entries ms)"
proof -
  have "foldl (\<lambda>vals (n, r).
        foldl (\<lambda>vals c. let c = c\<lparr>us_NodeName := n\<rparr> in case summary_key c of None \<Rightarrow> vals | Some k \<Rightarrow> AList.update k c vals)
          vals (lr_Containers r)) vals ms = foldl (\<lambda>vals (k, c). AList.update k c vals) vals (usage_entries ms)" for vals
    unfolding usage_fold by (induction ms arbitrary: vals) (auto simp: usage_entries_def)
  then show ?thesis by (simp add: GetContainerUsageSummary_def)
qed


end
