(* ===== verification/Metrics_Collection.thy ===== *)
theory Metrics_Collection
  imports Aggregation Value_Reader Sample_List Utilization_Server
begin

text \<open>
  Collecting metrics from the objects of the cluster, the \<^verbatim>\<open>collect\<close> functions of \<^verbatim>\<open>pkg/collector/collector.go\<close>: each walks
  the objects of one kind, sets the labels, reads the values, files them by metric and label values, and hands
  the metrics to the aggregations of its type. \<^const>\<open>None\<close> is a panic. The clock, the Kubernetes client and the YAML
  parser are arguments. The gauges that report on missing utilization are lists of the label values that are
  counted; the gauges for latencies and the log are left out.
\<close>

section \<open>State\<close>

record cgroupMetric =
  cg_Name :: source
  cg_AvgName :: source

record annotatedSource =
  as_Name :: source
  as_Annotation :: string

record collector =
  cl_state :: labelState
  cl_Labeler :: Labeler
  cl_Resources :: strmap
  cl_Aggregations :: "aggregation list"
  cl_env :: aggEnv
  cl_Save :: "saveSamplesLocally option"
  cl_EnableResourceQuotaDescriptor :: bool
  cl_SchedulerHealth :: "schedulerHealth option"
  cl_RestrictMaxUtilizationToContainerLimits :: bool
  cl_RestrictMaxPeriods :: int
  cl_UnhealthyNodeConditions :: "(string \<times> string) list"
  cl_CGroupSources :: "(string, cgroupMetric) gomap"
  cl_CGroupRoot :: cgroupMetric
  cl_ClusterScoped :: "annotatedSource list"
  cl_startTime :: gotime

record 'q capacityObjects =
  ob_Pods :: "'q pod list"
  ob_Nodes :: "'q node list"
  ob_Namespaces :: "namespace list"
  ob_Quotas :: "'q resourceQuota list"
  ob_RQDs :: "'q resourceQuotaDescriptor list"
  ob_PVCs :: "'q persistentVolumeClaim list"
  ob_PVs :: "'q persistentVolume list"
  ob_Samplers :: "'q pod list"
  ob_NamespacesByName :: "(string, namespace) gomap"
  ob_PodsByNodeName :: "(string, 'q pod list) gomap"
  ob_PodsByPVC :: "(string, 'q pod list) gomap"
  ob_PVsByName :: "(string, 'q persistentVolume) gomap"
  ob_PVCsByName :: "(string, 'q persistentVolumeClaim) gomap"
  ob_NodesByName :: "(string, 'q node) gomap"
  ob_RQDsByRQDKey :: "(string \<times> string, 'q resourceQuotaDescriptor) gomap"
  ob_SamplersByNode :: "(string, 'q pod) gomap"
  ob_ClusterScopedByName :: "(source, objectMeta list) gomap"
  ob_UtilizationByNode :: "(string, listMetricsResponse) gomap"

type_synonym 'q metrics = "(metricName, 'q metric) gomap"

text \<open>What a function sends: the aggregated metrics, the counted results, and the samples it saves.\<close>

record 'q collectResult =
  cr_collected :: "'q collected"
  cr_results :: "string list list"
  cr_saved :: "sampleListBuilder option"

section \<open>Filing values\<close>

definition metricName_for :: "source \<Rightarrow> string \<Rightarrow> string \<Rightarrow> string \<Rightarrow> metricName" where
  "metricName_for src alias r t =
     \<lparr>mn_Prefix = '''', mn_Level = '''', mn_Operation = '''', mn_Source = src, mn_SourceAlias = '''',
      mn_ResourceAlias = alias, mn_Resource = r, mn_SourceType = t\<rparr>"

definition put_metric :: "metricName \<Rightarrow> LabelsValues \<Rightarrow> 'q list \<Rightarrow> 'q metrics \<Rightarrow> 'q metrics" where
  "put_metric name l qs ms =
     (let m = (case map_of ms name of
                 Some m \<Rightarrow> m
               | None \<Rightarrow> \<lparr>mt_Mask = zeroMask, mt_Name = name, mt_Buckets = [], mt_Values = []\<rparr>)
      in AList.update name (m\<lparr>mt_Values := AList.update l qs (mt_Values m)\<rparr>) ms)"

text \<open>The quantities of a value for a resource. (The lists of quantities of a value are never nil.)\<close>

definition value_for :: "'q sourceValue \<Rightarrow> string \<Rightarrow> 'q list option" where
  "value_for v r =
     (case vl_ResourceList v of
        Some rl \<Rightarrow> map_option (\<lambda>q. [q]) (map_of rl r)
      | None \<Rightarrow> (case vl_MultiResourceList v of Some ml \<Rightarrow> map_of ml r | None \<Rightarrow> None))"

definition add_resource ::
  "('q, 'd) quantity_ops \<Rightarrow> LabelsValues \<Rightarrow> string \<Rightarrow> nat option \<Rightarrow> source \<Rightarrow> 'q sourceValue \<Rightarrow>
   'q metrics \<times> sampleListBuilder option \<Rightarrow> string \<times> string \<Rightarrow> 'q metrics \<times> sampleListBuilder option" where
  "add_resource Q labels t sample src v st ra =
     (let (ms, sb) = st; (r, alias) = ra in
      case value_for v r of
        None \<Rightarrow> (ms, sb)
      | Some qs \<Rightarrow> (put_metric (metricName_for src alias r t) labels qs ms, AddQuantityValues Q sample r src qs sb))"

definition addValuesToMetrics ::
  "('q, 'd) quantity_ops \<Rightarrow> collector \<Rightarrow> (source, 'q sourceValue) gomap \<Rightarrow> LabelsValues \<Rightarrow> string \<Rightarrow>
   'q metrics \<times> sampleListBuilder option \<Rightarrow> ('q metrics \<times> sampleListBuilder option) option" where
  "addValuesToMetrics Q c values labels t st =
     do { (sample, sb) \<leftarrow> NewSample (cl_state c) labels (snd st);
          Some (foldl (\<lambda>st (src, v). foldl (add_resource Q labels t sample src v) st (cl_Resources c)) (fst st, sb) values) }"

definition aggregateType ::
  "('q, 'd) quantity_ops \<Rightarrow> collector \<Rightarrow> string \<Rightarrow> 'q metrics \<Rightarrow> 'q collected option" where
  "aggregateType Q c t ms =
     ofold (\<lambda>out a. map_option (\<lambda>o'. \<lparr>co_exported = co_exported out @ co_exported o', co_retained = co_retained out @ co_retained o'\<rparr>)
              (AggregateAndCollect Q (cl_state c) (cl_env c) a ms))
       \<lparr>co_exported = [], co_retained = []\<rparr> (ByType (cl_Aggregations c) t)"

definition finish ::
  "('q, 'd) quantity_ops \<Rightarrow> collector \<Rightarrow> string \<Rightarrow> string list list \<Rightarrow> 'q metrics \<times> sampleListBuilder option \<Rightarrow> 'q collectResult option" where
  "finish Q c t results st =
     map_option (\<lambda>out. \<lparr>cr_collected = out, cr_results = results, cr_saved = snd st\<rparr>) (aggregateType Q c t (fst st))"

section \<open>Volumes, nodes and namespaces\<close>

definition pv_labels :: "collector \<Rightarrow> 'q capacityObjects \<Rightarrow> 'q persistentVolume \<Rightarrow> LabelsValues" where
  "pv_labels c ob pv =
     (let pvc = (case pv_ClaimRef pv of
                   None \<Rightarrow> None
                 | Some (ns, n) \<Rightarrow> map_of (ob_PVCsByName ob) (ns @ ''/'' @ n));
          node = (case map_of (om_Annotations (pv_Meta pv)) ''kubernetes.io/hostname'' of
                    None \<Rightarrow> None
                  | Some n \<Rightarrow> map_of (ob_NodesByName ob) n)
      in SetLabelsForPersistentVolume (cl_Labeler c) emptyLabels (Some pv) pvc node)"

definition collectPVs :: "('q, 'd) quantity_ops \<Rightarrow> collector \<Rightarrow> 'q capacityObjects \<Rightarrow> 'q collectResult option" where
  "collectPVs Q c ob =
     do { st \<leftarrow> ofold (\<lambda>st pv. addValuesToMetrics Q c (GetValuesForPV Q pv) (pv_labels c ob pv) PVType st) ([], None) (ob_PVs ob);
          finish Q c PVType [] st }"

definition pvc_labels :: "kget \<Rightarrow> collector \<Rightarrow> 'q capacityObjects \<Rightarrow> 'q persistentVolumeClaim \<Rightarrow> LabelsValues" where
  "pvc_labels get c ob pvc =
     (let n = map_of (ob_NamespacesByName ob) (om_Namespace (pvc_Meta pvc));
          pv = map_of (ob_PVsByName ob) (pvc_VolumeName pvc);
          p = (case gget [] (ob_PodsByPVC ob) (om_Namespace (pvc_Meta pvc) @ ''/'' @ om_Name (pvc_Meta pvc)) of
                 [p] \<Rightarrow> Some p | _ \<Rightarrow> None);
          (wl, node) = (case p of
                          None \<Rightarrow> (\<lparr>wl_Name = '''', wl_Kind = '''', wl_APIGroup = '''', wl_APIVersion = ''''\<rparr>, None)
                        | Some p \<Rightarrow> (getWorkloadForPod get p, map_of (ob_NodesByName ob) (pd_NodeName p)))
      in SetLabelsForPersistentVolumeClaim (cl_Labeler c) emptyLabels (Some pvc) pv n p wl node)"

definition collectPVCs :: "('q, 'd) quantity_ops \<Rightarrow> kget \<Rightarrow> collector \<Rightarrow> 'q capacityObjects \<Rightarrow> 'q collectResult option" where
  "collectPVCs Q get c ob =
     do { st \<leftarrow> ofold (\<lambda>st pvc. addValuesToMetrics Q c (GetValuesForPVC Q pvc) (pvc_labels get c ob pvc) PVCType st)
                ([], None) (ob_PVCs ob);
          finish Q c PVCType [] st }"

definition collectNodes :: "('q, 'd) quantity_ops \<Rightarrow> gotime \<Rightarrow> collector \<Rightarrow> 'q capacityObjects \<Rightarrow> 'q collectResult option" where
  "collectNodes Q now c ob =
     do { st \<leftarrow> ofold (\<lambda>st n. addValuesToMetrics Q c
                        (GetValuesForNode Q n (gget [] (ob_PodsByNodeName ob) (om_Name (nd_Meta n))))
                        (SetLabelsForNode (cl_Labeler c) emptyLabels (Some n)) NodeType st)
                ([], NewSampleListBuilder (cl_Save c) now NodeType) (ob_Nodes ob);
          finish Q c NodeType [] st }"

definition collectNamespaces :: "('q, 'd) quantity_ops \<Rightarrow> collector \<Rightarrow> 'q capacityObjects \<Rightarrow> 'q collectResult option" where
  "collectNamespaces Q c ob =
     finish Q c NamespaceType []
       (foldl (\<lambda>ms n. put_metric (metricName_for ''namespace'' ''items'' ResourceItems NamespaceType)
                        (SetLabelsForNamespaces (cl_Labeler c) emptyLabels (Some n)) [qo_NewQuantity Q 1] ms) [] (ob_Namespaces ob),
        None)"

section \<open>Quotas\<close>

text \<open>
  The labels of a quota are a variable that the loops over its values share: the storage class that is set for one
  resource is still there for the next.
\<close>

definition quota_resource ::
  "('q, 'd) quantity_ops \<Rightarrow> 'q resourceQuota \<Rightarrow> nat option \<Rightarrow> source \<Rightarrow> 'q sourceValue \<Rightarrow>
   LabelsValues \<times> 'q metrics \<times> sampleListBuilder option \<Rightarrow> string \<times> string \<Rightarrow>
   LabelsValues \<times> 'q metrics \<times> sampleListBuilder option" where
  "quota_resource Q q sample src v st ra =
     (let (l, ms, sb) = st; (r, alias) = ra in
      case map_of (rl_items (vl_ResourceList v)) r of
        None \<Rightarrow> (l, ms, sb)
      | Some qty \<Rightarrow>
         (let l = (if Contains r ''storageclass.storage.k8s.io'' then SetLabelsForPVCQuota l q r else l)
          in (l, put_metric (metricName_for src alias r QuotaType) l [qty] ms, AddQuantityValues Q sample r src [qty] sb)))"

definition quota_source ::
  "('q, 'd) quantity_ops \<Rightarrow> collector \<Rightarrow> 'q resourceQuota \<Rightarrow> nat option \<Rightarrow>
   LabelsValues \<times> 'q metrics \<times> sampleListBuilder option \<Rightarrow> source \<times> 'q sourceValue \<Rightarrow>
   LabelsValues \<times> 'q metrics \<times> sampleListBuilder option" where
  "quota_source Q c q sample st sv =
     (let (l, ms, sb) = st; (src, v) = sv in
      if src = ''quota''
      then (l, put_metric (metricName_for ''quota'' ''items'' ResourceItems QuotaType) l [qo_NewQuantity Q 1] ms, sb)
      else foldl (quota_resource Q q sample src v) (l, ms, sb) (cl_Resources c))"

definition quota_step ::
  "('q, 'd) quantity_ops \<Rightarrow> (string \<Rightarrow> 'q resourceList option) \<Rightarrow> collector \<Rightarrow> 'q capacityObjects \<Rightarrow>
   'q metrics \<times> sampleListBuilder option \<Rightarrow> 'q resourceQuota \<Rightarrow> ('q metrics \<times> sampleListBuilder option) option" where
  "quota_step Q unmarshal c ob st q =
     (let key = (om_Name (rq_Meta q), om_Namespace (rq_Meta q));
          rqd = map_of (ob_RQDsByRQDKey ob) key;
          l = SetLabelsForQuota (cl_Labeler c) emptyLabels (Some q) rqd (map_of (ob_NamespacesByName ob) (om_Namespace (rq_Meta q)))
      in do { (sample, sb) \<leftarrow> NewSample (cl_state c) l (snd st);
              let values = GetValuesForQuota Q unmarshal q rqd (cl_EnableResourceQuotaDescriptor c);
              Some (snd (foldl (quota_source Q c q sample) (l, fst st, sb) values)) })"

definition collectQuota ::
  "('q, 'd) quantity_ops \<Rightarrow> (string \<Rightarrow> 'q resourceList option) \<Rightarrow> gotime \<Rightarrow> collector \<Rightarrow> 'q capacityObjects \<Rightarrow>
   'q collectResult option" where
  "collectQuota Q unmarshal now c ob =
     do { st \<leftarrow> ofold (quota_step Q unmarshal c ob) ([], NewSampleListBuilder (cl_Save c) now QuotaType) (ob_Quotas ob);
          finish Q c QuotaType [] st }"

section \<open>Missing utilization\<close>

definition maxWaitTimeForUtilization :: duration where "maxWaitTimeForUtilization = Minute"

fun sampler_reason :: "gotime \<Rightarrow> containerStatus list \<Rightarrow> string option" where
  "sampler_reason now [] = Some ''unknown''"
| "sampler_reason now (i # is) =
     (if cs_Name i \<noteq> ''metrics-node-sampler'' then sampler_reason now is
      else case cs_Running i of
             Some t \<Rightarrow>
               if time_sub now t < Minute * 5 then Some ''sampler-container-recently-running''
               else if cs_Terminated i then Some ''sampler-container-terminated''
               else if cs_Waiting i then Some ''sampler-container-waiting''
               else Some ''unknown''
           | None \<Rightarrow>
               if cs_Terminated i then Some ''sampler-container-terminated''
               else if cs_Waiting i then Some ''sampler-container-waiting''
               else None)"

definition nodeMissingReason :: "gotime \<Rightarrow> collector \<Rightarrow> 'q capacityObjects \<Rightarrow> 'q node \<Rightarrow> string option" where
  "nodeMissingReason now c ob node =
     (let name = om_Name (nd_Meta node) in
      if ghas (ob_UtilizationByNode ob) name then Some ''found''
      else case find (\<lambda>(t, s). \<exists>v \<in> set (nd_Conditions node). kc_Type v = t \<and> kc_Status v = s) (cl_UnhealthyNodeConditions c) of
             Some (t, s) \<Rightarrow> Some (''node-'' @ ToLower (t @ ''-'' @ s))
           | None \<Rightarrow>
              (case map_of (ob_SamplersByNode ob) name of
                 None \<Rightarrow> Some ''sampler-pod-missing''
               | Some p \<Rightarrow>
                   if om_DeletionTimestamp (pd_Meta p) \<noteq> None
                   then Some (''sampler-pod-status-'' @ ToLower (pd_Phase p) @ ''-terminated'')
                   else sampler_reason now (pd_ContainerStatuses p)))"

definition normalizeContainerID :: "string \<Rightarrow> string" where
  "normalizeContainerID i = (case IndexOf i ''://'' of Some n \<Rightarrow> drop (n + 3) i | None \<Rightarrow> i)"

fun container_reason :: "gotime \<Rightarrow> string \<Rightarrow> containerStatus list \<Rightarrow> string option" where
  "container_reason now cid [] = None"
| "container_reason now cid (i # is) =
     (if normalizeContainerID (cs_ContainerID i) \<noteq> cid then container_reason now cid is
      else if cs_Terminated i then Some ''container-terminated''
      else if cs_Waiting i then Some ''container-waiting''
      else case cs_Running i of
             None \<Rightarrow> Some ''container-not-running''
           | Some t \<Rightarrow> if time_sub now t < maxWaitTimeForUtilization then Some ''container-recently-started'' else None)"

definition containerMissingReason ::
  "gotime \<Rightarrow> 'q pod \<Rightarrow> ContainerKey \<Rightarrow> 'q capacityObjects \<Rightarrow> string \<times> bool" where
  "containerMissingReason now pod k ob =
     (if pd_RuntimeClassName pod = Some ''microvm'' then (''container-pod-microvm'', True)
      else if pd_Phase pod \<noteq> ''Running'' then (''container-pod-phase-'' @ ToLower (pd_Phase pod), True)
      else case container_reason now (ck_ContainerID k) (pd_ContainerStatuses pod) of
             Some r \<Rightarrow> (r, True)
           | None \<Rightarrow>
               if \<not> ghas (ob_UtilizationByNode ob) (pd_NodeName pod) then (''no-metrics-for-node'', False)
               else (''node-missing-container'', False))"

section \<open>Cgroups\<close>

definition getCGroupMetricSource :: "collector \<Rightarrow> string \<Rightarrow> cgroupMetric" where
  "getCGroupMetricSource c cgroup =
     (if cgroup = '''' then cl_CGroupRoot c
      else gget \<lparr>cg_Name = '''', cg_AvgName = ''''\<rparr> (cl_CGroupSources c) (filepath_Dir_abs (''/'' @ cgroup)))"

definition alias_or :: "collector \<Rightarrow> string \<Rightarrow> string \<Rightarrow> string" where
  "alias_or c r d = (if sget (cl_Resources c) r = '''' then d else sget (cl_Resources c) r)"

definition cgroup_level ::
  "('q, 'd) quantity_ops \<Rightarrow> collector \<Rightarrow> LabelsValues \<Rightarrow> 'q metrics \<times> sampleListBuilder option \<Rightarrow> nodeAggregatedMetrics \<Rightarrow>
   ('q metrics \<times> sampleListBuilder option) option" where
  "cgroup_level Q c l st m =
     (let l = SetLabelsFoCGroup l (na_AggregationLevel m);
          cpuAlias = alias_or c ResourceCPU ''cpu_cores'';
          memoryAlias = alias_or c ResourceMemory ''memory_bytes'';
          src = getCGroupMetricSource c (na_AggregationLevel m);
          put = (\<lambda>name alias r qs ms. put_metric (metricName_for name alias r CGroupType) l qs ms)
      in do { (sample, sb) \<leftarrow> NewSample (cl_state c) l (snd st);
              let (ms, sb) =
                (if cg_Name src \<noteq> ''''
                 then (put (cg_Name src) memoryAlias ResourceMemory (map (qo_NewQuantity Q) (na_MemoryBytes m))
                         (put (cg_Name src) cpuAlias ResourceCPU (map (\<lambda>v. qo_NewScaledQuantity Q v Nano) (na_CpuCoresNanoSec m)) (fst st)),
                       AddIntValues sample ResourceMemory (cg_Name src) (na_MemoryBytes m)
                         (AddIntValues sample ResourceCPU (cg_Name src) (na_CpuCoresNanoSec m) sb))
                 else (fst st, sb));
              Some (if cg_AvgName src \<noteq> ''''
                    then (put (cg_AvgName src) memoryAlias ResourceMemory [qo_NewQuantity Q (na_AvgMemoryBytes m)]
                            (put (cg_AvgName src) cpuAlias ResourceCPU [qo_NewScaledQuantity Q (na_AvgCPUCoresNanoSec m) Nano] ms),
                          AddIntValues sample ResourceMemory (cg_AvgName src) [na_AvgMemoryBytes m]
                            (AddIntValues sample ResourceCPU (cg_AvgName src) [na_AvgCPUCoresNanoSec m] sb))
                    else (ms, sb)) })"

definition sampler_of :: "string \<Rightarrow> 'q capacityObjects \<Rightarrow> string \<Rightarrow> string \<times> string" where
  "sampler_of none ob n =
     (case map_of (ob_SamplersByNode ob) n of
        Some p \<Rightarrow> (om_Name (pd_Meta p), pd_Phase p)
      | None \<Rightarrow> (none, none))"

definition cgroup_node ::
  "('q, 'd) quantity_ops \<Rightarrow> gotime \<Rightarrow> collector \<Rightarrow> 'q capacityObjects \<Rightarrow>
   string list list \<times> 'q metrics \<times> sampleListBuilder option \<Rightarrow> 'q node \<Rightarrow>
   (string list list \<times> 'q metrics \<times> sampleListBuilder option) option" where
  "cgroup_node Q now c ob st n =
     (let (results, ms) = st; name = om_Name (nd_Meta n);
          l = SetLabelsForNode (cl_Labeler c) emptyLabels (Some n);
          (podName, podPhase) = sampler_of ''unknown'' ob name
      in case map_of (ob_UtilizationByNode ob) name of
           None \<Rightarrow>
             map_option (\<lambda>reason. (results @ [[name, podName, podPhase, ''false'', reason]], ms)) (nodeMissingReason now c ob n)
         | Some u \<Rightarrow>
             map_option (\<lambda>ms. (results @ [[name, podName, podPhase, ''true'', '''']], ms))
               (ofold (cgroup_level Q c l) ms (lr_Node u)))"

definition collectCGroups :: "('q, 'd) quantity_ops \<Rightarrow> gotime \<Rightarrow> collector \<Rightarrow> 'q capacityObjects \<Rightarrow> 'q collectResult option" where
  "collectCGroups Q now c ob =
     do { (results, st) \<leftarrow> ofold (cgroup_node Q now c ob) ([], [], NewSampleListBuilder (cl_Save c) now CGroupType) (ob_Nodes ob);
          finish Q c CGroupType results st }"

section \<open>Containers\<close>

definition status_less :: "containerStatus \<Rightarrow> containerStatus \<Rightarrow> bool" where
  "status_less a b =
     (case (cs_Running a, cs_Running b) of
        (Some _, None) \<Rightarrow> True
      | (None, Some _) \<Rightarrow> False
      | (Some s, Some t) \<Rightarrow> s > t
      | (None, None) \<Rightarrow> False)"

definition name_to_id :: "containerStatus list \<Rightarrow> strmap" where
  "name_to_id statuses =
     foldl (\<lambda>m s. let i = normalizeContainerID (cs_ContainerID s)
                  in if \<not> ghas m (cs_Name s) then AList.update (cs_Name s) i m
                     else if cs_Running s \<noteq> None then AList.update (cs_Name s) i m
                     else m) [] statuses"

text \<open>The statuses of the pod are sorted in place; the sorted list is the last component.\<close>

definition getContainerNameToID :: "'q pod \<Rightarrow> strmap \<times> string \<times> containerStatus list" where
  "getContainerNameToID pod =
     (let statuses = sort_Sort status_less (pd_ContainerStatuses pod)
      in (name_to_id statuses,
          (case map_of (om_Annotations (pd_Meta pod)) ''kubernetes.io/config.mirror'' of
             Some mirror \<Rightarrow> mirror
           | None \<Rightarrow> om_UID (pd_Meta pod)),
          statuses))"

definition getContainerNameToContainerStatus :: "containerStatus list \<Rightarrow> (string, containerStatus) gomap" where
  "getContainerNameToContainerStatus statuses = foldl (\<lambda>m s. AList.update (cs_Name s) s m) [] statuses"

definition clamp :: "int \<Rightarrow> int list \<Rightarrow> int list" where
  "clamp m vs = map (\<lambda>v. if v > m then m else v) vs"

definition cpu_limit :: "('q, 'd) quantity_ops \<Rightarrow> 'q container \<Rightarrow> int" where
  "cpu_limit Q container = int64_wrap (int64_wrap (qo_MilliValue Q (qo_Cpu Q (ct_Limits container)) * 1000) * 1000)"

definition restrictUsage :: "('q, 'd) quantity_ops \<Rightarrow> collector \<Rightarrow> 'q container \<Rightarrow> containerMetrics \<Rightarrow> containerMetrics" where
  "restrictUsage Q c container u =
     (let cpu = cpu_limit Q container;
          mem = qo_Value Q (qo_Memory Q (ct_Limits container));
          u = (if cl_RestrictMaxUtilizationToContainerLimits c
               then u\<lparr>us_CpuCoresNanoSec := clamp cpu (us_CpuCoresNanoSec u),
                      us_CpuThrottledNanoSec := clamp cpu (us_CpuThrottledNanoSec u),
                      us_MemoryBytes := clamp mem (us_MemoryBytes u),
                      us_AvgCPUCoresNanoSec := (if us_AvgCPUCoresNanoSec u > cpu then cpu else us_AvgCPUCoresNanoSec u)\<rparr>
               else u);
          u = (if cl_RestrictMaxPeriods c > 0
               then u\<lparr>us_CpuPeriodsSec := clamp (cl_RestrictMaxPeriods c) (us_CpuPeriodsSec u),
                      us_CpuThrottledPeriodsSec := clamp (cl_RestrictMaxPeriods c) (us_CpuThrottledPeriodsSec u)\<rparr>
               else u)
      in u\<lparr>us_CpuPercentPeriodsThrottled :=
             map (\<lambda>v. if f32_less (Fin 100) v then Fin 100 else v) (us_CpuPercentPeriodsThrottled u)\<rparr>)"

text \<open>
  The usage is looked up by name first and by ids second. The key by name stays in scope: it is the one that is handed
  to \<^verbatim>\<open>containerMissingReason\<close>.
\<close>

definition key_by_name :: "'q pod \<Rightarrow> 'q container \<Rightarrow> ContainerKey" where
  "key_by_name pod container =
     ContainerKey_zero\<lparr>ck_ContainerName := ct_Name container, ck_PodName := om_Name (pd_Meta pod),
       ck_NamespaceName := om_Namespace (pd_Meta pod)\<rparr>"

definition find_usage ::
  "(ContainerKey, containerMetrics) gomap \<Rightarrow> 'q pod \<Rightarrow> strmap \<Rightarrow> string \<Rightarrow> 'q container \<Rightarrow> (ContainerKey \<times> containerMetrics) option" where
  "find_usage utilization pod nameToID podUID container =
     (let k1 = key_by_name pod container;
          k2 = ContainerKey_zero\<lparr>ck_ContainerID := sget nameToID (ct_Name container), ck_PodUID := podUID\<rparr>
      in case map_of utilization k1 of
           Some u \<Rightarrow> Some (k1, u)
         | None \<Rightarrow> map_option (\<lambda>u. (k2, u)) (map_of utilization k2))"

text \<open>
  The usage is a pointer into the cached responses, so restricting it changes what the next lookup of the same key
  finds: the map of utilization is part of the state.
\<close>

record 'q containerState =
  ks_utilization :: "(ContainerKey, containerMetrics) gomap"
  ks_container :: "'q metrics \<times> sampleListBuilder option"
  ks_pod :: "'q metrics \<times> sampleListBuilder option"
  ks_scheduler :: "'q metrics \<times> sampleListBuilder option"
  ks_results :: "string list list"
  ks_nodeMissing :: "string list list"

definition container_labels :: "LabelsValues \<Rightarrow> 'q pod \<Rightarrow> 'q container \<Rightarrow> LabelsValues" where
  "container_labels podLabels pod container =
     SetLabelsForContainerStatus (SetLabelsForContainer podLabels (Some container))
       (map_of (getContainerNameToContainerStatus (snd (snd (getContainerNameToID pod)))) (ct_Name container))"

definition container_usage ::
  "('q, 'd) quantity_ops \<Rightarrow> gotime \<Rightarrow> collector \<Rightarrow> 'q capacityObjects \<Rightarrow> 'q pod \<Rightarrow> 'q containerState \<Rightarrow> 'q container \<Rightarrow>
   containerMetrics option \<times> 'q containerState" where
  "container_usage Q now c ob pod st container =
     (let (nameToID, podUID, statuses) = getContainerNameToID pod;
          (samplerName, samplerPhase) = sampler_of '''' ob (pd_NodeName pod);
          node = pd_NodeName pod
      in case find_usage (ks_utilization st) pod nameToID podUID container of
           Some (k, u) \<Rightarrow>
             (let u = restrictUsage Q c container u
              in (Some u, st\<lparr>ks_utilization := AList.update k u (ks_utilization st),
                             ks_results := ks_results st @ [[node, samplerName, samplerPhase, '''', ''true'']]\<rparr>))
         | None \<Rightarrow>
             if time_sub now (cl_startTime c) > maxWaitTimeForUtilization
             then (let (reason, ok) = containerMissingReason now (pod\<lparr>pd_ContainerStatuses := statuses\<rparr>) (key_by_name pod container) ob;
                       st = st\<lparr>ks_results := ks_results st @ [[node, samplerName, samplerPhase, reason, ''false'']]\<rparr>
                   in (None, if ok then st
                             else st\<lparr>ks_nodeMissing := ks_nodeMissing st @ [[node, samplerName, samplerPhase]]\<rparr>))
             else (None, st))"

definition collect_container ::
  "('q, 'd) quantity_ops \<Rightarrow> gotime \<Rightarrow> collector \<Rightarrow> 'q capacityObjects \<Rightarrow> 'q pod \<Rightarrow> LabelsValues \<Rightarrow>
   'q containerState \<Rightarrow> 'q container \<Rightarrow> 'q containerState option" where
  "collect_container Q now c ob pod podLabels st container =
     (let labels = container_labels podLabels pod container;
          (usage, st) = container_usage Q now c ob pod st container
      in do { ms \<leftarrow> addValuesToMetrics Q c (GetValuesForContainer Q container pod usage) labels ContainerType (ks_container st);
              Some (st\<lparr>ks_container := ms\<rparr>) })"

definition pod_labels :: "kget \<Rightarrow> collector \<Rightarrow> 'q capacityObjects \<Rightarrow> 'q pod \<Rightarrow> LabelsValues" where
  "pod_labels get c ob pod =
     SetLabelsForPod (cl_Labeler c) emptyLabels (Some pod) (getWorkloadForPod get pod)
       (map_of (ob_NodesByName ob) (pd_NodeName pod)) (map_of (ob_NamespacesByName ob) (om_Namespace (pd_Meta pod)))"

definition collect_pod ::
  "('q, 'd) quantity_ops \<Rightarrow> kget \<Rightarrow> gotime \<Rightarrow> collector \<Rightarrow> 'q capacityObjects \<Rightarrow> 'q containerState \<Rightarrow> 'q pod \<Rightarrow>
   'q containerState option" where
  "collect_pod Q get now c ob st pod =
     (let l = pod_labels get c ob pod
      in do { ps \<leftarrow> addValuesToMetrics Q c (GetValuesForPod Q pod) l PodType (ks_pod st);
              ss \<leftarrow> addValuesToMetrics Q c (GetValuesForSchedulerHealth Q now pod (cl_SchedulerHealth c)) l SchedulerHealthType
                     (ks_scheduler st);
              ofold (collect_container Q now c ob pod l) (st\<lparr>ks_pod := ps, ks_scheduler := ss\<rparr>) (pd_Containers pod) })"

definition collectContainers ::
  "('q, 'd) quantity_ops \<Rightarrow> kget \<Rightarrow> gotime \<Rightarrow> collector \<Rightarrow> 'q capacityObjects \<Rightarrow>
   ('q collectResult \<times> 'q containerState) option" where
  "collectContainers Q get now c ob =
     do { st \<leftarrow> ofold (collect_pod Q get now c ob)
                \<lparr>ks_utilization = GetContainerUsageSummary (ob_UtilizationByNode ob),
                 ks_container = ([], NewSampleListBuilder (cl_Save c) now ContainerType), ks_pod = ([], None),
                 ks_scheduler = ([], None), ks_results = [], ks_nodeMissing = []\<rparr> (ob_Pods ob);
          containers \<leftarrow> aggregateType Q c ContainerType (fst (ks_container st));
          pods \<leftarrow> aggregateType Q c PodType (fst (ks_pod st));
          sched \<leftarrow> aggregateType Q c SchedulerHealthType (fst (ks_scheduler st));
          Some (\<lparr>cr_collected = \<lparr>co_exported = co_exported containers @ co_exported pods @ co_exported sched,
                                 co_retained = co_retained containers @ co_retained pods @ co_retained sched\<rparr>,
                 cr_results = ks_results st, cr_saved = snd (ks_container st)\<rparr>, st) }"

section \<open>Cluster scoped metrics\<close>

text \<open>\<^verbatim>\<open>parse\<close> reads the labeled resources of an annotation, or gives the text of the error.\<close>

definition labeled_resource ::
  "collector \<Rightarrow> source \<Rightarrow> 'q metrics \<Rightarrow> strmap \<times> (string, 'q) gomap \<Rightarrow> 'q metrics" where
  "labeled_resource c src ms entry =
     (let l = SetLabelsForClusterScoped emptyLabels (fst entry)
      in foldl (\<lambda>ms (r, alias). case map_of (snd entry) r of
                                   None \<Rightarrow> ms
                                 | Some qty \<Rightarrow> put_metric (metricName_for src alias r ClusterScopedType) l [qty] ms)
           ms (cl_Resources c))"

definition cluster_item ::
  "(string \<Rightarrow> string + (strmap \<times> (string, 'q) gomap) list) \<Rightarrow> collector \<Rightarrow> annotatedSource \<Rightarrow>
   'q metrics \<times> string list list \<Rightarrow> objectMeta \<Rightarrow> 'q metrics \<times> string list list" where
  "cluster_item parse c src st obj =
     (case map_of (om_Annotations obj) (as_Annotation src) of
        None \<Rightarrow> st
      | Some v \<Rightarrow>
         (case parse v of
            Inl err \<Rightarrow> (fst st, snd st @ [[as_Name src, om_Name obj, err]])
          | Inr entries \<Rightarrow> (foldl (labeled_resource c (as_Name src)) (fst st) entries, snd st @ [[as_Name src, om_Name obj, '''']])))"

definition collectClusterScoped ::
  "('q, 'd) quantity_ops \<Rightarrow> (string \<Rightarrow> string + (strmap \<times> (string, 'q) gomap) list) \<Rightarrow> gotime \<Rightarrow> collector \<Rightarrow> 'q capacityObjects \<Rightarrow>
   'q collectResult option" where
  "collectClusterScoped Q parse now c ob =
     (let st = foldl (\<lambda>st src. case map_of (ob_ClusterScopedByName ob) (as_Name src) of
                                  None \<Rightarrow> st
                                | Some items \<Rightarrow> foldl (cluster_item parse c src) st items) ([], []) (cl_ClusterScoped c)
      in finish Q c ClusterScopedType (snd st) (fst st, NewSampleListBuilder (cl_Save c) now ClusterScopedType))"

end
