(* ===== verification/Metrics_Collection_Props.thy ===== *)
theory Metrics_Collection_Props
  imports Metrics_Collection
begin

text \<open>
  What collecting guarantees: the values of an object are filed under its labels and nothing else is touched, usage is
  restricted to what was asked for, and how containers are matched to their ids, with the cases in which the code
  and its intention differ.
\<close>

section \<open>The table of metrics\<close>

definition metric_at :: "'q metrics \<Rightarrow> metricName \<times> LabelsValues \<Rightarrow> 'q list option" where
  "metric_at ms nl = (case map_of ms (fst nl) of None \<Rightarrow> None | Some m \<Rightarrow> map_of (mt_Values m) (snd nl))"

definition put_at :: "metricName \<times> LabelsValues \<Rightarrow> 'q list \<Rightarrow> 'q metrics \<Rightarrow> 'q metrics" where
  "put_at nl qs ms = put_metric (fst nl) (snd nl) qs ms"

interpretation mstore: keyed_store metric_at put_at
  by unfold_locales (auto simp: metric_at_def put_at_def put_metric_def Let_def split: option.splits prod.splits)

definition filings ::
  "(source, 'q sourceValue) gomap \<Rightarrow> strmap \<Rightarrow> LabelsValues \<Rightarrow> string \<Rightarrow> ((metricName \<times> LabelsValues) \<times> 'q list) list" where
  "filings vals res l t =
     concat (map (\<lambda>(src, v). List.map_filter (\<lambda>(r, alias).
        map_option (\<lambda>qs. ((metricName_for src alias r t, l), qs)) (value_for v r)) res) vals)"

lemma metricName_for_eq [simp]:
  "metricName_for src alias r t = metricName_for src' alias' r' t' \<longleftrightarrow> src = src' \<and> alias = alias' \<and> r = r' \<and> t = t'"
  by (auto simp: metricName_for_def)

lemma add_resources_filings:
  "fst (foldl (add_resource Q l t sample src v) st res) =
     foldl (\<lambda>ms (k, qs). put_at k qs ms) (fst st)
       (List.map_filter (\<lambda>(r, alias). map_option (\<lambda>qs. ((metricName_for src alias r t, l), qs)) (value_for v r)) res)"
  by (induction res arbitrary: st)
    (auto simp: add_resource_def map_filter_simps put_at_def split_beta Let_def split: option.split)

lemma addValues_filings:
  assumes "addValuesToMetrics Q c vals l t st = Some st'"
  shows "fst st' = foldl (\<lambda>ms (k, qs). put_at k qs ms) (fst st) (filings vals (cl_Resources c) l t)"
proof -
  have "fst (foldl (\<lambda>st (src, v). foldl (add_resource Q l t sample src v) st res) st vals)
      = foldl (\<lambda>ms (k, qs). put_at k qs ms) (fst st) (filings vals res l t)" for sample st res
    by (induction vals arbitrary: st) (auto simp: filings_def add_resources_filings split: prod.split)
  with assms show ?thesis by (auto simp: addValuesToMetrics_def bind_eq_Some_conv)
qed

lemma filings_mem:
  "((n, l'), qs) \<in> set (filings vals res l t) \<longleftrightarrow>
     l' = l \<and> (\<exists>src v r alias. (src, v) \<in> set vals \<and> (r, alias) \<in> set res \<and> n = metricName_for src alias r t \<and> value_for v r = Some qs)"
  by (force simp: filings_def map_filter_mem)

definition value_at :: "(source, 'q sourceValue) gomap \<Rightarrow> source \<Rightarrow> string \<Rightarrow> 'q list option" where
  "value_at vals src r = (case map_of vals src of None \<Rightarrow> None | Some v \<Rightarrow> value_for v r)"

lemma addValues_lookup:
  assumes "addValuesToMetrics Q c vals l t st = Some st'" "gomap_wf vals" "gomap_wf (cl_Resources c)"
  shows "map_of (cl_Resources c) r = Some alias \<Longrightarrow>
      metric_at (fst st') (metricName_for src alias r t, l)
        = (case value_at vals src r of Some qs \<Rightarrow> Some qs | None \<Rightarrow> metric_at (fst st) (metricName_for src alias r t, l))"
    and "l' \<noteq> l \<Longrightarrow> metric_at (fst st') (n, l') = metric_at (fst st) (n, l')"
proof -
  assume "map_of (cl_Resources c) r = Some alias"
  then have "map_of (rev (filings vals (cl_Resources c) l t)) (metricName_for src alias r t, l) = value_at vals src r"
    using assms(2,3) by (intro map_of_rev_unique) (auto simp: filings_mem gomap_wf_mem_iff value_at_def split: option.splits)
  then show "metric_at (fst st') (metricName_for src alias r t, l)
      = (case value_at vals src r of Some qs \<Rightarrow> Some qs | None \<Rightarrow> metric_at (fst st) (metricName_for src alias r t, l))"
    by (simp add: addValues_filings [OF assms(1)] mstore.get_puts)
next
  assume "l' \<noteq> l"
  then have "(n, l') \<notin> fst ` set (filings vals (cl_Resources c) l t)" using filings_mem by fastforce
  then show "metric_at (fst st') (n, l') = metric_at (fst st) (n, l')"
    by (simp add: addValues_filings [OF assms(1)] mstore.get_puts_other)
qed

lemma gomap_wf_container_values: "gomap_wf (GetValuesForContainer Q container pod usage)"
  by (auto simp: GetValuesForContainer_def Let_def gomap_wf_def split_beta split: option.splits)

section \<open>Containers\<close>

definition usage_of :: "(ContainerKey, containerMetrics) gomap \<Rightarrow> 'q pod \<Rightarrow> 'q container \<Rightarrow> containerMetrics option" where
  "usage_of utilization pod container =
     map_option snd (find_usage utilization pod (fst (getContainerNameToID pod)) (fst (snd (getContainerNameToID pod))) container)"

lemma find_usage_key: "find_usage m pod ids uid container = Some (k, u) \<Longrightarrow> map_of m k = Some u"
  by (auto simp: find_usage_def Let_def split: option.splits)

lemma usage_of_dom: "dom (map_of m) = dom (map_of m') \<Longrightarrow> usage_of m pod container = None \<longleftrightarrow> usage_of m' pod container = None"
  by (auto simp: usage_of_def find_usage_def Let_def dom_def set_eq_iff split: option.splits) (metis option.distinct(1) option.exhaust)+

lemma container_usage_effect:
  "fst (container_usage Q now c ob pod st x) = map_option (restrictUsage Q c x) (usage_of (ks_utilization st) pod x)"
  "ks_container (snd (container_usage Q now c ob pod st x)) = ks_container st"
  "ks_pod (snd (container_usage Q now c ob pod st x)) = ks_pod st"
  "ks_scheduler (snd (container_usage Q now c ob pod st x)) = ks_scheduler st"
  "dom (map_of (ks_utilization (snd (container_usage Q now c ob pod st x)))) = dom (map_of (ks_utilization st))"
  using find_usage_key [of "ks_utilization st" pod "fst (getContainerNameToID pod)" "fst (snd (getContainerNameToID pod))" x]
  by (auto simp: container_usage_def usage_of_def Let_def split_beta split: option.split)

lemma collect_container_eq:
  "collect_container Q now c ob pod l st x =
     map_option (\<lambda>ms. (snd (container_usage Q now c ob pod st x))\<lparr>ks_container := ms\<rparr>)
       (addValuesToMetrics Q c (GetValuesForContainer Q x pod (map_option (restrictUsage Q c x) (usage_of (ks_utilization st) pod x)))
          (container_labels l pod x) ContainerType (ks_container st))"
  by (simp add: collect_container_def Let_def split_beta container_usage_effect map_conv_bind_option comp_def)

lemma collect_container_step:
  assumes "collect_container Q now c ob pod podLabels st container = Some st'" "gomap_wf (cl_Resources c)"
  shows "map_of (cl_Resources c) r = Some alias \<Longrightarrow>
      metric_at (fst (ks_container st')) (metricName_for src alias r ContainerType, container_labels podLabels pod container)
        = (case value_at (GetValuesForContainer Q container pod
                            (map_option (restrictUsage Q c container) (usage_of (ks_utilization st) pod container))) src r of
             Some qs \<Rightarrow> Some qs
           | None \<Rightarrow> metric_at (fst (ks_container st)) (metricName_for src alias r ContainerType, container_labels podLabels pod container))"
    and "l \<noteq> container_labels podLabels pod container \<Longrightarrow>
      metric_at (fst (ks_container st')) (n, l) = metric_at (fst (ks_container st)) (n, l)"
    and "dom (map_of (ks_utilization st')) = dom (map_of (ks_utilization st))"
proof -
  obtain ms where
    add: "addValuesToMetrics Q c (GetValuesForContainer Q container pod
            (map_option (restrictUsage Q c container) (usage_of (ks_utilization st) pod container)))
            (container_labels podLabels pod container) ContainerType (ks_container st) = Some ms"
    and st': "ks_container st' = ms" "dom (map_of (ks_utilization st')) = dom (map_of (ks_utilization st))"
    using assms(1) by (auto simp: collect_container_eq container_usage_effect)
  note look = addValues_lookup [OF add gomap_wf_container_values assms(2)]
  show "map_of (cl_Resources c) r = Some alias \<Longrightarrow>
      metric_at (fst (ks_container st')) (metricName_for src alias r ContainerType, container_labels podLabels pod container)
        = (case value_at (GetValuesForContainer Q container pod
                            (map_option (restrictUsage Q c container) (usage_of (ks_utilization st) pod container))) src r of
             Some qs \<Rightarrow> Some qs
           | None \<Rightarrow> metric_at (fst (ks_container st)) (metricName_for src alias r ContainerType, container_labels podLabels pod container))"
    using look(1) by (simp add: st')
  show "l \<noteq> container_labels podLabels pod container \<Longrightarrow>
      metric_at (fst (ks_container st')) (n, l) = metric_at (fst (ks_container st)) (n, l)"
    using look(2) by (simp add: st')
  show "dom (map_of (ks_utilization st')) = dom (map_of (ks_utilization st))" by (rule st')
qed

lemma collect_containers_dom:
  assumes "gomap_wf (cl_Resources c)" "ofold (collect_container Q now c ob pod podLabels) st xs = Some st'"
  shows "dom (map_of (ks_utilization st')) = dom (map_of (ks_utilization st))"
  using assms(2)
proof (induction xs arbitrary: st)
  case (Cons x xs)
  then obtain s where s: "collect_container Q now c ob pod podLabels st x = Some s"
    "ofold (collect_container Q now c ob pod podLabels) s xs = Some st'" by (auto simp: bind_eq_Some_conv)
  from Cons.IH [OF s(2)] collect_container_step(3) [OF s(1) assms(1)] show ?case by simp
qed simp

lemma collect_containers_others:
  assumes "gomap_wf (cl_Resources c)" "ofold (collect_container Q now c ob pod podLabels) st xs = Some st'"
    "\<forall>x \<in> set xs. container_labels podLabels pod x \<noteq> l"
  shows "metric_at (fst (ks_container st')) (n, l) = metric_at (fst (ks_container st)) (n, l)"
  using assms(2,3)
proof (induction xs arbitrary: st)
  case (Cons x xs)
  then obtain s where s: "collect_container Q now c ob pod podLabels st x = Some s"
    "ofold (collect_container Q now c ob pod podLabels) s xs = Some st'" by (auto simp: bind_eq_Some_conv)
  from Cons.IH [OF s(2)] Cons.prems(2) collect_container_step(2) [OF s(1) assms(1), of l n] show ?case by auto
qed simp

lemma collect_pod_containers:
  assumes "collect_pod Q get now c ob st pod = Some st'"
  shows "\<exists>st0. ks_container st0 = ks_container st \<and> ks_utilization st0 = ks_utilization st
     \<and> ofold (collect_container Q now c ob pod (pod_labels get c ob pod)) st0 (pd_Containers pod) = Some st'"
proof -
  from assms obtain a b where
    "ofold (collect_container Q now c ob pod (pod_labels get c ob pod)) (st\<lparr>ks_pod := a, ks_scheduler := b\<rparr>) (pd_Containers pod) = Some st'"
    unfolding collect_pod_def Let_def bind_eq_Some_conv by blast
  then show ?thesis by (intro exI [of _ "st\<lparr>ks_pod := a, ks_scheduler := b\<rparr>"]) simp
qed

lemma collect_pods_dom:
  assumes "gomap_wf (cl_Resources c)" "ofold (collect_pod Q get now c ob) st ps = Some st'"
  shows "dom (map_of (ks_utilization st')) = dom (map_of (ks_utilization st))"
  using assms(2)
proof (induction ps arbitrary: st)
  case (Cons p ps)
  then obtain s where s: "collect_pod Q get now c ob st p = Some s" "ofold (collect_pod Q get now c ob) s ps = Some st'"
    by (auto simp: bind_eq_Some_conv)
  from collect_pod_containers [OF s(1)] collect_containers_dom [OF assms(1)]
  have "dom (map_of (ks_utilization s)) = dom (map_of (ks_utilization st))" by metis
  with Cons.IH [OF s(2)] show ?case by simp
qed simp

lemma collect_pods_others:
  assumes "gomap_wf (cl_Resources c)" "ofold (collect_pod Q get now c ob) st ps = Some st'"
    "\<forall>p \<in> set ps. \<forall>x \<in> set (pd_Containers p). container_labels (pod_labels get c ob p) p x \<noteq> l"
  shows "metric_at (fst (ks_container st')) (n, l) = metric_at (fst (ks_container st)) (n, l)"
  using assms(2,3)
proof (induction ps arbitrary: st)
  case (Cons p ps)
  then obtain s where s: "collect_pod Q get now c ob st p = Some s" "ofold (collect_pod Q get now c ob) s ps = Some st'"
    by (auto simp: bind_eq_Some_conv)
  from collect_pod_containers [OF s(1)] obtain s0 where s0: "ks_container s0 = ks_container st"
    "ofold (collect_container Q now c ob p (pod_labels get c ob p)) s0 (pd_Containers p) = Some s" by blast
  from collect_containers_others [OF assms(1) s0(2), of l n] Cons.prems(2)
  have "metric_at (fst (ks_container s)) (n, l) = metric_at (fst (ks_container st)) (n, l)" by (simp add: s0(1))
  with Cons.IH [OF s(2)] Cons.prems(2) show ?case by simp
qed simp

lemma ofold_append: "ofold f s (xs @ ys) = Option.bind (ofold f s xs) (\<lambda>s. ofold f s ys)"
  by (induction xs arbitrary: s) (simp_all add: Option.bind_assoc)


section \<open>Container ids\<close>

lemma sorted_statuses: "sorted_wrt (\<lambda>a b. \<not> status_less b a) (sort_Sort status_less ss)"
  by (rule sorted_sort_Sort) (auto simp: status_less_def split: option.splits)

abbreviation running_as :: "string \<Rightarrow> containerStatus \<Rightarrow> bool" where
  "running_as n s \<equiv> cs_Name s = n \<and> cs_Running s \<noteq> None"

lemma name_to_id_snoc:
  "map_of (name_to_id (ss @ [s])) n =
     (if cs_Name s = n \<and> (map_of (name_to_id ss) n = None \<or> cs_Running s \<noteq> None)
      then Some (normalizeContainerID (cs_ContainerID s)) else map_of (name_to_id ss) n)"
  by (auto simp: name_to_id_def Let_def ghas_def)

lemma name_to_id_running:
  assumes "filter (running_as n) ss \<noteq> []"
  shows "map_of (name_to_id ss) n = Some (normalizeContainerID (cs_ContainerID (last (filter (running_as n) ss))))"
  using assms
proof (induction ss rule: rev_induct)
  case (snoc s ss)
  show ?case
  proof (cases "running_as n s")
    case True
    then show ?thesis unfolding name_to_id_snoc by simp
  next
    case False
    with snoc show ?thesis unfolding name_to_id_snoc by auto
  qed
qed simp

text \<open>
  The id that a container name is mapped to: if statuses of that name are running, the oldest of them. (The
  statuses are sorted with the most recently started first, but every later running one replaces the one before.)
\<close>

theorem container_id_is_oldest_running:
  assumes "s0 \<in> set (pd_ContainerStatuses pod)" "cs_Name s0 = n" "cs_Running s0 \<noteq> None"
  shows "\<exists>s t. s \<in> set (pd_ContainerStatuses pod) \<and> cs_Name s = n \<and> cs_Running s = Some t
     \<and> map_of (fst (getContainerNameToID pod)) n = Some (normalizeContainerID (cs_ContainerID s))
     \<and> (\<forall>s' t'. s' \<in> set (pd_ContainerStatuses pod) \<longrightarrow> cs_Name s' = n \<longrightarrow> cs_Running s' = Some t' \<longrightarrow> t \<le> t')"
proof -
  let ?ss = "sort_Sort status_less (pd_ContainerStatuses pod)"
  let ?rs = "filter (running_as n) ?ss"
  have "s0 \<in> set ?rs" using assms by simp
  then have ne: "?rs \<noteq> []" by (metis empty_iff list.set(1))
  then have lst: "last ?rs \<in> set (pd_ContainerStatuses pod)" "running_as n (last ?rs)"
    using last_in_set [OF ne] by auto
  then obtain t where t: "cs_Running (last ?rs) = Some t" by blast
  have old: "t \<le> t'" if "s' \<in> set (pd_ContainerStatuses pod)" "cs_Name s' = n" "cs_Running s' = Some t'" for s' t'
  proof -
    have "s' \<in> set ?rs" using that by simp
    then have "\<not> status_less (last ?rs) s' \<or> s' = last ?rs"
      by (rule sorted_wrt_last [OF sorted_wrt_filter [OF sorted_statuses]])
    then show ?thesis using t that(3) by (auto simp: status_less_def)
  qed
  have "map_of (fst (getContainerNameToID pod)) n = Some (normalizeContainerID (cs_ContainerID (last ?rs)))"
    using name_to_id_running [OF ne] by (simp add: getContainerNameToID_def Let_def)
  then show ?thesis using lst t old by blast
qed

definition ex_status :: "string \<Rightarrow> gotime \<Rightarrow> containerStatus" where
  "ex_status i t = \<lparr>cs_Name = ''app'', cs_ContainerID = ''containerd://'' @ i, cs_ImageID = '''', cs_Running = Some t,
     cs_Waiting = False, cs_Terminated = False\<rparr>"

definition ex_running :: "'q pod" where
  "ex_running = (ex_pod ''web'' [])\<lparr>pd_ContainerStatuses := [ex_status ''old'' 1, ex_status ''new'' 2]\<rparr>"

theorem container_id_is_oldest_running_witness:
  "map_of (fst (getContainerNameToID (ex_running :: decimal pod))) ''app'' = Some ''old''"
proof -
  have "ex_status ''new'' 2 \<in> set (pd_ContainerStatuses (ex_running :: decimal pod))" by (simp add: ex_running_def)
  from container_id_is_oldest_running [OF this, of "''app''"] show ?thesis
    by (auto simp: ex_running_def ex_status_def normalizeContainerID_def HasPrefix_def)
qed

section \<open>Missing utilization\<close>

lemma container_reason_none:
  "\<forall>s \<in> set ss. normalizeContainerID (cs_ContainerID s) \<noteq> i \<Longrightarrow> container_reason now i ss = None"
  by (induction ss) auto

lemma container_reason_terminated:
  assumes "s \<in> set ss" "cs_Terminated s" "inj_on (\<lambda>s. normalizeContainerID (cs_ContainerID s)) (set ss)"
  shows "container_reason now (normalizeContainerID (cs_ContainerID s)) ss = Some ''container-terminated''"
  using assms by (induction ss) (auto simp: inj_on_def)

text \<open>
  A container without usage in a running pod is blamed on its node even where its status explains it: the reason is
  asked for with the key by name, whose container id is empty, so no status with an id is ever looked at. With
  the key by ids a terminated container is recognised.
\<close>

theorem missing_reason_ignores_status:
  assumes "pd_Phase pod = ''Running''" "pd_RuntimeClassName pod \<noteq> Some ''microvm''"
    and "s \<in> set (pd_ContainerStatuses pod)" "cs_Terminated s"
    and "\<forall>s \<in> set (pd_ContainerStatuses pod). normalizeContainerID (cs_ContainerID s) \<noteq> ''''"
    and "inj_on (\<lambda>s. normalizeContainerID (cs_ContainerID s)) (set (pd_ContainerStatuses pod))"
  shows "containerMissingReason now pod (key_by_name pod x) ob =
       (if ghas (ob_UtilizationByNode ob) (pd_NodeName pod) then ''node-missing-container'' else ''no-metrics-for-node'', False)
     \<and> containerMissingReason now pod (ContainerKey_zero\<lparr>ck_ContainerID := normalizeContainerID (cs_ContainerID s)\<rparr>) ob
         = (''container-terminated'', True)"
  using assms container_reason_none [OF assms(5)] container_reason_terminated [OF assms(3,4,6)]
  by (simp add: containerMissingReason_def key_by_name_def ContainerKey_zero_def)

definition ex_terminated :: "'q pod" where
  "ex_terminated = (ex_pod ''web'' [])\<lparr>pd_ContainerStatuses := [(ex_status ''c1'' 1)\<lparr>cs_Terminated := True\<rparr>]\<rparr>"

definition ex_container :: "decimal container" where
  "ex_container = \<lparr>ct_Name = ''app'', ct_Image = '''', ct_Requests = Some [(''cpu'', dec 2 0)], ct_Limits = None\<rparr>"

definition ex_objects :: "decimal pod list \<Rightarrow> decimal capacityObjects" where
  "ex_objects ps =
     \<lparr>ob_Pods = ps, ob_Nodes = [], ob_Namespaces = [], ob_Quotas = [], ob_RQDs = [], ob_PVCs = [], ob_PVs = [], ob_Samplers = [],
      ob_NamespacesByName = [], ob_PodsByNodeName = [], ob_PodsByPVC = [], ob_PVsByName = [], ob_PVCsByName = [],
      ob_NodesByName = [], ob_RQDsByRQDKey = [], ob_SamplersByNode = [], ob_ClusterScopedByName = [], ob_UtilizationByNode = []\<rparr>"

theorem missing_reason_ignores_status_witness:
  "containerMissingReason 5 ex_terminated (key_by_name ex_terminated ex_container) (ex_objects [])
     = (''no-metrics-for-node'', False)"
proof -
  have 1: "pd_Phase ex_terminated = ''Running''" "pd_RuntimeClassName ex_terminated \<noteq> Some ''microvm''"
    "(ex_status ''c1'' 1)\<lparr>cs_Terminated := True\<rparr> \<in> set (pd_ContainerStatuses ex_terminated)"
    "cs_Terminated ((ex_status ''c1'' 1)\<lparr>cs_Terminated := True\<rparr>)"
    "\<forall>s \<in> set (pd_ContainerStatuses ex_terminated). normalizeContainerID (cs_ContainerID s) \<noteq> ''''"
    "inj_on (\<lambda>s. normalizeContainerID (cs_ContainerID s)) (set (pd_ContainerStatuses ex_terminated))"
    by (simp_all add: ex_terminated_def ex_pod_def ex_status_def normalizeContainerID_def HasPrefix_def)
  from missing_reason_ignores_status [OF 1, of 5 ex_container "ex_objects []"] show ?thesis
    by (simp add: ex_objects_def ghas_def)
qed

definition ex_collector :: collector where
  "ex_collector =
     \<lparr>cl_state = snd (snd ex_init),
      cl_Labeler = \<lparr>lb_BuiltIn = \<lparr>bl_UseQuotaNameForPriorityClass = False\<rparr>, lb_Extension = \<lparr>xl_Extensions = fst (fst ex_init), xl_SideCar = []\<rparr>\<rparr>,
      cl_Resources = [(''cpu'', ''cpu_cores'')], cl_Aggregations = [],
      cl_env = \<lparr>ev_overriders = [], ev_cluster = '''', ae_Prefix = '''', ae_SaveSamplesLocally = False\<rparr>, cl_Save = None,
      cl_EnableResourceQuotaDescriptor = False, cl_SchedulerHealth = None, cl_RestrictMaxUtilizationToContainerLimits = False,
      cl_RestrictMaxPeriods = 0, cl_UnhealthyNodeConditions = [], cl_CGroupSources = [],
      cl_CGroupRoot = \<lparr>cg_Name = '''', cg_AvgName = ''''\<rparr>, cl_ClusterScoped = [], cl_startTime = 0\<rparr>"

lemma unsaved_values: "snd st = None \<Longrightarrow> \<exists>ms. addValuesToMetrics Q c vs l t st = Some (ms, None)"
proof -
  have "snd (foldl (\<lambda>st (src, v). foldl (add_resource Q l t None src v) st res) (m, None) vs) = None" for m res
  proof -
    have 1: "snd (foldl (add_resource Q l t None src v) (m, None) res) = None" for m src v
      by (induction res arbitrary: m) (auto simp: add_resource_def AddQuantityValues_def add_values_def Let_def split: option.split)
    show ?thesis
    proof (induction vs arbitrary: m)
      case (Cons sv vs)
      then show ?case using 1 [of "fst sv" "snd sv" m] by (cases sv) (metis (no_types, lifting) case_prod_conv foldl_Cons prod.collapse fst_conv snd_conv)
    qed simp
  qed
  then show "snd st = None \<Longrightarrow> \<exists>ms. addValuesToMetrics Q c vs l t st = Some (ms, None)"
    by (simp add: addValuesToMetrics_def NewSample_def prod_eq_iff)
qed

lemma unsaved_container:
  assumes "snd (ks_container st) = None"
  shows "\<exists>st'. collect_container Q now c ob pod l st x = Some st' \<and> snd (ks_container st') = None
     \<and> ks_pod st' = ks_pod st \<and> ks_scheduler st' = ks_scheduler st"
proof -
  show ?thesis
    using unsaved_values [OF assms] by (fastforce simp: collect_container_eq container_usage_effect)
qed

lemma unsaved_containers:
  "snd (ks_container st) = None \<Longrightarrow> \<exists>st'. ofold (collect_container Q now c ob pod l) st xs = Some st' \<and> snd (ks_container st') = None
     \<and> ks_pod st' = ks_pod st \<and> ks_scheduler st' = ks_scheduler st"
proof (induction xs arbitrary: st)
  case (Cons x xs)
  from unsaved_container [OF Cons.prems] obtain s where s: "collect_container Q now c ob pod l st x = Some s"
    "snd (ks_container s) = None" "ks_pod s = ks_pod st" "ks_scheduler s = ks_scheduler st" by blast
  from Cons.IH [OF s(2)] s show ?case by simp
qed simp

lemma unsaved_pods:
  "snd (ks_container st) = None \<Longrightarrow> snd (ks_pod st) = None \<Longrightarrow> snd (ks_scheduler st) = None \<Longrightarrow>
     \<exists>st'. ofold (collect_pod Q get now c ob) st ps = Some st'"
proof (induction ps arbitrary: st)
  case (Cons p ps)
  let ?l = "pod_labels get c ob p"
  from unsaved_values [OF Cons.prems(2)] obtain a where a: "addValuesToMetrics Q c (GetValuesForPod Q p) ?l PodType (ks_pod st) = Some (a, None)"
    by blast
  from unsaved_values [OF Cons.prems(3)] obtain b where
    b: "addValuesToMetrics Q c (GetValuesForSchedulerHealth Q now p (cl_SchedulerHealth c)) ?l SchedulerHealthType (ks_scheduler st) = Some (b, None)"
    by blast
  from unsaved_containers [of "st\<lparr>ks_pod := (a, None), ks_scheduler := (b, None)\<rparr>"] Cons.prems(1) obtain s where
    s: "ofold (collect_container Q now c ob p ?l) (st\<lparr>ks_pod := (a, None), ks_scheduler := (b, None)\<rparr>) (pd_Containers p) = Some s"
    "snd (ks_container s) = None" "ks_pod s = (a, None)" "ks_scheduler s = (b, None)" by fastforce
  then have "collect_pod Q get now c ob st p = Some s" by (simp add: collect_pod_def Let_def a b)
  with Cons.IH [of s] s show ?case by simp
qed simp

lemma unsaved_collection:
  assumes "cl_Save c = None" "cl_Aggregations c = []"
  shows "\<exists>res st. collectContainers Q get now c ob = Some (res, st)"
proof -
  let ?s = "\<lparr>ks_utilization = GetContainerUsageSummary (ob_UtilizationByNode ob), ks_container = ([], None), ks_pod = ([], None),
    ks_scheduler = ([], None), ks_results = [], ks_nodeMissing = []\<rparr> :: 'a containerState"
  obtain st where "ofold (collect_pod Q get now c ob) ?s (ob_Pods ob) = Some st"
    using unsaved_pods [of ?s Q get now c ob "ob_Pods ob"] by auto
  then show ?thesis
    using assms by (simp add: collectContainers_def NewSampleListBuilder_def newSampleListBuilder_def aggregateType_def ByType_def)
qed


end
