(* ===== verification/Sample_Cache_Props.thy ===== *)
theory Sample_Cache_Props
  imports Sample_Cache
begin

text \<open>
  What the sample cache promises: the ring is a log of bounded length, a sample returned is one of the last
  samples added and passed the filters, a rate is the exact rate rounded down while the counter grows.
\<close>

section \<open>Bounded logs\<close>

locale bounded_log =
  fixes add :: "'s \<Rightarrow> 'a \<Rightarrow> 's"
    and contents :: "'s \<Rightarrow> 'a list"
    and latest :: "'s \<Rightarrow> 'a option"
    and cap :: "'s \<Rightarrow> nat"
    and ok :: "'s \<Rightarrow> bool"
  assumes ok_add: "ok s \<Longrightarrow> ok (add s x)"
    and cap_add: "cap (add s x) = cap s"
    and contents_add: "ok s \<Longrightarrow> contents (add s x) = last_n (cap s) (contents s @ [x])"
    and latest_add: "ok s \<Longrightarrow> latest (add s x) = Some x"
    and length_contents: "ok s \<Longrightarrow> length (contents s) \<le> cap s"
begin

lemma adds:
  assumes "ok s"
  shows "ok (foldl add s xs)" "cap (foldl add s xs) = cap s"
    and "contents (foldl add s xs) = last_n (cap s) (contents s @ xs)"
proof -
  have "ok (foldl add s xs) \<and> cap (foldl add s xs) = cap s \<and> contents (foldl add s xs) = last_n (cap s) (contents s @ xs)"
  proof (induction xs rule: rev_induct)
    case Nil
    with assms length_contents show ?case by simp
  next
    case (snoc x xs)
    then show ?case by (simp add: ok_add cap_add contents_add last_n_snoc)
  qed
  then show "ok (foldl add s xs)" "cap (foldl add s xs) = cap s"
    "contents (foldl add s xs) = last_n (cap s) (contents s @ xs)" by simp_all
qed

lemma latest_adds: "ok s \<Longrightarrow> latest (foldl add s (xs @ [x])) = Some x"
  by (simp add: latest_add adds)

end

section \<open>The ring is a bounded log\<close>

definition ring_add :: "'a ring \<Rightarrow> 'a \<Rightarrow> 'a ring" where
  "ring_add r x = ring_set x (ring_Next r)"

definition ring_contents :: "'a ring \<Rightarrow> 'a list" where
  "ring_contents r = List.map_filter (\<lambda>x. x) (ring_Do (ring_Next r))"

definition ring_cap :: "'a ring \<Rightarrow> nat" where
  "ring_cap r = length (rg_slots r)"

definition ring_ok :: "'a ring \<Rightarrow> bool" where
  "ring_ok r \<longleftrightarrow> rg_pos r < length (rg_slots r) \<and> (\<exists>k xs. ring_Do (ring_Next r) = replicate k None @ map Some xs)"

lemma length_ring_Do [simp]: "length (ring_Do r) = length (rg_slots r)"
  by (simp add: ring_Do_def)

lemma ring_sel [simp]:
  "rg_slots (ring_Next r) = rg_slots r" "rg_pos (ring_Next r) = Suc (rg_pos r) mod length (rg_slots r)"
  "length (rg_slots (ring_set x r)) = length (rg_slots r)" "rg_pos (ring_set x r) = rg_pos r"
  by (simp_all add: ring_Next_def ring_set_def)

lemma ring_Do_add:
  assumes "rg_pos r < length (rg_slots r)"
  shows "ring_Do (ring_Next (ring_add r x)) = tl (ring_Do (ring_Next r)) @ [Some x]"
proof (rule nth_equalityI)
  let ?n = "length (rg_slots r)" and ?p = "Suc (rg_pos r) mod length (rg_slots r)"
  show "length (ring_Do (ring_Next (ring_add r x))) = length (tl (ring_Do (ring_Next r)) @ [Some x])"
    using assms by (simp add: ring_add_def)
  fix i
  assume "i < length (ring_Do (ring_Next (ring_add r x)))"
  then have i: "i < ?n" by (simp add: ring_add_def)
  have m: "(Suc ?p + i) mod ?n = Suc (Suc (rg_pos r + i)) mod ?n"
    by (metis add_Suc mod_Suc_eq mod_add_left_eq)
  have l: "ring_Do (ring_Next (ring_add r x)) ! i = (rg_slots r)[?p := Some x] ! ((Suc ?p + i) mod ?n)"
    unfolding m using i by (simp add: ring_Do_def ring_add_def ring_set_def ring_Next_def mod_simps)
  have p: "?p < ?n" using assms by (intro mod_less_divisor) linarith
  show "ring_Do (ring_Next (ring_add r x)) ! i = (tl (ring_Do (ring_Next r)) @ [Some x]) ! i"
  proof (cases "Suc i = ?n")
    case True
    then have "(Suc ?p + i) mod ?n = ?p" using p by (simp flip: add_Suc_right)
    moreover from True have "\<not> i < ?n - Suc 0" "i - (?n - Suc 0) = 0" by linarith+
    ultimately show ?thesis using p l by (simp add: nth_append)
  next
    case False
    with i have i': "Suc i < ?n" by simp
    have ne: "(Suc ?p + i) mod ?n \<noteq> ?p"
    proof (cases "Suc ?p + i < ?n")
      case True
      then show ?thesis by simp
    next
      case False
      then have "(Suc ?p + i) mod ?n = Suc ?p + i - ?n" using i p by (simp add: le_mod_geq)
      with False i' show ?thesis by linarith
    qed
    have "tl (ring_Do (ring_Next r)) ! i = rg_slots r ! ((?p + Suc i) mod ?n)"
      using i' by (simp add: nth_tl ring_Do_def)
    moreover from i' have "i < ?n - Suc 0" by linarith
    ultimately show ?thesis using l ne by (simp add: nth_append)
  qed
qed

lemma ring_contents_shape:
  "ring_Do (ring_Next r) = replicate k None @ map Some xs \<Longrightarrow> ring_contents r = xs"
  by (simp add: ring_contents_def map_filter_def comp_def)

lemma ring_add_shape:
  assumes "rg_pos r < length (rg_slots r)" "ring_Do (ring_Next r) = replicate k None @ map Some xs"
  shows "\<exists>k'. ring_Do (ring_Next (ring_add r x)) = replicate k' None @ map Some (last_n (ring_cap r) (xs @ [x]))"
proof -
  have len: "k + length xs = ring_cap r"
    using arg_cong [OF assms(2), of length] by (simp add: ring_cap_def)
  show ?thesis
  proof (cases k)
    case 0
    with len assms(1) have "last_n (ring_cap r) (xs @ [x]) = tl xs @ [x]"
      by (cases xs) (auto simp: last_n_def ring_cap_def)
    with 0 assms show ?thesis by (auto simp: ring_Do_add map_tl intro!: exI [of _ 0])
  next
    case (Suc k')
    with len have "last_n (ring_cap r) (xs @ [x]) = xs @ [x]" by simp
    with Suc assms show ?thesis by (auto simp: ring_Do_add intro!: exI [of _ k'])
  qed
qed

interpretation rlog: bounded_log ring_add ring_contents ring_Value ring_cap ring_ok
proof
  fix r :: "'a ring" and x :: 'a
  show "ring_cap (ring_add r x) = ring_cap r" by (simp add: ring_cap_def ring_add_def)
  assume ok: "ring_ok r"
  then obtain k xs where pos: "rg_pos r < length (rg_slots r)" and s: "ring_Do (ring_Next r) = replicate k None @ map Some xs"
    by (auto simp: ring_ok_def)
  obtain k' where s': "ring_Do (ring_Next (ring_add r x)) = replicate k' None @ map Some (last_n (ring_cap r) (xs @ [x]))"
    using ring_add_shape [OF pos s] by blast
  have pos': "rg_pos (ring_add r x) < length (rg_slots (ring_add r x))"
    using pos by (simp add: ring_add_def) (metis mod_less_divisor not_less_zero gr0I)
  show "ring_ok (ring_add r x)" unfolding ring_ok_def using s' pos' by blast
  show "ring_contents (ring_add r x) = last_n (ring_cap r) (ring_contents r @ [x])"
    using ring_contents_shape [OF s] ring_contents_shape [OF s'] by simp
  show "ring_Value (ring_add r x) = Some x"
    using pos by (simp add: ring_Value_def ring_add_def ring_set_def ring_Next_def)
      (metis mod_less_divisor nth_list_update_eq not_less_zero gr0I)
  have "k + length xs = ring_cap r" using arg_cong [OF s, of length] by (simp add: ring_cap_def)
  then show "length (ring_contents r) \<le> ring_cap r" using ring_contents_shape [OF s] by simp
qed

lemma ring_New_ok: "0 < n \<Longrightarrow> ring_ok (ring_New n)" "ring_contents (ring_New n) = []" "ring_cap (ring_New n) = n"
proof -
  have "ring_Do (ring_Next (ring_New n)) = replicate n None"
    by (rule nth_equalityI) (simp_all add: ring_Do_def ring_New_def ring_Next_def)
  then have s: "ring_Do (ring_Next (ring_New n)) = replicate n None @ map Some []" by simp
  have "0 < n \<Longrightarrow> rg_pos (ring_New n) < length (rg_slots (ring_New n))" by (simp add: ring_New_def)
  then show "0 < n \<Longrightarrow> ring_ok (ring_New n)" unfolding ring_ok_def using s by blast
  show "ring_contents (ring_New n) = []" using s by (rule ring_contents_shape)
  show "ring_cap (ring_New n) = n" by (simp add: ring_cap_def ring_New_def)
qed

section \<open>What the cache returns\<close>

definition kept :: "sampleCache \<Rightarrow> ('k, sampleInstant) gomap list \<Rightarrow> 'k \<Rightarrow> sampleInstant list" where
  "kept s ms k = concat (map (\<lambda>m. case map_of m k of None \<Rightarrow> [] | Some v \<Rightarrow> if sample_ok s v then [v] else []) ms)"

lemma kept_snoc:
  "kept s (ms @ [m]) k = kept s ms k @ (case map_of m k of None \<Rightarrow> [] | Some v \<Rightarrow> if sample_ok s v then [v] else [])"
  by (simp add: kept_def)

lemma kept_ok: "v \<in> set (kept s ms k) \<Longrightarrow> sample_ok s v"
  by (auto simp: kept_def split: option.splits if_splits)

lemma length_kept: "length (kept s ms k) \<le> length ms"
  by (induction ms) (auto simp: kept_def split: option.splits)

abbreviation result_of :: "sampleInstant list \<Rightarrow> sampleResult" where
  "result_of vs \<equiv> \<lparr>sr_values = vs, sr_avg = si_zero\<rparr>"

lemma index_samples_lookup:
  assumes "gomap_wf m"
  shows "map_of (index_samples s index m) k =
     (case map_of m k of
        None \<Rightarrow> map_of index k
      | Some v \<Rightarrow> if sample_ok s v
                 then Some (let c = gget (result_of []) index k in c\<lparr>sr_values := sr_values c @ [v]\<rparr>) else map_of index k)"
  using assms
proof (induction m arbitrary: index)
  case (Cons e m)
  obtain k' v where e: "e = (k', v)" by (cases e)
  have "k' \<notin> fst ` set m" "gomap_wf m" using Cons.prems by (simp_all add: e gomap_wf_def)
  then have "map_of m k' = None" by (simp add: map_of_eq_None_iff)
  with Cons.IH [OF \<open>gomap_wf m\<close>] show ?case
    by (simp add: e index_samples_def Let_def split: option.split)
qed (simp add: index_samples_def)

lemma index_all_lookup:
  assumes "\<forall>m \<in> set ms. gomap_wf m"
  shows "map_of (foldl (index_samples s) [] ms) k = (if kept s ms k = [] then None else Some (result_of (kept s ms k)))"
  using assms
proof (induction ms rule: rev_induct)
  case (snoc m ms)
  then show ?case
    by (auto simp: index_samples_lookup kept_snoc gget_def Let_def split: option.split)
qed (simp add: kept_def)

lemma map_of_map_values: "map_of (map (\<lambda>(k, v). (k, f v)) m) k = map_option f (map_of m k)"
  by (induction m) auto

lemma foldl_map_arg: "foldl (\<lambda>s x. f s (g x)) s xs = foldl f s (map g xs)"
  by (induction xs arbitrary: s) auto

lemma getAllSamples_lookup:
  assumes "\<forall>x \<in> set (ring_contents (ca_samples s)). gomap_wf (ss_containers x)"
  shows "map_of (al_containers (fst (getAllSamples conv s))) k =
     (let vs = kept s (map ss_containers (ring_contents (ca_samples s))) k
      in if vs = [] then None else Some (populateSummary conv s (result_of vs)))"
proof -
  have "al_containers (fst (getAllSamples conv s)) = map (\<lambda>(k, c). (k, populateSummary conv s c))
      (foldl (index_samples s) [] (map ss_containers (ring_contents (ca_samples s))))"
    by (simp add: getAllSamples_def Let_def ring_contents_def foldl_map_arg)
  with assms show ?thesis
    by (simp add: map_of_map_values index_all_lookup Let_def)
qed

lemma populateSummary_values [simp]: "sr_values (populateSummary conv s r) = sr_values r"
  by (simp add: populateSummary_def populateCadvisorSummary_def Let_def split: prod.split)

lemma kept_map_filter:
  "kept s (map f xs) k =
     List.map_filter (\<lambda>x. case map_of (f x) k of None \<Rightarrow> None | Some v \<Rightarrow> if sample_ok s v then Some v else None) xs"
  by (induction xs) (simp_all add: kept_def map_filter_simps split: option.split)

lemma AddSamples:
  "ca_samples (foldl AddSample s xs) = foldl ring_add (ca_samples s) xs"
  "ca_metricsReader (foldl AddSample s xs) = ca_metricsReader s"
  by (induction xs arbitrary: s) (simp_all add: AddSample_def ring_add_def)

lemma map_option_if: "map_option f (if b then None else Some x) = (if b then None else Some (f x))"
  by simp

lemma sample_ok_le:
  "sample_ok s v \<longleftrightarrow>
     si_HasCPUData v \<and> si_CPUCoresNanoSec v \<le> rd_MaxCPUCoresNanoSec (mr_Reader (ca_metricsReader s))
     \<and> si_CPUThrottledUSec v \<le> rd_MaxCPUCoresNanoSec (mr_Reader (ca_metricsReader s))"
  by (simp add: sample_ok_def not_less)

lemma sample_ok_AddSamples: "sample_ok (foldl AddSample s xs) = sample_ok s"
  by (simp add: fun_eq_iff sample_ok_def AddSamples)

lemma kept_AddSamples: "kept (foldl AddSample s xs) ms k = kept s ms k"
  unfolding kept_def sample_ok_AddSamples by (rule refl)

lemma cache_window:
  assumes "0 < n" "ca_samples s = ring_New n" "\<forall>x \<in> set xs. gomap_wf (ss_containers x)"
  shows "map_of (al_containers (fst (getAllSamples conv (foldl AddSample s xs)))) k =
     (let vs = kept s (map ss_containers (last_n n xs)) k
      in if vs = [] then None else Some (populateSummary conv (foldl AddSample s xs) (result_of vs)))"
proof -
  let ?s = "foldl AddSample s xs"
  have c: "ring_contents (ca_samples ?s) = last_n n xs"
    using rlog.adds [OF ring_New_ok(1) [OF assms(1)], of xs] by (simp add: AddSamples assms(2) ring_New_ok)
  have "\<forall>x \<in> set (ring_contents (ca_samples ?s)). gomap_wf (ss_containers x)"
    unfolding c using assms(3) set_last_n_subset [of n xs] by (simp add: subset_iff)
  from getAllSamples_lookup [OF this, of conv k] show ?thesis by (simp add: c kept_AddSamples)
qed

lemma gomap_wf_index_samples: "gomap_wf index \<Longrightarrow> gomap_wf (index_samples s index m)"
  unfolding index_samples_def by (induction m arbitrary: index) (auto simp: Let_def)

lemma gomap_wf_index: "gomap_wf index \<Longrightarrow> gomap_wf (foldl (\<lambda>index x. index_samples s index (f x)) index xs)"
  by (induction xs arbitrary: index) (auto intro: gomap_wf_index_samples)

lemma gomap_wf_containers: "gomap_wf (al_containers (fst (getAllSamples conv s)))"
  using gomap_wf_index [of "[]" s ss_containers] by (simp add: getAllSamples_def Let_def gomap_wf_def comp_def split_beta)

text \<open>
  C16. The cache is a window on the last samples: after any number of samples have been added to a fresh cache of
  size \<^verbatim>\<open>n\<close>, the values returned for a container are those of the last \<^verbatim>\<open>n\<close> samples, in the order they
  were taken, that mention the container and pass the filters (they have CPU data, and neither the usage nor
  the throttling exceeds the configured maximum); a container without such a value is absent.
\<close>

theorem cache_returns_last_accepted_samples:
  assumes "0 < n" "ca_samples s = ring_New n" "\<forall>x \<in> set xs. gomap_wf (ss_containers x)"
  shows "map_option sr_values (map_of (al_containers (fst (getAllSamples conv (foldl AddSample s xs)))) k)
     = (let vs = List.map_filter (\<lambda>x. case map_of (ss_containers x) k of
                      None \<Rightarrow> None
                    | Some v \<Rightarrow> if si_HasCPUData v
                                  \<and> si_CPUCoresNanoSec v \<le> rd_MaxCPUCoresNanoSec (mr_Reader (ca_metricsReader s))
                                  \<and> si_CPUThrottledUSec v \<le> rd_MaxCPUCoresNanoSec (mr_Reader (ca_metricsReader s))
                               then Some v else None) (last_n n xs)
        in if vs = [] then None else Some vs)"
  unfolding cache_window [OF assms] kept_map_filter sample_ok_le Let_def
  by (simp only: map_option_if populateSummary_values sampleResult.select_convs)

definition ex_cache :: sampleCache where
  "ex_cache = \<lparr>ca_Size = 2, ca_metricsReader = \<lparr>mr_Reader = ex_reader, mr_cpuFiles = [], mr_memoryFiles = [], mr_nodeCPUFiles = [],
     mr_nodeMemoryFiles = [], mr_once = None, mr_knownContainersSet = None\<rparr>, ca_samples = ring_New 2,
     ca_UseContainerMonitor = False, ca_UseCadvisorMonitor = False\<rparr>"

definition ex_sample :: "bool \<Rightarrow> u64 \<Rightarrow> sampleInstants" where
  "ex_sample b c = \<lparr>ss_containers = [(ContainerKey_zero, si_zero\<lparr>si_HasCPUData := b, si_CPUCoresNanoSec := c\<rparr>)], ss_node = []\<rparr>"

lemma ex_cache_sel: "ca_samples ex_cache = ring_New 2" "rd_MaxCPUCoresNanoSec (mr_Reader (ca_metricsReader ex_cache)) = 100"
  by (simp_all add: ex_cache_def ex_reader_def)

theorem cache_returns_last_accepted_samples_witness:
  "map_option (map si_CPUCoresNanoSec \<circ> sr_values)
     (map_of (al_containers (fst (getAllSamples (\<lambda>_. 0)
        (foldl AddSample ex_cache [ex_sample False 0, ex_sample True 7, ex_sample True 8, ex_sample True 200])))) ContainerKey_zero)
   = Some [8]"
proof -
  let ?xs = "[ex_sample False 0, ex_sample True 7, ex_sample True 8, ex_sample True 200]"
  have "\<forall>x \<in> set ?xs. gomap_wf (ss_containers x)" by (simp add: ex_sample_def gomap_wf_def)
  note r = cache_returns_last_accepted_samples [OF _ ex_cache_sel(1) this, of "\<lambda>_. 0" ContainerKey_zero, unfolded ex_cache_sel(2)]
  have l: "last_n 2 ?xs = [ex_sample True 8, ex_sample True 200]" by (simp add: last_n_def)
  have v: "map_of (ss_containers (ex_sample b c)) ContainerKey_zero = Some (si_zero\<lparr>si_HasCPUData := b, si_CPUCoresNanoSec := c\<rparr>)" for b c
    by (simp add: ex_sample_def)
  have z: "si_CPUThrottledUSec si_zero = 0" by (simp add: si_zero_def)
  show ?thesis
    using r unfolding l option.map_comp [symmetric] by (auto simp: map_filter_simps v z simp del: foldl_Cons)
qed

section \<open>Rates\<close>

lemma uint_diff:
  fixes old new :: u64
  assumes "old \<le> new"
  shows "uint (new - old) = uint new - uint old"
  using assms by (simp add: uint_minus_simple_alt)

lemma pow2_le_1023: "j \<le> 1023 \<Longrightarrow> (2 :: rat) ^ j \<le> 2 ^ 1023"
  by (rule power_increasing) auto

lemma int_u64_bounds:
  assumes "0 \<le> n" "n < 2 ^ 64"
  shows "0 \<le> (of_int n :: rat)" "(of_int n :: rat) \<le> 2 ^ 64"
proof -
  have "(of_int n :: rat) \<le> of_int (2 ^ 64)" using assms by (simp only: of_int_le_iff)
  then show "(of_int n :: rat) \<le> 2 ^ 64" by simp
  show "0 \<le> (of_int n :: rat)" using assms by simp
qed

lemma uint_u64: "0 \<le> uint (w :: u64)" "uint (w :: u64) < 2 ^ 64"
  using uint_bounded [of w] by simp_all

lemmas u64_bounds = int_u64_bounds [OF uint_u64]

lemma rnd64_bounds_u64: "0 \<le> rnd64 (of_int (uint (w :: u64)))" "rnd64 (of_int (uint (w :: u64))) \<le> 2 ^ 64"
proof -
  show "0 \<le> rnd64 (of_int (uint w))" by (rule rnd64_nonneg [OF u64_bounds(1)])
  show "rnd64 (of_int (uint w)) \<le> 2 ^ 64"
    using rnd64_mono [OF u64_bounds, of w] by (simp only: rnd64_pow2)
qed

lemma f64_of_u64_Fin: "f64_of_u64 w = Fin (rnd64 (of_int (uint w)))"
proof -
  have "(of_int (uint w) :: rat) \<le> 2 ^ 1023" by (rule order_trans [OF u64_bounds(2) pow2_le_1023]) simp
  then show ?thesis unfolding f64_of_u64_def f64_of_int_def by (rule f64_of_rat_Fin [OF u64_bounds(1)])
qed

lemma normalizeSeconds_whole:
  assumes "0 < k" "k \<le> 2 ^ 30"
  shows "normalizeSeconds conv old new (Seconds (k * Second))
    = f64_to_u64 conv (Fin (rnd64 (rnd64 (of_int (uint (new - old))) / of_int k)))"
proof -
  define y where "y = rnd64 (of_int (uint (new - old)))"
  have sec: "Seconds (k * Second) = Fin (of_int k)" using assms by (intro Seconds_whole) simp_all
  have y: "0 \<le> y" "y \<le> 2 ^ 64" unfolding y_def by (rule rnd64_bounds_u64)+
  have k: "(1 :: rat) \<le> of_int k" using assms(1) by simp
  have x: "0 \<le> y / of_int k" using y k by simp
  have "y / of_int k \<le> y / 1" using y k by (intro divide_left_mono) auto
  also have "\<dots> \<le> 2 ^ 64" using y by simp
  also have "\<dots> \<le> 2 ^ 1023" by (rule pow2_le_1023) simp
  finally have f: "f64_of_rat (y / of_int k) = Fin (rnd64 (y / of_int k))" by (rule f64_of_rat_Fin [OF x])
  have "(of_int k :: rat) \<noteq> 0" using assms(1) by simp
  then show ?thesis
    unfolding normalizeSeconds_def sec f64_of_u64_Fin y_def [symmetric] f64_div.simps
    using f rnd64_nonneg [OF x] by (simp only: if_False f64_max.simps max_absorb1)
qed



lemma uint_diff_wrap:
  fixes old new :: u64
  assumes "new < old"
  shows "uint (new - old) = 2 ^ 64 - (uint old - uint new)"
proof -
  have "uint new < uint old" using assms by (simp add: word_less_def)
  with uint_u64 [of old] uint_u64 [of new] show ?thesis
    by (simp add: uint_sub_if')
qed

text \<open>
  A counter that was reset (it is below its previous value, by at most \<^verbatim>\<open>2^63\<close>) does not yield rate 0, although
  the maximum with 0 is taken: the unsigned difference has wrapped before it is converted to floating point,
  so the rate is at least \<^verbatim>\<open>2^32\<close> for any interval of 2 to \<^verbatim>\<open>2^30\<close> seconds.
\<close>

theorem counter_reset_rate_is_huge:
  assumes "new < old" "uint old - uint new \<le> 2 ^ 63" "2 \<le> k" "k \<le> 2 ^ 30"
  shows "2 ^ 32 \<le> uint (normalizeSeconds conv old new (Seconds (k * Second)))"
proof -
  define y where "y = rnd64 (of_int (uint (new - old)))"
  have "2 ^ 63 \<le> uint (new - old)" unfolding uint_diff_wrap [OF assms(1)] using assms(2) by simp
  then have "(of_int (2 ^ 63) :: rat) \<le> of_int (uint (new - old))" by (simp only: of_int_le_iff)
  then have "rnd64 (2 ^ 63) \<le> y" unfolding y_def by (intro rnd64_mono) simp_all
  then have y: "2 ^ 63 \<le> y" "y \<le> 2 ^ 64" unfolding rnd64_pow2 y_def by (simp_all only: rnd64_bounds_u64)
  have k: "(2 :: rat) \<le> of_int k" "(of_int k :: rat) \<le> of_int (2 ^ 30)"
    using assms(3) by simp (use assms(4) in \<open>simp only: of_int_le_iff\<close>)
  have "(2 :: rat) ^ 33 = 2 ^ 63 / 2 ^ 30" by simp
  also have "\<dots> \<le> 2 ^ 63 / of_int k" using k by (intro divide_left_mono) auto
  also have "\<dots> \<le> y / of_int k" using y k by (intro divide_right_mono) auto
  finally have lo: "2 ^ 33 \<le> y / of_int k" .
  have "y / of_int k \<le> y / 2" using y k by (intro divide_left_mono) auto
  also have "\<dots> \<le> 2 ^ 63" using y by simp
  finally have hi: "y / of_int k \<le> 2 ^ 63" .
  have r: "2 ^ 33 \<le> rnd64 (y / of_int k)" "rnd64 (y / of_int k) \<le> 2 ^ 63"
    using rnd64_mono [OF _ lo] rnd64_mono [OF _ hi] lo unfolding rnd64_pow2 by simp_all
  then have f: "2 ^ 33 \<le> \<lfloor>rnd64 (y / of_int k)\<rfloor>" "\<lfloor>rnd64 (y / of_int k)\<rfloor> \<le> 2 ^ 63" and nn: "0 \<le> rnd64 (y / of_int k)"
    by (simp_all add: le_floor_iff)
  have "normalizeSeconds conv old new (Seconds (k * Second)) = of_int \<lfloor>rnd64 (y / of_int k)\<rfloor>"
  proof -
    have "0 < k" using assms(3) by simp
    from normalizeSeconds_whole [OF this assms(4), of conv old new] f nn show ?thesis
      unfolding y_def [symmetric] by (simp add: f64_to_u64_def trunc_rat_def)
  qed
  moreover have "uint (of_int \<lfloor>rnd64 (y / of_int k)\<rfloor> :: u64) = \<lfloor>rnd64 (y / of_int k)\<rfloor>"
    using f by (simp add: unsigned_of_int take_bit_int_eq_self)
  ultimately show ?thesis using f(1) by simp
qed

theorem counter_reset_rate_is_huge_witness:
  "2 ^ 32 \<le> uint (normalizeSeconds (\<lambda>_. 0) 1000 0 (Seconds (2 * Second)))"
  using counter_reset_rate_is_huge [of 0 1000 2 "\<lambda>_. 0"] by simp

section \<open>Averages\<close>

lemma uint_sum_u64:
  assumes "sum_list (map uint xs) < 2 ^ 64"
  shows "uint (sum_u64 xs) = sum_list (map uint xs)"
proof -
  have "uint (foldl (+) z xs) = uint z + sum_list (map uint xs)" if "uint z + sum_list (map uint xs) < 2 ^ 64" for z
    using that
  proof (induction xs arbitrary: z)
    case (Cons x xs)
    have "0 \<le> sum_list (map uint xs)" by (rule sum_list_nonneg) auto
    with Cons.prems have "uint z + uint x < 2 ^ 64" by simp
    then have "uint (z + x) = uint z + uint x" using uint_add_lem [of z x] by simp
    with Cons show ?case by simp
  qed simp
  from this [of 0] assms show ?thesis by (simp add: sum_u64_def)
qed

lemma avg_memory:
  assumes "2 \<le> length (sr_values sr)"
  shows "si_MemoryBytes (sr_avg (populateSummary conv s sr)) =
     (let vs = summary_values (drop_first s) (sr_values sr) in sum_u64 (map si_MemoryBytes vs) div sum_u64 (map (\<lambda>_. 1) vs))"
  using assms by (simp add: populateSummary_def populateCadvisorSummary_def Let_def split: prod.split)

text \<open>
  The average memory of a container with at least two samples is the mean, rounded down, of the samples the
  summary covers (all of them, or all but the first when that one is configured away), as long as their sum
  fits 64 bits; so it lies between the smallest and the largest of them, and the division is never by 0.
\<close>

theorem average_memory_is_mean:
  assumes "2 \<le> length (sr_values sr)" "vs = map (uint \<circ> si_MemoryBytes) (summary_values (drop_first s) (sr_values sr))"
    and "sum_list vs < 2 ^ 64" "length vs < 2 ^ 64"
  shows "vs \<noteq> [] \<and> uint (si_MemoryBytes (sr_avg (populateSummary conv s sr))) = sum_list vs div int (length vs)
     \<and> Min (set vs) \<le> uint (si_MemoryBytes (sr_avg (populateSummary conv s sr)))
     \<and> uint (si_MemoryBytes (sr_avg (populateSummary conv s sr))) \<le> Max (set vs)"
proof -
  let ?l = "int (length vs)"
  have ne: "vs \<noteq> []" using assms(1,2) by (auto simp: summary_values_def dest: arg_cong [of _ _ length] split: if_splits)
  then have l: "0 < ?l" by simp
  have "int (length vs) < int (2 ^ 64)" using assms(4) by (simp only: of_nat_less_iff)
  then have "uint (sum_u64 (map (\<lambda>_. 1) (summary_values (drop_first s) (sr_values sr)))) = ?l"
    by (subst uint_sum_u64) (simp_all add: assms(2) comp_def sum_list_triv)
  moreover have "uint (sum_u64 (map si_MemoryBytes (summary_values (drop_first s) (sr_values sr)))) = sum_list vs"
    using assms(3) by (subst uint_sum_u64) (simp_all add: assms(2))
  ultimately have eq: "uint (si_MemoryBytes (sr_avg (populateSummary conv s sr))) = sum_list vs div ?l"
    using assms(1) by (simp add: avg_memory Let_def uint_div)
  have "?l * Min (set vs) \<le> sum_list vs" "sum_list vs \<le> ?l * Max (set vs)"
    using sum_list_mono [of vs "\<lambda>_. Min (set vs)" "\<lambda>x. x"] sum_list_mono [of vs "\<lambda>x. x" "\<lambda>_. Max (set vs)"]
    by (simp_all add: sum_list_triv)
  then have "Min (set vs) \<le> sum_list vs div ?l" "sum_list vs div ?l \<le> Max (set vs)"
    using l zdiv_mono1 [of "?l * Min (set vs)" "sum_list vs" ?l] zdiv_mono1 [of "sum_list vs" "?l * Max (set vs)" ?l]
    by simp_all
  with ne eq show ?thesis by simp
qed

theorem average_memory_is_mean_witness:
  "uint (si_MemoryBytes (sr_avg (populateSummary (\<lambda>_. 0) ex_cache
     (result_of [si_zero\<lparr>si_MemoryBytes := 4\<rparr>, si_zero\<lparr>si_MemoryBytes := 7\<rparr>])))) = 5"
  using average_memory_is_mean [of "result_of [si_zero\<lparr>si_MemoryBytes := 4\<rparr>, si_zero\<lparr>si_MemoryBytes := 7\<rparr>]" _ ex_cache, OF _ refl]
  by (simp add: summary_values_def drop_first_def ex_cache_def ex_reader_def)

end
