(* ===== verification/Sampler_Server.thy ===== *)
theory Sampler_Server
  imports Sample_Cache_Props
begin

text \<open>
  The sampler's server, \<^verbatim>\<open>pkg/sampler/server.go\<close>: the response that lists the samples of the cache, the connections to
  the collectors, sending with retries, and the loop that pushes. What happens on the network is an argument
  (the result of dialling an address and of every attempt to send), and the loop runs over a list of events
  together with the goroutines that change the connections. The listeners and the DNS client are left out.
\<close>

section \<open>Orders\<close>

definition level_less :: "nodeAggregatedMetrics \<Rightarrow> nodeAggregatedMetrics \<Rightarrow> bool" where
  "level_less a b \<longleftrightarrow> string_less (na_AggregationLevel a) (na_AggregationLevel b)"

section \<open>State\<close>

text \<open>
  A connection stands for its stream: \<^verbatim>\<open>cc_id\<close> tells apart two connections to the same address. Its context is
  cancelled by \<^verbatim>\<open>stop\<close>, and a goroutine waits for that: the goroutines that have not run yet are
  \<^verbatim>\<open>sp_watchers\<close>, the cancelled contexts \<^verbatim>\<open>sp_cancelled\<close>.
\<close>

record collectorConnection =
  cc_addr :: string
  cc_id :: nat

record samplerServer =
  sp_cache :: sampleCache
  sp_Reader :: reader
  sp_SortResults :: bool
  sp_SendPushMetricsRetryCount :: int
  sp_PushHeadlessServicePort :: int
  sp_collectorConnections :: "(string, collectorConnection) gomap"
  sp_nextId :: nat
  sp_watchers :: "(nat \<times> string) list"
  sp_cancelled :: "nat list"
  sp_nodeName :: string
  sp_podName :: string

datatype samplerStartError = BadFrequency | PushTooFrequent | CheckTooFrequent | ContainerdFailed

text \<open>The two frequencies that \<^verbatim>\<open>Start\<close> reads; the parser of duration strings is an argument.\<close>

definition start_frequencies ::
  "(string \<Rightarrow> duration option) \<Rightarrow> string \<Rightarrow> string \<Rightarrow> samplerStartError + duration \<times> duration" where
  "start_frequencies ParseDuration pushFreq checkFreq =
     (case ParseDuration pushFreq of
        None \<Rightarrow> Inl BadFrequency
      | Some p \<Rightarrow>
          if p < 10 * Second then Inl PushTooFrequent
          else (case ParseDuration checkFreq of
                  None \<Rightarrow> Inl BadFrequency
                | Some c \<Rightarrow> if c < Second then Inl CheckTooFrequent else Inr (p, c)))"

section \<open>Listing metrics\<close>

definition network_averages :: "cadvisorNetworkStats option \<Rightarrow> (string \<times> int list \<times> int) list" where
  "network_averages st =
     (case st of
        None \<Rightarrow> []
      | Some n \<Rightarrow>
          [(''rx_bytes'', [], int64_of (nw_RxBytes n)), (''rx_packets'', [], int64_of (nw_RxPackets n)),
           (''rx_errors'', [], int64_of (nw_RxErrors n)), (''rx_dropped'', [], int64_of (nw_RxDropped n)),
           (''tx_bytes'', [], int64_of (nw_TxBytes n)), (''tx_packets'', [], int64_of (nw_TxPackets n)),
           (''tx_errors'', [], int64_of (nw_TxErrors n)), (''tx_dropped'', [], int64_of (nw_TxDropped n))])"

text \<open>The samples that are sent: all of them, or all but the first.\<close>

definition listed_values :: "samplerServer \<Rightarrow> sampleInstant list \<Rightarrow> sampleInstant list" where
  "listed_values s vs = (if rd_DropFirstValue (sp_Reader s) = Some True then drop 1 vs else vs)"

definition sorted_ints :: "samplerServer \<Rightarrow> int list \<Rightarrow> int list" where
  "sorted_ints s xs = (if sp_SortResults s then sort_Sort (<) xs else xs)"

definition list_container :: "samplerServer \<Rightarrow> ContainerKey \<times> sampleResult \<Rightarrow> containerMetrics" where
  "list_container s kv =
     (let (k, v) = kv; vs = listed_values s (sr_values v); avg = sr_avg v
      in \<lparr>us_ContainerID = ck_ContainerID k, us_ContainerName = ck_ContainerName k, us_PodName = ck_PodName k,
          us_NamespaceName = ck_NamespaceName k, us_PodUID = ck_PodUID k, us_NodeName = '''',
          us_CpuCoresNanoSec = sorted_ints s (map (\<lambda>x. int64_of (si_CPUCoresNanoSec x)) vs),
          us_CpuThrottledNanoSec = sorted_ints s (map (\<lambda>x. int64_of (si_CPUThrottledUSec x)) vs),
          us_CpuPercentPeriodsThrottled =
            (let fs = map (\<lambda>x. f32_of_f64 (si_CPUPercentPeriodsThrottled x)) vs
             in if sp_SortResults s then sort_Sort f32_less fs else fs),
          us_MemoryBytes = sorted_ints s (map (\<lambda>x. int64_of (si_MemoryBytes x)) vs),
          us_CpuPeriodsSec = sorted_ints s (map (\<lambda>x. int64_of (si_CPUPeriodsSec x)) vs),
          us_CpuThrottledPeriodsSec = sorted_ints s (map (\<lambda>x. int64_of (si_CPUThrottledPeriodsSec x)) vs),
          us_OomKillCount = int64_of (si_MemoryOOMKill avg), us_OomCount = int64_of (si_MemoryOOM avg),
          us_AvgCPUCoresNanoSec = int64_of (si_CPUCoresNanoSec avg),
          us_AvgCPUThrottledNanoSec = int64_of (si_CPUThrottledUSec avg),
          us_AvgCPUPercentPeriodsThrottled = f32_of_f64 (si_CPUPercentPeriodsThrottled avg),
          us_AvgMemoryBytes = int64_of (si_MemoryBytes avg),
          us_AvgCPUPeriodsSec = int64_of (si_CPUPeriodsSec avg),
          us_AvgCPUThrottledPeriodsSec = int64_of (si_CPUThrottledPeriodsSec avg),
          us_Network = network_averages (si_CAdvisorNetworkStats avg)\<rparr>)"

text \<open>
  A level allocates slices with a capacity of one less than its number of values, and panics (\<^const>\<open>None\<close>) where
  that is negative.
\<close>

definition list_level :: "samplerServer \<Rightarrow> string \<times> sampleResult \<Rightarrow> nodeAggregatedMetrics option" where
  "list_level s kv =
     (let (level, v) = kv; vs = listed_values s (sr_values v)
      in if int (length (sr_values v)) - 1 < 0 then None
         else Some \<lparr>na_AggregationLevel = level,
                    na_CpuCoresNanoSec = sorted_ints s (map (\<lambda>x. int64_of (si_CPUCoresNanoSec x)) vs),
                    na_MemoryBytes = sorted_ints s (map (\<lambda>x. int64_of (si_MemoryBytes x)) vs),
                    na_AvgCPUCoresNanoSec = int64_of (si_CPUCoresNanoSec (sr_avg v)),
                    na_AvgMemoryBytes = int64_of (si_MemoryBytes (sr_avg v))\<rparr>)"

definition ListMetrics :: "(float64 \<Rightarrow> u64) \<Rightarrow> samplerServer \<Rightarrow> listMetricsResponse option" where
  "ListMetrics conv s =
     (let samples = fst (getAllSamples conv (sp_cache s));
          containers = map (list_container s) (al_containers samples)
      in case ofold (\<lambda>ls kv. map_option (\<lambda>l. ls @ [l]) (list_level s kv)) [] (al_node samples) of
           None \<Rightarrow> None
         | Some levels \<Rightarrow>
             Some \<lparr>lr_Containers = containers,
                   lr_Node = (if sp_SortResults s then sort_Sort level_less levels else levels),
                   lr_NodeName = sp_nodeName s, lr_PodName = sp_podName s, lr_Reason = ''pull'', lr_Timestamp = 0\<rparr>)"

section \<open>Connections\<close>

definition show_int :: "int \<Rightarrow> string" where
  "show_int n = (if n < 0 then ''-'' @ show_u64 (nat (- n)) else show_u64 (nat n))"

definition ipToAddressString :: "samplerServer \<Rightarrow> string \<Rightarrow> string" where
  "ipToAddressString s a =
     (if Contains a '':'' \<and> \<not> Contains a ''[''
      then ''['' @ a @ '']:'' @ show_int (sp_PushHeadlessServicePort s)
      else a @ '':'' @ show_int (sp_PushHeadlessServicePort s))"

datatype dialResult = DialFailed | StreamFailed | Connected

definition addConnection :: "(string \<Rightarrow> dialResult) \<Rightarrow> samplerServer \<Rightarrow> string \<Rightarrow> samplerServer" where
  "addConnection dial s addr =
     (if length addr = 0 then s
      else if ghas (sp_collectorConnections s) addr then s
      else case dial addr of
             DialFailed \<Rightarrow> s
           | StreamFailed \<Rightarrow> s
           | Connected \<Rightarrow>
               s\<lparr>sp_collectorConnections :=
                   AList.update addr \<lparr>cc_addr = addr, cc_id = sp_nextId s\<rparr> (sp_collectorConnections s),
                 sp_nextId := Suc (sp_nextId s),
                 sp_watchers := sp_watchers s @ [(sp_nextId s, addr)]\<rparr>)"

definition addConnectionsIfMissing :: "(string \<Rightarrow> dialResult) \<Rightarrow> string list \<Rightarrow> samplerServer \<Rightarrow> samplerServer" where
  "addConnectionsIfMissing dial addrs s = foldl (addConnection dial) s addrs"

text \<open>An address from DNS is given by its text, \<^const>\<open>None\<close> for an address without bytes.\<close>

definition addConnectionsFromIPs :: "(string \<Rightarrow> dialResult) \<Rightarrow> string option list \<Rightarrow> samplerServer \<Rightarrow> samplerServer" where
  "addConnectionsFromIPs dial ips s =
     addConnectionsIfMissing dial (List.map_filter (map_option (ipToAddressString s)) ips) s"

definition addConnectionsFromCollectors ::
  "(string \<Rightarrow> dialResult) \<Rightarrow> string list \<Rightarrow> samplerServer \<Rightarrow> samplerServer" where
  "addConnectionsFromCollectors dial collectors s =
     addConnectionsIfMissing dial
       (map (ipToAddressString s) (filter (\<lambda>i. length i \<noteq> 0) collectors)) s"

definition RegisterCollectors :: "(string \<Rightarrow> dialResult) \<Rightarrow> string list \<Rightarrow> samplerServer \<Rightarrow> samplerServer" where
  "RegisterCollectors dial req s = addConnectionsFromCollectors dial req s"

definition removeConnection :: "samplerServer \<Rightarrow> string \<Rightarrow> samplerServer" where
  "removeConnection s i =
     (case map_of (sp_collectorConnections s) i of
        None \<Rightarrow> s
      | Some c \<Rightarrow> s\<lparr>sp_collectorConnections := AList.delete i (sp_collectorConnections s),
                   sp_cancelled := sp_cancelled s @ [cc_id c]\<rparr>)"

definition removeConnections :: "string list \<Rightarrow> samplerServer \<Rightarrow> samplerServer" where
  "removeConnections ips s = foldl removeConnection s ips"

definition shutdownAllConnections :: "samplerServer \<Rightarrow> samplerServer" where
  "shutdownAllConnections s =
     s\<lparr>sp_cancelled := sp_cancelled s @ map (\<lambda>(_, c). cc_id c) (sp_collectorConnections s),
       sp_collectorConnections := []\<rparr>"

definition getConnections :: "samplerServer \<Rightarrow> collectorConnection list \<times> string list" where
  "getConnections s =
     (map snd (sp_collectorConnections s), map (\<lambda>(_, c). cc_addr c) (sp_collectorConnections s))"

text \<open>The goroutine of a connection: once its context is cancelled it removes the connection of its address.\<close>

definition runWatcher :: "nat \<Rightarrow> samplerServer \<Rightarrow> samplerServer" where
  "runWatcher i s =
     (case map_of (sp_watchers s) i of
        None \<Rightarrow> s
      | Some addr \<Rightarrow>
          if i \<in> set (sp_cancelled s)
          then removeConnections [addr] (s\<lparr>sp_watchers := AList.delete i (sp_watchers s)\<rparr>)
          else s)"

section \<open>Sending\<close>

text \<open>
  \<^verbatim>\<open>send c r\<close> says whether the attempt with number \<^verbatim>\<open>r\<close> succeeds. The result is whether \<^verbatim>\<open>err\<close> is set after the
  loop: its value from before remains if no attempt is made.
\<close>

function sendRetry :: "(nat \<Rightarrow> bool) \<Rightarrow> int \<Rightarrow> nat \<Rightarrow> bool \<Rightarrow> bool" where
  "sendRetry send retryCount retries err =
     (if int retries \<le> retryCount
      then if send retries then False else sendRetry send retryCount (Suc retries) True
      else err)"
  by pat_completeness auto
termination
  by (relation "measure (\<lambda>(_, retryCount, retries, _). nat (retryCount + 1 - int retries))") auto

declare sendRetry.simps [simp del]

text \<open>The addresses of the failed connections, and \<^verbatim>\<open>err\<close>, which is declared outside of the loop.\<close>

definition sendOne ::
  "(collectorConnection \<Rightarrow> nat \<Rightarrow> bool) \<Rightarrow> int \<Rightarrow> bool \<times> string list \<Rightarrow> collectorConnection \<Rightarrow> bool \<times> string list" where
  "sendOne send retryCount acc c =
     (let (err, bad) = acc; err = sendRetry (send c) retryCount 0 err
      in if err then (err, bad @ [cc_addr c]) else (err, bad))"

definition sendMetrics ::
  "(collectorConnection \<Rightarrow> nat \<Rightarrow> bool) \<Rightarrow> samplerServer \<Rightarrow> collectorConnection list \<Rightarrow> string list" where
  "sendMetrics send s collectors = snd (foldl (sendOne send (sp_SendPushMetricsRetryCount s)) (False, []) collectors)"

text \<open>
  The response that was sent (\<^const>\<open>None\<close> where there is nothing to send), the addresses it reached, and the server
  afterwards. A panic of \<^verbatim>\<open>ListMetrics\<close> makes the whole result \<^const>\<open>None\<close>.
\<close>

definition pushMetricsToAllCollectors ::
  "(float64 \<Rightarrow> u64) \<Rightarrow> (collectorConnection \<Rightarrow> nat \<Rightarrow> bool) \<Rightarrow> gotime \<Rightarrow> string \<Rightarrow> samplerServer \<Rightarrow>
   (listMetricsResponse option \<times> string list \<times> samplerServer) option" where
  "pushMetricsToAllCollectors conv send now reason s =
     (let (collectors, addrs) = getConnections s in
      case ListMetrics conv s of
        None \<Rightarrow> None
      | Some resp \<Rightarrow>
          (let resp = resp\<lparr>lr_Timestamp := now, lr_Reason := reason\<rparr> in
           if length (lr_Containers resp) = 0 then Some (None, [], s)
           else
             (let bad = sendMetrics send s collectors
              in Some (Some resp, filter (\<lambda>a. a \<notin> set bad) addrs, removeConnections bad s))))"

definition foundUnsentPods :: "samplerServer \<Rightarrow> listMetricsResponse option \<Rightarrow> bool" where
  "foundUnsentPods s lastResp =
     (case lastResp of
        None \<Rightarrow> True
      | Some r \<Rightarrow>
          (case mr_knownContainersSet (ca_metricsReader (sp_cache s)) of
             Some k \<Rightarrow> \<exists>p \<in> set k. p \<notin> us_PodUID ` set (lr_Containers r)
           | None \<Rightarrow> False))"

section \<open>The push loop and the goroutines beside it\<close>

record pushState =
  ps_server :: samplerServer
  ps_lastSent :: "listMetricsResponse option"
  ps_running :: bool
  ps_sent :: "(string \<times> listMetricsResponse) list"

datatype samplerEvent =
    Started gotime "collectorConnection \<Rightarrow> nat \<Rightarrow> bool"
  | Ticked gotime "collectorConnection \<Rightarrow> nat \<Rightarrow> bool"
  | CreatedPodTicked gotime "collectorConnection \<Rightarrow> nat \<Rightarrow> bool"
  | CtxDone gotime "collectorConnection \<Rightarrow> nat \<Rightarrow> bool"
  | Registered "string \<Rightarrow> dialResult" "string list"
  | Resolved "string \<Rightarrow> dialResult" "string option list"
  | WatcherWoke nat
  | Sampled sampleCache

text \<open>\<^verbatim>\<open>ps_sent\<close> records what reached a collector.\<close>

definition push_as ::
  "(float64 \<Rightarrow> u64) \<Rightarrow> string \<Rightarrow> gotime \<Rightarrow> (collectorConnection \<Rightarrow> nat \<Rightarrow> bool) \<Rightarrow> pushState \<Rightarrow> pushState option" where
  "push_as conv reason now send p =
     map_option (\<lambda>(resp, reached, s).
        p\<lparr>ps_server := s, ps_lastSent := resp,
          ps_sent := ps_sent p @ (case resp of None \<Rightarrow> [] | Some r \<Rightarrow> map (\<lambda>a. (a, r)) reached)\<rparr>)
       (pushMetricsToAllCollectors conv send now reason (ps_server p))"

fun sampler_event :: "(float64 \<Rightarrow> u64) \<Rightarrow> pushState \<Rightarrow> samplerEvent \<Rightarrow> pushState option" where
  "sampler_event conv p (Started now send) =
     map_option (\<lambda>p. p\<lparr>ps_running := True\<rparr>) (push_as conv ''initial-sync'' now send p)"
| "sampler_event conv p (Ticked now send) =
     (if ps_running p then push_as conv ''periodic-sync'' now send p else Some p)"
| "sampler_event conv p (CreatedPodTicked now send) =
     (if ps_running p \<and> foundUnsentPods (ps_server p) (ps_lastSent p)
      then push_as conv ''found-new-pods'' now send p else Some p)"
| "sampler_event conv p (CtxDone now send) =
     (if ps_running p
      then map_option (\<lambda>p'. p'\<lparr>ps_server := shutdownAllConnections (ps_server p'), ps_running := False, ps_lastSent := ps_lastSent p\<rparr>)
             (push_as conv ''sampler-shutdown'' now send p)
      else Some p)"
| "sampler_event conv p (Registered dial req) = Some (p\<lparr>ps_server := RegisterCollectors dial req (ps_server p)\<rparr>)"
| "sampler_event conv p (Resolved dial ips) = Some (p\<lparr>ps_server := addConnectionsFromIPs dial ips (ps_server p)\<rparr>)"
| "sampler_event conv p (WatcherWoke i) = Some (p\<lparr>ps_server := runWatcher i (ps_server p)\<rparr>)"
| "sampler_event conv p (Sampled c) = Some (p\<lparr>ps_server := (ps_server p)\<lparr>sp_cache := c\<rparr>\<rparr>)"

definition startPushToCollectors :: "(float64 \<Rightarrow> u64) \<Rightarrow> pushState \<Rightarrow> samplerEvent list \<Rightarrow> pushState option" where
  "startPushToCollectors conv p evs = ofold (sampler_event conv) p evs"

end
