(* ===== verification/Collector_Control.thy ===== *)
theory Collector_Control
  imports Metrics_Collection_Props Sampler_Server
begin

text \<open>
  The control of the collector, \<^verbatim>\<open>pkg/collector/collector.go\<close>: listing and indexing the objects, running functions in
  parallel, the conditions for serving and being ready, and the registration with the samplers. The results of
  the Kubernetes client, of dialling and of registering are arguments; parallel functions are given by their
  results in the order in which they finish. \<^const>\<open>None\<close> is a panic.
\<close>

section \<open>Running functions in parallel\<close>

text \<open>An error is a string; \<^const>\<open>None\<close> is nil. The channel has room for all results, and one is read after all have finished.\<close>

definition wait_for :: "string option list \<Rightarrow> string option" where
  "wait_for finished = (case finished of [] \<Rightarrow> None | err # _ \<Rightarrow> err)"

section \<open>Listing objects\<close>

record 'q listed =
  ls_Pods :: "'q pod list"
  ls_Nodes :: "'q node list"
  ls_Namespaces :: "namespace list"
  ls_Quotas :: "'q resourceQuota list"
  ls_RQDs :: "'q resourceQuotaDescriptor list"
  ls_PVCs :: "'q persistentVolumeClaim list"
  ls_PVs :: "'q persistentVolume list"
  ls_Samplers :: "'q pod list"
  ls_ClusterScoped :: "(source, objectMeta list) gomap"

definition index_by :: "('a \<Rightarrow> 'k) \<Rightarrow> 'a list \<Rightarrow> ('k, 'a) gomap" where
  "index_by key xs = foldl (\<lambda>m x. AList.update (key x) x m) [] xs"

definition append_at :: "'k \<Rightarrow> 'a \<Rightarrow> ('k, 'a list) gomap \<Rightarrow> ('k, 'a list) gomap" where
  "append_at k x m = AList.update k (gget [] m k @ [x]) m"

definition index_pods :: "'q pod list \<Rightarrow> (string, 'q pod list) gomap \<times> (string, 'q pod list) gomap" where
  "index_pods ps =
     foldl (\<lambda>(byNode, byPVC) p.
        (append_at (pd_NodeName p) p byNode,
         foldl (\<lambda>m v. case v of
                        None \<Rightarrow> m
                      | Some claim \<Rightarrow> append_at (om_Namespace (pd_Meta p) @ ''/'' @ claim) p m) byPVC (pd_Claims p)))
       ([], []) ps"

text \<open>The node a sampler that is not scheduled yet is meant for.\<close>

definition affinity_node :: "'q pod \<Rightarrow> string option" where
  "affinity_node p = (case pd_RequiredNodeTerms p of Some [[[v]]] \<Rightarrow> Some v | _ \<Rightarrow> None)"

definition index_samplers :: "'q pod list \<Rightarrow> (string, 'q pod) gomap" where
  "index_samplers ps =
     foldl (\<lambda>m p.
        if pd_NodeName p \<noteq> '''' then AList.update (pd_NodeName p) p m
        else case affinity_node p of
               None \<Rightarrow> m
             | Some n \<Rightarrow> if ghas m n \<and> om_DeletionTimestamp (pd_Meta p) \<noteq> None then m else AList.update n p m) [] ps"

text \<open>\<^verbatim>\<open>finished\<close> are the results of the list calls, in the order in which they finish.\<close>

definition listCapacityObjects ::
  "string option list \<Rightarrow> 'q listed \<Rightarrow> (string, listMetricsResponse) gomap \<Rightarrow> string + 'q capacityObjects" where
  "listCapacityObjects finished l utilization =
     (case wait_for finished of
        Some err \<Rightarrow> Inl err
      | None \<Rightarrow>
         (let (byNode, byPVC) = index_pods (ls_Pods l)
          in Inr \<lparr>ob_Pods = ls_Pods l, ob_Nodes = ls_Nodes l, ob_Namespaces = ls_Namespaces l, ob_Quotas = ls_Quotas l,
                  ob_RQDs = ls_RQDs l, ob_PVCs = ls_PVCs l, ob_PVs = ls_PVs l, ob_Samplers = ls_Samplers l,
                  ob_NamespacesByName = index_by (\<lambda>n. om_Name (ns_Meta n)) (ls_Namespaces l),
                  ob_PodsByNodeName = byNode, ob_PodsByPVC = byPVC,
                  ob_PVsByName = index_by (\<lambda>v. om_Name (pv_Meta v)) (ls_PVs l),
                  ob_PVCsByName = index_by (\<lambda>v. om_Namespace (pvc_Meta v) @ ''/'' @ om_Name (pvc_Meta v)) (ls_PVCs l),
                  ob_NodesByName = index_by (\<lambda>n. om_Name (nd_Meta n)) (ls_Nodes l),
                  ob_RQDsByRQDKey = index_by (\<lambda>r. (om_Name (rqd_Meta r), om_Namespace (rqd_Meta r))) (ls_RQDs l),
                  ob_SamplersByNode = index_samplers (ls_Samplers l),
                  ob_ClusterScopedByName = ls_ClusterScoped l,
                  ob_UtilizationByNode = utilization\<rparr>))"

section \<open>Serving\<close>

text \<open>\<^verbatim>\<open>Collect\<close> computes only as the leader and when results may be served.\<close>

definition Collect :: "bool \<Rightarrow> server \<Rightarrow> (unit \<Rightarrow> 'm list) \<Rightarrow> 'm list" where
  "Collect isLeaderElected srv collect = (if \<not> isLeaderElected \<or> \<not> sv_ServeResults srv then [] else collect ())"

section \<open>Registration with the samplers\<close>

record registerConfig =
  rc_MinResultPctBeforeReady :: int
  rc_WaitSamplerRegistrationsBeforeReady :: int
  rc_WaitSamplerRegistrationsBeforeServe :: int
  rc_DeleteUnregisteredPodsAfterAgeMinutes :: int
  rc_DeleteUnregisteredPodsAfterCycles :: int
  rc_CollectorPodLabels :: strmap
  rc_CollectorPodIPsIndex :: nat
  rc_SamplerPort :: nat

record samplerPod =
  sm_Name :: string
  sm_NodeName :: string
  sm_Phase :: string
  sm_PodIP :: string
  sm_Created :: gotime

record collectorPod =
  cp_Phase :: string
  cp_Deleted :: bool
  cp_PodIPs :: "string list"

record registerState =
  rs_server :: server
  rs_cyclesCount :: int
  rs_waitReadyCyclesCount :: int

text \<open>What happens before the loop: the second component says whether the loop is started at all.\<close>

definition register_start :: "registerConfig \<Rightarrow> server \<Rightarrow> registerState \<times> bool" where
  "register_start rc srv =
     (let srv = (if rc_MinResultPctBeforeReady rc = 0 then srv\<lparr>sv_ServeResults := True, sv_IsReadyResult := True\<rparr> else srv)
      in (\<lparr>rs_server = srv, rs_cyclesCount = 0, rs_waitReadyCyclesCount = rc_WaitSamplerRegistrationsBeforeReady rc\<rparr>,
          length (rc_CollectorPodLabels rc) \<noteq> 0))"

definition collector_ips :: "registerConfig \<Rightarrow> collectorPod list \<Rightarrow> string list" where
  "collector_ips rc cols =
     map (\<lambda>p. cp_PodIPs p ! rc_CollectorPodIPsIndex rc)
       (filter (\<lambda>p. \<not> cp_Deleted p \<and> cp_Phase p = ''Running'' \<and> \<not> length (cp_PodIPs p) \<le> rc_CollectorPodIPsIndex rc) cols)"

definition nodes_with_samplers :: "samplerPod list \<Rightarrow> string set" where
  "nodes_with_samplers ps = sm_NodeName ` set ps"

text \<open>The part of a cycle that decides about serving and readiness. The percentage is computed before it is known that
  there are samplers.\<close>

definition readyPct :: "samplerPod list \<Rightarrow> string set \<Rightarrow> int option" where
  "readyPct samplers withResults =
     (if card (nodes_with_samplers samplers) = 0 then None
      else Some (int (card withResults) * 100 div int (card (nodes_with_samplers samplers))))"

definition ready_cycle :: "registerConfig \<Rightarrow> samplerPod list \<Rightarrow> string set \<Rightarrow> registerState \<Rightarrow> registerState option" where
  "ready_cycle rc samplers withResults s =
     (if \<not> (rc_MinResultPctBeforeReady rc > 0 \<and> \<not> sv_IsReadyResult (rs_server s)) then Some s
      else case readyPct samplers withResults of
             None \<Rightarrow> None
           | Some pct \<Rightarrow>
               if pct > rc_MinResultPctBeforeReady rc
               then
                 (let s = s\<lparr>rs_cyclesCount := rs_cyclesCount s + 1\<rparr>;
                      s = (if rs_cyclesCount s > rc_WaitSamplerRegistrationsBeforeServe rc
                           then s\<lparr>rs_server := (rs_server s)\<lparr>sv_ServeResults := True\<rparr>\<rparr> else s)
                  in Some (if rs_waitReadyCyclesCount s \<le> 0
                           then s\<lparr>rs_server := (rs_server s)\<lparr>sv_ServeResults := True, sv_IsReadyResult := True\<rparr>\<rparr>
                           else s\<lparr>rs_waitReadyCyclesCount := rs_waitReadyCyclesCount s - 1\<rparr>))
               else Some s)"

text \<open>
  Registering with the samplers that are running and have not sent results. \<^verbatim>\<open>attempt\<close> is whether dialling (three
  times) and registering with a pod succeed.
\<close>

definition sampler_running :: "samplerPod \<Rightarrow> bool" where
  "sampler_running p \<longleftrightarrow> sm_Phase p = ''Running'' \<and> sm_NodeName p \<noteq> '''' \<and> sm_PodIP p \<noteq> ''''"

definition sampler_address :: "registerConfig \<Rightarrow> samplerPod \<Rightarrow> string" where
  "sampler_address rc p =
     (if Contains (sm_PodIP p) '':'' then ''['' @ sm_PodIP p @ '']'' else sm_PodIP p) @ '':'' @ show_u64 (rc_SamplerPort rc)"

definition to_register :: "samplerPod list \<Rightarrow> string set \<Rightarrow> samplerPod list" where
  "to_register samplers withResults = filter (\<lambda>p. sampler_running p \<and> sm_NodeName p \<notin> withResults) samplers"

definition to_delete ::
  "registerConfig \<Rightarrow> gotime \<Rightarrow> (samplerPod \<Rightarrow> bool) \<Rightarrow> registerState \<Rightarrow> samplerPod list \<Rightarrow> samplerPod list" where
  "to_delete rc now attempt s ps =
     filter (\<lambda>p. \<not> attempt p \<and> time_sub now (sm_Created p) > int64_wrap (Minute * rc_DeleteUnregisteredPodsAfterAgeMinutes rc)
                  \<and> rs_cyclesCount s > rc_DeleteUnregisteredPodsAfterCycles rc) ps"

record registerRound =
  rr_registered :: "string list"
  rr_request :: "string list"
  rr_deleted :: "samplerPod list"
  rr_resultsPct :: int

definition registerWithSamplers ::
  "registerConfig \<Rightarrow> gotime \<Rightarrow> collectorPod list \<Rightarrow> samplerPod list \<Rightarrow> string set \<Rightarrow> (samplerPod \<Rightarrow> bool) \<Rightarrow> registerState \<Rightarrow>
   (registerRound \<times> registerState) option" where
  "registerWithSamplers rc now cols samplers withResults attempt s =
     (case ready_cycle rc samplers withResults s of
        None \<Rightarrow> None
      | Some s \<Rightarrow>
         (let running = filter sampler_running samplers;
              samplerCount = int (length running);
              samplerResultsCount = int (length (filter (\<lambda>p. sm_NodeName p \<in> withResults) running));
              ps = to_register samplers withResults
          in if samplerCount = 0 then None
             else Some (\<lparr>rr_registered = map (sampler_address rc) (filter attempt ps), rr_request = collector_ips rc cols,
                         rr_deleted = to_delete rc now attempt s ps,
                         rr_resultsPct = samplerResultsCount * 100 div samplerCount\<rparr>, s)))"

text \<open>What the world shows the loop in one cycle.\<close>

record registerInputs =
  ri_now :: gotime
  ri_collectors :: "collectorPod list"
  ri_samplers :: "samplerPod list"
  ri_withResults :: "string set"
  ri_attempt :: "samplerPod \<Rightarrow> bool"

definition register_loop :: "registerConfig \<Rightarrow> registerInputs list \<Rightarrow> registerState \<Rightarrow> (samplerPod list \<times> registerState) option" where
  "register_loop rc ins s =
     ofold (\<lambda>(deleted, s) i.
        map_option (\<lambda>(r, s). (deleted @ rr_deleted r, s))
          (registerWithSamplers rc (ri_now i) (ri_collectors i) (ri_samplers i) (ri_withResults i) (ri_attempt i) s)) ([], s) ins"

section \<open>When the collector becomes ready\<close>

definition enough_results :: "registerConfig \<Rightarrow> registerInputs \<Rightarrow> bool" where
  "enough_results rc i \<longleftrightarrow> (case readyPct (ri_samplers i) (ri_withResults i) of None \<Rightarrow> False | Some p \<Rightarrow> p > rc_MinResultPctBeforeReady rc)"

definition good_cycles :: "registerConfig \<Rightarrow> registerInputs list \<Rightarrow> int" where
  "good_cycles rc ins = int (length (filter (enough_results rc) ins))"

text \<open>The state is a function of the number \<^verbatim>\<open>g\<close> of cycles with enough results.\<close>

definition ready_inv :: "registerConfig \<Rightarrow> int \<Rightarrow> registerState \<Rightarrow> bool" where
  "ready_inv rc g s \<longleftrightarrow>
     (let W = rc_WaitSamplerRegistrationsBeforeReady rc; w = max 0 W
      in 0 \<le> g \<and> (sv_IsReadyResult (rs_server s) \<longleftrightarrow> g > w) \<and> rs_cyclesCount s = min g (w + 1)
         \<and> rs_waitReadyCyclesCount s = W - min g w
         \<and> (sv_ServeResults (rs_server s) \<longleftrightarrow> 0 < g \<and> (g > rc_WaitSamplerRegistrationsBeforeServe rc \<or> g > w)))"

lemma ready_inv_start:
  "0 < rc_MinResultPctBeforeReady rc \<Longrightarrow> \<not> sv_ServeResults srv \<Longrightarrow> \<not> sv_IsReadyResult srv \<Longrightarrow> ready_inv rc 0 (fst (register_start rc srv))"
  by (simp add: ready_inv_def register_start_def Let_def)

lemma ready_inv_cycle:
  assumes "0 < rc_MinResultPctBeforeReady rc" "ready_inv rc g s" "ready_cycle rc (ri_samplers i) (ri_withResults i) s = Some s'"
  shows "ready_inv rc (if enough_results rc i then g + 1 else g) s'"
proof (cases "sv_IsReadyResult (rs_server s)")
  case True
  then show ?thesis using assms by (auto simp: ready_inv_def ready_cycle_def Let_def)
next
  case False
  then have g: "g \<le> max 0 (rc_WaitSamplerRegistrationsBeforeReady rc)" using assms(2) by (simp add: ready_inv_def Let_def not_less)
  obtain pct where pct: "readyPct (ri_samplers i) (ri_withResults i) = Some pct"
    using assms(1,3) False by (auto simp: ready_cycle_def split: option.splits)
  show ?thesis
  proof (cases "pct > rc_MinResultPctBeforeReady rc")
    case True
    then have e: "enough_results rc i" by (simp add: enough_results_def pct)
    show ?thesis
      using assms False True g unfolding ready_inv_def ready_cycle_def pct Let_def
      by (auto simp: e split: if_splits)
  next
    case no: False
    then show ?thesis using assms False by (auto simp: enough_results_def ready_cycle_def pct)
  qed
qed

lemma registerWithSamplers_cycle:
  "registerWithSamplers rc now cols ps rs attempt s = Some (r, s') \<Longrightarrow>
     ready_cycle rc ps rs s = Some s' \<and> rr_deleted r = to_delete rc now attempt s' (to_register ps rs)"
  by (auto simp: registerWithSamplers_def Let_def split: option.splits if_splits)

lemma register_loop_snoc:
  assumes "register_loop rc (ins @ [i]) s = Some (del, s')"
  shows "\<exists>d t r. register_loop rc ins s = Some (d, t) \<and> del = d @ rr_deleted r
     \<and> registerWithSamplers rc (ri_now i) (ri_collectors i) (ri_samplers i) (ri_withResults i) (ri_attempt i) t = Some (r, s')"
  using assms by (auto simp: register_loop_def ofold_append bind_eq_Some_conv)

lemma good_cycles_snoc: "good_cycles rc (ins @ [i]) = (if enough_results rc i then good_cycles rc ins + 1 else good_cycles rc ins)"
  by (simp add: good_cycles_def)

lemma register_loop_inv:
  assumes "0 < rc_MinResultPctBeforeReady rc" "ready_inv rc 0 s" "register_loop rc ins s = Some (del, s')"
  shows "ready_inv rc (good_cycles rc ins) s'"
  using assms(3)
proof (induction ins arbitrary: del s' rule: rev_induct)
  case Nil
  with assms(2) show ?case by (simp add: register_loop_def good_cycles_def)
next
  case (snoc i ins)
  from register_loop_snoc [OF snoc.prems] obtain d t r where
    t: "register_loop rc ins s = Some (d, t)"
    "registerWithSamplers rc (ri_now i) (ri_collectors i) (ri_samplers i) (ri_withResults i) (ri_attempt i) t = Some (r, s')" by blast
  have "ready_inv rc (if enough_results rc i then good_cycles rc ins + 1 else good_cycles rc ins) s'"
    by (rule ready_inv_cycle [OF assms(1) snoc.IH [OF t(1)]]) (use registerWithSamplers_cycle [OF t(2)] in simp)
  then show ?case by (simp add: good_cycles_snoc)
qed


text \<open>
  The cycles after which unregistered samplers are deleted are counted only until the collector is ready: where
  the collector waits for fewer cycles than the deletion does (by default 0 and 10), no sampler is ever deleted,
  however long it fails to register.
\<close>

theorem unregistered_samplers_never_deleted:
  assumes "0 < rc_MinResultPctBeforeReady rc" "\<not> sv_ServeResults srv" "\<not> sv_IsReadyResult srv"
    and "max 0 (rc_WaitSamplerRegistrationsBeforeReady rc) < rc_DeleteUnregisteredPodsAfterCycles rc"
    and "register_loop rc ins (fst (register_start rc srv)) = Some (del, s)"
  shows "del = []"
  using assms(5)
proof (induction ins arbitrary: del s rule: rev_induct)
  case Nil
  then show ?case by (simp add: register_loop_def)
next
  case (snoc i ins)
  from register_loop_snoc [OF snoc.prems] obtain d t r where
    t: "register_loop rc ins (fst (register_start rc srv)) = Some (d, t)" "del = d @ rr_deleted r"
    "registerWithSamplers rc (ri_now i) (ri_collectors i) (ri_samplers i) (ri_withResults i) (ri_attempt i) t = Some (r, s)" by blast
  have "rs_cyclesCount s \<le> rc_DeleteUnregisteredPodsAfterCycles rc"
    using register_loop_inv [OF assms(1) ready_inv_start [OF assms(1-3)] snoc.prems] assms(4) by (auto simp: ready_inv_def Let_def)
  then have "rr_deleted r = []" using registerWithSamplers_cycle [OF t(3)] by (simp add: to_delete_def)
  with snoc.IH [OF t(1)] t(2) show ?case by simp
qed

definition ex_register :: "int \<Rightarrow> registerConfig" where
  "ex_register pct = \<lparr>rc_MinResultPctBeforeReady = pct, rc_WaitSamplerRegistrationsBeforeReady = 0,
     rc_WaitSamplerRegistrationsBeforeServe = 0, rc_DeleteUnregisteredPodsAfterAgeMinutes = 30,
     rc_DeleteUnregisteredPodsAfterCycles = 10, rc_CollectorPodLabels = [(''app'', ''collector'')],
     rc_CollectorPodIPsIndex = 0, rc_SamplerPort = 8080\<rparr>"

definition ex_cycle :: "string set \<Rightarrow> registerInputs" where
  "ex_cycle results = \<lparr>ri_now = 10 ^ 15, ri_collectors = [],
     ri_samplers = [\<lparr>sm_Name = ''s'', sm_NodeName = ''n1'', sm_Phase = ''Running'', sm_PodIP = ''10.0.0.1'', sm_Created = 0\<rparr>],
     ri_withResults = results, ri_attempt = (\<lambda>_. False)\<rparr>"

lemma ex_register_run:
  "\<exists>del s. register_loop (ex_register 50) [ex_cycle {''n1''}, ex_cycle {}] (fst (register_start (ex_register 50) ex_server)) = Some (del, s)"
  by (simp add: register_loop_def registerWithSamplers_def ready_cycle_def readyPct_def nodes_with_samplers_def ex_register_def
      ex_cycle_def register_start_def ex_server_def Let_def sampler_running_def)

lemma ex_good_cycles: "good_cycles (ex_register 50) [ex_cycle {''n1''}, ex_cycle {}] = 1"
  by (simp add: good_cycles_def enough_results_def readyPct_def nodes_with_samplers_def ex_cycle_def ex_register_def)


theorem unregistered_samplers_never_deleted_witness:
  "\<exists>s. register_loop (ex_register 50) [ex_cycle {''n1''}, ex_cycle {}] (fst (register_start (ex_register 50) ex_server)) = Some ([], s)"
proof -
  obtain del s where run: "register_loop (ex_register 50) [ex_cycle {''n1''}, ex_cycle {}] (fst (register_start (ex_register 50) ex_server)) = Some (del, s)"
    using ex_register_run by blast
  from unregistered_samplers_never_deleted [OF _ _ _ _ run] run show ?thesis
    by (auto simp: ex_register_def ex_server_def)
qed

text \<open>
  The percentage has to be exceeded: a collector configured to wait for results from all nodes is never ready while
  results come only from nodes that have samplers.
\<close>

theorem all_nodes_never_enough:
  assumes "100 \<le> rc_MinResultPctBeforeReady rc" "ri_withResults i \<subseteq> nodes_with_samplers (ri_samplers i)"
  shows "\<not> enough_results rc i"
proof -
  let ?n = "int (card (nodes_with_samplers (ri_samplers i)))" and ?r = "int (card (ri_withResults i))"
  have "card (ri_withResults i) \<le> card (nodes_with_samplers (ri_samplers i))"
    using assms(2) by (rule card_mono [rotated]) (simp add: nodes_with_samplers_def)
  then have "?r * 100 \<le> 100 * ?n" by simp
  then have "?r * 100 div ?n \<le> 100" if "0 < ?n" using zdiv_mono1 [of "?r * 100" "100 * ?n" ?n] that by simp
  with assms(1) show ?thesis by (auto simp: enough_results_def readyPct_def)
qed

text \<open>A cycle in which no sampler is running divides by zero, and takes the process down.\<close>

theorem register_panics_without_samplers:
  "registerWithSamplers rc now cols ps rs attempt s = None \<longleftrightarrow>
     filter sampler_running ps = [] \<or> (rc_MinResultPctBeforeReady rc > 0 \<and> \<not> sv_IsReadyResult (rs_server s) \<and> ps = [])"
proof -
  have "ready_cycle rc ps rs s = None \<longleftrightarrow> rc_MinResultPctBeforeReady rc > 0 \<and> \<not> sv_IsReadyResult (rs_server s) \<and> ps = []"
    by (auto simp: ready_cycle_def readyPct_def nodes_with_samplers_def Let_def split: if_splits)
  then show ?thesis by (auto simp: registerWithSamplers_def Let_def split: option.splits)
qed

section \<open>Indexes\<close>

lemma index_by_lookup: "map_of (index_by key xs) k = find (\<lambda>x. key x = k) (rev xs)"
  by (induction xs rule: rev_induct) (auto simp: index_by_def)

text \<open>
  Errors of parallel functions: the error that is returned is the result of whichever finished first, so a failure is
  lost whenever another function finishes before it, and the objects are used as if all had been listed.
\<close>

theorem later_errors_are_lost:
  "wait_for (None # finished) = None
   \<and> (\<exists>objects. listCapacityObjects (None # Some err # finished) l u = Inr objects)"
  by (simp add: wait_for_def listCapacityObjects_def split_beta)

lemma gget_append_at [simp]: "gget [] (append_at k x m) k' = gget [] m k' @ (if k' = k then [x] else [])"
  by (simp add: append_at_def)

lemma index_pods_snoc:
  "index_pods (ps @ [p]) =
     (append_at (pd_NodeName p) p (fst (index_pods ps)),
      foldl (\<lambda>m v. case v of None \<Rightarrow> m | Some claim \<Rightarrow> append_at (om_Namespace (pd_Meta p) @ ''/'' @ claim) p m)
        (snd (index_pods ps)) (pd_Claims p))"
  unfolding index_pods_def by (simp only: foldl_append foldl.simps split_beta)

lemma pods_by_node: "gget [] (fst (index_pods ps)) n = filter (\<lambda>p. pd_NodeName p = n) ps"
  by (induction ps rule: rev_induct) (simp_all add: index_pods_snoc, simp add: index_pods_def)

text \<open>
  The indexes that the collectors use agree with the lists: the pods of a node are exactly the listed pods with that
  node name, in order; an object found by its key is a listed object with that key, and every listed object's key
  is found.
\<close>

theorem indexes_agree_with_lists:
  assumes "listCapacityObjects finished l u = Inr ob"
  shows "gget [] (ob_PodsByNodeName ob) n = filter (\<lambda>p. pd_NodeName p = n) (ls_Pods l)
     \<and> map_of (ob_NodesByName ob) n = find (\<lambda>x. om_Name (nd_Meta x) = n) (rev (ls_Nodes l))
     \<and> map_of (ob_NamespacesByName ob) n = find (\<lambda>x. om_Name (ns_Meta x) = n) (rev (ls_Namespaces l))
     \<and> map_of (ob_PVsByName ob) n = find (\<lambda>x. om_Name (pv_Meta x) = n) (rev (ls_PVs l))"
  using assms by (auto simp: listCapacityObjects_def split_beta index_by_lookup pods_by_node split: option.splits)

end
