(* ===== verification/Registration.thy ===== *)
theory Registration
  imports Collector_Control
begin

text \<open>
  More of \<^verbatim>\<open>pkg/collector/collector.go\<close>: listing the objects of cluster scoped metrics, the gauges of a registration cycle, and
  the goroutines that register with the samplers of one cycle as an interleaving, since they share a variable.
\<close>

section \<open>Cluster scoped objects\<close>

text \<open>
  \<^verbatim>\<open>List\<close> is the answer of the client for a source. The result is the map and the counted outcomes; an error is logged
  and the next source is listed.
\<close>

definition listClusterScoped ::
  "(annotatedSource \<Rightarrow> string + objectMeta list) \<Rightarrow> annotatedSource list \<Rightarrow> (source, objectMeta list) gomap \<Rightarrow>
   (source, objectMeta list) gomap \<times> (source \<times> string) list" where
  "listClusterScoped List sources byName =
     foldl (\<lambda>(m, results) src.
        case List src of
          Inl err \<Rightarrow> (m, results @ [(as_Name src, err)])
        | Inr items \<Rightarrow> (AList.update (as_Name src) items m, results @ [(as_Name src, '''')])) (byName, []) sources"

lemma listClusterScoped_snoc:
  "listClusterScoped List (sources @ [src]) m =
     (case List src of
        Inl err \<Rightarrow> (fst (listClusterScoped List sources m), snd (listClusterScoped List sources m) @ [(as_Name src, err)])
      | Inr items \<Rightarrow> (AList.update (as_Name src) items (fst (listClusterScoped List sources m)),
                       snd (listClusterScoped List sources m) @ [(as_Name src, '''')]))"
  by (simp add: listClusterScoped_def split_beta split: sum.split)

text \<open>A source has the objects of the last list call of its name that succeeded; every call is counted once.\<close>

theorem listClusterScoped_lookup:
  "map_of (fst (listClusterScoped List sources m)) name =
     (case find (\<lambda>src. as_Name src = name \<and> \<not> isl (List src)) (rev sources) of
        None \<Rightarrow> map_of m name
      | Some src \<Rightarrow> Some (projr (List src)))
   \<and> map fst (snd (listClusterScoped List sources m)) = map as_Name sources"
proof (induction sources rule: rev_induct)
  case (snoc src sources)
  then show ?case by (cases "List src") (auto simp: listClusterScoped_snoc update_conv')
qed (simp add: listClusterScoped_def)

section \<open>The gauges of a cycle\<close>

definition registeredWithSamplers :: "samplerPod list \<Rightarrow> string set \<Rightarrow> (samplerPod \<Rightarrow> bool) \<Rightarrow> (string \<times> int) list" where
  "registeredWithSamplers samplers withResults attempt =
     (let running = filter sampler_running samplers;
          samplerCount = int (length running);
          notRunningCount = int (length (filter (\<lambda>p. \<not> sampler_running p) samplers));
          samplerResultsCount = int (length (filter (\<lambda>p. sm_NodeName p \<in> withResults) running));
          errorCount = int (length (filter (\<lambda>p. \<not> attempt p) (to_register samplers withResults)));
          registeredCount = int (length (filter attempt (to_register samplers withResults)))
      in [(''node-registered'', samplerResultsCount), (''node-registration-error'', errorCount),
          (''node-registration-success'', registeredCount), (''sampler-not-running'', notRunningCount),
          (''node-not-registered'', samplerCount - samplerResultsCount - errorCount - registeredCount)])"

lemma length_filter_split: "length (filter P xs) + length (filter (\<lambda>x. \<not> P x) xs) = length xs"
  by (induction xs) auto

text \<open>
  The five gauges count every sampler exactly once, and the last of them is always 0: at the end of a cycle every
  running sampler has results, has been registered, or has failed.
\<close>

theorem register_gauges_partition:
  "sum_list (map snd (registeredWithSamplers samplers withResults attempt)) = int (length samplers)
   \<and> map_of (registeredWithSamplers samplers withResults attempt) ''node-not-registered'' = Some 0"
proof -
  let ?run = "filter sampler_running samplers" let ?reg = "to_register samplers withResults"
  have "?reg = filter (\<lambda>p. \<not> sm_NodeName p \<in> withResults) ?run" by (simp add: to_register_def conj_commute)
  then have "length (filter (\<lambda>p. sm_NodeName p \<in> withResults) ?run) + length ?reg = length ?run"
    using length_filter_split [of "\<lambda>p. sm_NodeName p \<in> withResults" ?run] by simp
  moreover have "length (filter attempt ?reg) + length (filter (\<lambda>p. \<not> attempt p) ?reg) = length ?reg" by (rule length_filter_split)
  moreover have "length ?run + length (filter (\<lambda>p. \<not> sampler_running p) samplers) = length samplers" by (rule length_filter_split)
  ultimately show ?thesis by (simp add: registeredWithSamplers_def Let_def)
qed

section \<open>Goroutines that share an error\<close>

text \<open>
  A goroutine dials up to three times; the result goes to its own connection and to the variable of the enclosing
  function, which all goroutines of the cycle share. Between the call and each of the two tests of the variable others run.
\<close>

datatype pc = Dial nat | Test nat | After | Register | Failed

record dialer =
  dl_pc :: pc
  dl_conn :: bool

record cycle =
  cy_err :: bool
  cy_dialers :: "dialer list"

inductive dial_step :: "cycle \<Rightarrow> cycle \<Rightarrow> bool" where
  dial: "\<lbrakk>k < length (cy_dialers c); dl_pc (cy_dialers c ! k) = Dial i; i < 3\<rbrakk> \<Longrightarrow>
    dial_step c (c\<lparr>cy_err := \<not> ok, cy_dialers := (cy_dialers c)[k := \<lparr>dl_pc = Test i, dl_conn = ok\<rparr>]\<rparr>)"
| established: "\<lbrakk>k < length (cy_dialers c); dl_pc (cy_dialers c ! k) = Test i; \<not> cy_err c\<rbrakk> \<Longrightarrow>
    dial_step c (c\<lparr>cy_dialers := (cy_dialers c)[k := (cy_dialers c ! k)\<lparr>dl_pc := After\<rparr>]\<rparr>)"
| again: "\<lbrakk>k < length (cy_dialers c); dl_pc (cy_dialers c ! k) = Test i; cy_err c\<rbrakk> \<Longrightarrow>
    dial_step c (c\<lparr>cy_dialers := (cy_dialers c)[k := (cy_dialers c ! k)\<lparr>dl_pc := Dial (i + 1)\<rparr>]\<rparr>)"
| give_up: "\<lbrakk>k < length (cy_dialers c); dl_pc (cy_dialers c ! k) = Dial 3\<rbrakk> \<Longrightarrow>
    dial_step c (c\<lparr>cy_dialers := (cy_dialers c)[k := (cy_dialers c ! k)\<lparr>dl_pc := After\<rparr>]\<rparr>)"
| register: "\<lbrakk>k < length (cy_dialers c); dl_pc (cy_dialers c ! k) = After; \<not> cy_err c\<rbrakk> \<Longrightarrow>
    dial_step c (c\<lparr>cy_dialers := (cy_dialers c)[k := (cy_dialers c ! k)\<lparr>dl_pc := Register\<rparr>]\<rparr>)"
| failed: "\<lbrakk>k < length (cy_dialers c); dl_pc (cy_dialers c ! k) = After; cy_err c\<rbrakk> \<Longrightarrow>
    dial_step c (c\<lparr>cy_dialers := (cy_dialers c)[k := (cy_dialers c ! k)\<lparr>dl_pc := Failed\<rparr>]\<rparr>)"

definition dial_init :: "nat \<Rightarrow> cycle" where
  "dial_init n = \<lparr>cy_err = False, cy_dialers = replicate n \<lparr>dl_pc = Dial 0, dl_conn = False\<rparr>\<rparr>"

inductive dial_reachable :: "nat \<Rightarrow> cycle \<Rightarrow> bool" for n where
  init: "dial_reachable n (dial_init n)"
| step: "dial_reachable n c \<Longrightarrow> dial_step c c' \<Longrightarrow> dial_reachable n c'"

interpretation dial: transition_system "\<lambda>c. c = dial_init n" dial_step "dial_reachable n" for n
  by (rule reachable_by_steps, simp add: dial_reachable.init, fact dial_reachable.step) (erule dial_reachable.induct; blast)

text \<open>With one sampler to register with, the connection exists whenever it is used, and the failures are real.\<close>

definition single_inv :: "cycle \<Rightarrow> bool" where
  "single_inv c \<longleftrightarrow>
     (\<exists>d. cy_dialers c = [d] \<and>
        (case dl_pc d of
           Dial i \<Rightarrow> i \<le> 3 \<and> (0 < i \<longrightarrow> cy_err c \<and> \<not> dl_conn d)
         | Test i \<Rightarrow> i < 3 \<and> (cy_err c \<longleftrightarrow> \<not> dl_conn d)
         | After \<Rightarrow> cy_err c \<longleftrightarrow> \<not> dl_conn d
         | Register \<Rightarrow> dl_conn d
         | Failed \<Rightarrow> \<not> dl_conn d))"

lemma single_inv_step: "dial_step c c' \<Longrightarrow> single_inv c \<Longrightarrow> single_inv c'"
  by (induction rule: dial_step.induct) (auto simp: single_inv_def)

theorem one_registration_is_safe:
  assumes "dial_reachable 1 c" "d \<in> set (cy_dialers c)"
  shows "(dl_pc d = Register \<longrightarrow> dl_conn d) \<and> (dl_pc d = Failed \<longrightarrow> \<not> dl_conn d)"
proof -
  have "single_inv c"
    using assms(1) by (rule dial.invariant, simp add: single_inv_def dial_init_def) (rule single_inv_step)
  with assms(2) show ?thesis by (auto simp: single_inv_def)
qed

text \<open>With two, the success of one hides the failure of the other, which then registers through a connection it does not have.\<close>

theorem two_registrations_race:
  "\<exists>c. dial_reachable 2 c \<and> (\<exists>d \<in> set (cy_dialers c). dl_pc d = Register \<and> \<not> dl_conn d)"
proof -
  let ?d = "\<lambda>p b. \<lparr>dl_pc = p, dl_conn = b\<rparr>"
  let ?c0 = "\<lparr>cy_err = False, cy_dialers = [?d (Dial 0) False, ?d (Dial 0) False]\<rparr>"
  let ?c1 = "\<lparr>cy_err = True, cy_dialers = [?d (Test 0) False, ?d (Dial 0) False]\<rparr>"
  let ?c2 = "\<lparr>cy_err = False, cy_dialers = [?d (Test 0) False, ?d (Test 0) True]\<rparr>"
  let ?c3 = "\<lparr>cy_err = False, cy_dialers = [?d After False, ?d (Test 0) True]\<rparr>"
  let ?c4 = "\<lparr>cy_err = False, cy_dialers = [?d Register False, ?d (Test 0) True]\<rparr>"
  have "dial_reachable 2 ?c0" using dial_reachable.init [of 2] by (simp add: dial_init_def numeral_2_eq_2)
  moreover have "dial_step ?c0 ?c1" using dial_step.dial [of 0 ?c0 0 False] by simp
  moreover have "dial_step ?c1 ?c2" using dial_step.dial [of 1 ?c1 0 True] by simp
  moreover have "dial_step ?c2 ?c3" using dial_step.established [of 0 ?c2 0] by simp
  moreover have "dial_step ?c3 ?c4" using dial_step.register [of 0 ?c3] by simp
  ultimately have "dial_reachable 2 ?c4" by (meson dial_reachable.step)
  then show ?thesis by (intro exI [of _ ?c4]) simp
qed

section \<open>Timers\<close>

text \<open>
  The gauge of a timer: its name, label names and label values, \<^const>\<open>None\<close> for a panic, be it for an odd number of fields or for
  labels that do not fit.
\<close>

fun pairs_of :: "string list \<Rightarrow> (string \<times> string) list" where
  "pairs_of (k # v # rest) = (k, v) # pairs_of rest"
| "pairs_of _ = []"

definition publishTimer ::
  "string \<Rightarrow> string \<Rightarrow> string \<Rightarrow> string \<Rightarrow> string \<Rightarrow> string \<Rightarrow> string list \<Rightarrow> (string \<times> string list \<times> string list) option" where
  "publishTimer pfx metricName phase metric agg level kvs =
     (if length kvs mod 2 \<noteq> 0 then None
      else
        (let metric = dropWhile (\<lambda>c. c = CHR ''_'') metric;
             names = [''phase'', ''metric_name'', ''aggregation_name'', ''level_name''] @ map fst (pairs_of kvs);
             values = [phase, metric, agg, level] @ map snd (pairs_of kvs)
         in if length names = length values then Some (pfx @ ''_'' @ metricName @ ''_latency_seconds'', names, values) else None))"

lemma pairs_of_split: "even (length kvs) \<Longrightarrow> concat (map (\<lambda>(k, v). [k, v]) (pairs_of kvs)) = kvs"
  by (induction kvs rule: pairs_of.induct) auto

text \<open>A timer panics exactly for an odd number of fields, and otherwise shows all of them.\<close>

theorem publishTimer_total:
  "case publishTimer pfx metricName phase metric agg level kvs of
     None \<Rightarrow> odd (length kvs)
   | Some (n, names, values) \<Rightarrow> concat (map (\<lambda>(k, v). [k, v]) (drop 4 (zip names values))) = kvs"
  using pairs_of_split [of kvs] by (auto simp: publishTimer_def Let_def zip_map_fst_snd odd_iff_mod_2_eq_one split: option.split)

end
