(* ===== verification/Config_Validation.thy ===== *)
theory Config_Validation
  imports Collector_Control
begin

text \<open>
  Defaults and validation of the configuration: \<^verbatim>\<open>ValidateCollectorSpecAndApplyDefaults\<close> of
  \<^verbatim>\<open>pkg/api/collectorcontrollerv1alpha1/types.go\<close> and the two functions of \<^verbatim>\<open>pkg/collector/types.go\<close> that run when a collector is
  made. Errors are values, in the order in which the code finds them.
\<close>

record collectorSpec =
  cf_Kind :: string
  cf_APIVersion :: string
  cf_Aggregations :: "aggregation list"
  cf_DefaultAggregationNames :: bool
  cf_DefaultLevelNames :: bool
  cf_Extensions :: extensions
  cf_EnableResourceQuotaDescriptor :: bool
  cf_DeleteUnregisteredPodsAfterAgeMinutes :: int
  cf_DeleteUnregisteredPodsAfterCycles :: int
  cf_SamplerPort :: int
  cf_Resources :: strmap
  cf_PreComputeEnabled :: bool
  cf_PreComputeFrequency :: duration
  cf_SaveSamplesLocally :: "saveSamplesLocally option"
  cf_SchedulerHealth :: "schedulerHealth option"
  cf_CGroupSources :: "(string, cgroupMetric) gomap"
  cf_CGroupRoot :: cgroupMetric

datatype specError =
    DuplicateName string
  | TooManyExtensionLabels nat
  | RequiresRQD nat nat
  | RequiresPreCompute
  | InvalidSource string source
  | InvalidType string
  | MissingLevels nat
  | SumOfUtilization nat
  | InvalidOperation string
  | LevelMissingName
  | FilterWithoutLabels
  | FilterWithoutPresent
  | UnknownBucket string
  | TaintWithoutName
  | TaintWithoutRequirement

fun first_error :: "('a \<Rightarrow> 'e option) \<Rightarrow> 'a list \<Rightarrow> 'e option" where
  "first_error f [] = None"
| "first_error f (x # xs) = (case f x of Some e \<Rightarrow> Some e | None \<Rightarrow> first_error f xs)"

definition orelse :: "'e option \<Rightarrow> 'e option \<Rightarrow> 'e option" where
  "orelse a b = (case a of Some e \<Rightarrow> Some e | None \<Rightarrow> b)"

lemma first_error_None: "first_error f xs = None \<longleftrightarrow> (\<forall>x \<in> set xs. f x = None)"
  by (induction xs) (auto split: option.split)

lemma first_error_no_error [simp]: "first_error (\<lambda>_. None) xs = None"
  by (simp add: first_error_None)

lemma orelse_None [simp]: "orelse a b = None \<longleftrightarrow> a = None \<and> b = None"
  by (auto simp: orelse_def split: option.split)

section \<open>Names\<close>

definition name_level :: "collectorSpec \<Rightarrow> nat \<Rightarrow> level \<Rightarrow> level" where
  "name_level spec j l =
     (if lv_Name l = ''''
      then l\<lparr>lv_Name := (if cf_DefaultLevelNames spec then lm_Level (lv_Mask l) else ''unnamed-level-'' @ show_u64 j)\<rparr> else l)"

definition name_aggregation :: "collectorSpec \<Rightarrow> nat \<Rightarrow> aggregation \<Rightarrow> aggregation" where
  "name_aggregation spec i a =
     (let a = (if ag_Name a = ''''
               then a\<lparr>ag_Name := (if cf_DefaultAggregationNames spec then src_Type (ag_Sources a)
                                  else ''unnamed-aggregation-'' @ show_u64 i)\<rparr> else a)
      in a\<lparr>ag_Levels := map (\<lambda>(j, l). name_level spec j l) (enumerate 0 (ag_Levels a))\<rparr>)"

definition combination :: "aggregation \<Rightarrow> source \<Rightarrow> level \<Rightarrow> string \<Rightarrow> string" where
  "combination a s l op = join_with '' '' [ag_Name a, s, lv_Name l, op]"

definition combinations :: "aggregation list \<Rightarrow> string list" where
  "combinations as =
     concat (map (\<lambda>a. concat (map (\<lambda>l. concat (map (\<lambda>s.
        combination a s l (lv_Operation l) # map (combination a s l) (lv_Operations l)) (GetSources (ag_Sources a)))) (ag_Levels a))) as)"

fun duplicate :: "string list \<Rightarrow> string list \<Rightarrow> string option" where
  "duplicate seen [] = None"
| "duplicate seen (n # ns) = (if n \<in> set seen then Some n else duplicate (n # seen) ns)"

definition totalExtensionLabels :: "extensions \<Rightarrow> nat" where
  "totalExtensionLabels e =
     length (ex_Pods e) + length (ex_Namespaces e) + length (ex_Nodes e) + length (ex_Quota e) + length (ex_PVCs e)
     + length (ex_PVs e) + length (ex_NodeTaints e)"

definition rqd_error :: "nat \<times> aggregation \<Rightarrow> specError option" where
  "rqd_error ia =
     (if src_Type (ag_Sources (snd ia)) \<noteq> QuotaType then None
      else first_error (\<lambda>(jj, s). if s \<in> set RQDSources then Some (RequiresRQD (fst ia) jj) else None)
             (enumerate 0 (GetSources (ag_Sources (snd ia)))))"

definition default_deletion :: "collectorSpec \<Rightarrow> collectorSpec" where
  "default_deletion spec =
     (let spec = (if cf_DeleteUnregisteredPodsAfterAgeMinutes spec = 0
                  then spec\<lparr>cf_DeleteUnregisteredPodsAfterAgeMinutes := 30\<rparr> else spec)
      in if cf_DeleteUnregisteredPodsAfterCycles spec = 0 then spec\<lparr>cf_DeleteUnregisteredPodsAfterCycles := 10\<rparr> else spec)"

definition ValidateCollectorSpecAndApplyDefaults :: "collectorSpec \<Rightarrow> specError + collectorSpec" where
  "ValidateCollectorSpecAndApplyDefaults spec =
     (let spec = spec\<lparr>cf_Aggregations := map (\<lambda>(i, a). name_aggregation spec i a) (enumerate 0 (cf_Aggregations spec))\<rparr>;
          total = totalExtensionLabels (cf_Extensions spec)
      in case duplicate [] (combinations (cf_Aggregations spec)) of
           Some n \<Rightarrow> Inl (DuplicateName n)
         | None \<Rightarrow>
             if total > MaxExtensionLabels then Inl (TooManyExtensionLabels total)
             else if cf_EnableResourceQuotaDescriptor spec then Inr spec
             else case first_error rqd_error (enumerate 0 (cf_Aggregations spec)) of
                    Some e \<Rightarrow> Inl e
                  | None \<Rightarrow> Inr (default_deletion spec))"

section \<open>Defaults of the collector\<close>

definition default_level :: "level \<Rightarrow> level" where
  "default_level l = (if lv_Operation l = '''' \<and> length (lv_Operations l) = 0 then l\<lparr>lv_Operation := SumOperation\<rparr> else l)"

text \<open>\<^verbatim>\<open>tempDir\<close> is the directory for temporary files of the system.\<close>

definition DefaultSamplesLocalDirectoryPath :: "string \<Rightarrow> string" where
  "DefaultSamplesLocalDirectoryPath tempDir = tempDir @ ''metrics-prometheus-collector-samples''"

definition DefaultSamplesTimeFormat :: string where
  "DefaultSamplesTimeFormat = ''20060102-15:04:05''"

definition default_save :: "string \<Rightarrow> saveSamplesLocally \<Rightarrow> saveSamplesLocally" where
  "default_save tempDir s =
     (let s = (if sv_DirectoryPath s = '''' then s\<lparr>sv_DirectoryPath := DefaultSamplesLocalDirectoryPath tempDir\<rparr> else s);
          s = (if sv_TimeFormat s = '''' then s\<lparr>sv_TimeFormat := DefaultSamplesTimeFormat\<rparr> else s)
      in if sv_SaveJSON s = None \<and> sv_SaveProto s = None then s\<lparr>sv_SaveProto := Some True\<rparr> else s)"

definition default_health :: "schedulerHealth \<Rightarrow> schedulerHealth" where
  "default_health h =
     (let h = (if sh_MaxPodAgeMinutes h = 0 then h\<lparr>sh_MaxPodAgeMinutes := 60\<rparr> else h)
      in if sh_MinPodAgeMinutes h = 0 then h\<lparr>sh_MaxPodAgeMinutes := 15\<rparr> else h)"

definition defaultMetricsPrometheusCollector :: "string \<Rightarrow> collectorSpec \<Rightarrow> collectorSpec" where
  "defaultMetricsPrometheusCollector tempDir c =
     c\<lparr>cf_Kind := ''MetricsPrometheusCollector'', cf_APIVersion := ''v1alpha1'',
       cf_SamplerPort := (if cf_SamplerPort c = 0 then 8080 else cf_SamplerPort c),
       cf_PreComputeFrequency := (if cf_PreComputeFrequency c = 0 then Minute * 2 else cf_PreComputeFrequency c),
       cf_Aggregations := map (\<lambda>a. a\<lparr>ag_Levels := map default_level (ag_Levels a)\<rparr>) (cf_Aggregations c),
       cf_SaveSamplesLocally := map_option (default_save tempDir) (cf_SaveSamplesLocally c),
       cf_SchedulerHealth := map_option default_health (cf_SchedulerHealth c)\<rparr>"

section \<open>Validation of the collector\<close>

definition source_error :: "string \<Rightarrow> source list \<Rightarrow> source list \<Rightarrow> specError option" where
  "source_error kind valid ss = first_error (\<lambda>s. if \<not> IsExtension s \<and> s \<notin> set valid then Some (InvalidSource kind s) else None) ss"

definition cgroup_source_ok :: "collectorSpec \<Rightarrow> source \<Rightarrow> bool" where
  "cgroup_source_ok c s \<longleftrightarrow>
     cg_Name (cf_CGroupRoot c) = s \<or> ''avg_'' @ cg_Name (cf_CGroupRoot c) = s
     \<or> (\<exists>m \<in> set (map snd (cf_CGroupSources c)). cg_Name m = s \<or> ''avg_'' @ cg_Name m = s)"

definition filter_error :: "filter_spec \<Rightarrow> specError option" where
  "filter_error f =
     (if length (fl_LabelNames f) = 0 \<and> length (fl_Labels f) = 0 then Some FilterWithoutLabels
      else if length (fl_LabelNames f) > 0 \<and> fl_Present f = None then Some FilterWithoutPresent
      else None)"

definition level_error :: "collectorSpec \<Rightarrow> level \<Rightarrow> specError option" where
  "level_error c l =
     orelse (if length (lv_Operations l) = 0 \<and> lv_Operation l \<notin> set AggregationOperations
             then Some (InvalidOperation (lv_Operation l)) else None)
    (orelse (first_error (\<lambda>op. if length (lv_Operations l) = 0 \<and> op \<notin> set AggregationOperations
                                then Some (InvalidOperation (lv_Operation l)) else None) (lv_Operations l))
    (orelse (if lm_Level (lv_Mask l) = '''' then Some LevelMissingName else None)
    (orelse (first_error filter_error (lm_Filters (lv_Mask l)))
            (first_error (\<lambda>(k, _). if k \<notin> set (map snd (cf_Resources c)) then Some (UnknownBucket k) else None)
               (lv_HistogramBuckets l)))))"

definition utilization_error :: "nat \<Rightarrow> aggregation \<Rightarrow> specError option" where
  "utilization_error i a =
     (if src_Type (ag_Sources a) = ContainerType \<and> length (lv_Operations (ag_Levels a ! 0)) = 0
         \<and> ''utilization'' \<in> set (GetSources (ag_Sources a)) \<and> lv_Operation (ag_Levels a ! 0) \<in> {''sum'', ''''}
      then Some (SumOfUtilization i) else None)"

definition aggregation_error :: "collectorSpec \<Rightarrow> nat \<times> aggregation \<Rightarrow> specError option" where
  "aggregation_error c ia =
     (let (i, a) = ia; s = ag_Sources a in
      orelse (source_error ''container'' ContainerSources (src_Container s))
     (orelse (source_error ''pod'' PodSources (src_Pod s))
     (orelse (source_error ''node'' NodeSources (src_Node s))
     (orelse (first_error (\<lambda>x. if \<not> cgroup_source_ok c x then Some (InvalidSource ''cgroup'' x) else None) (src_CGroup s))
     (orelse (source_error ''quota'' QuotaSources (src_Quota s))
     (orelse (source_error ''pv'' PVSources (src_PV s))
     (orelse (source_error ''pvc'' PVCSources (src_PVC s))
     (orelse (source_error ''namespace'' NamespaceSources (src_Namespace s))
     (orelse (if src_Type s \<notin> set SourceTypes then Some (InvalidType (src_Type s)) else None)
             (if length (ag_Levels a) = 0 then Some (MissingLevels i)
              else orelse (utilization_error i a) (first_error (level_error c) (ag_Levels a))))))))))))"

definition taint_error :: "nodeTaint \<Rightarrow> specError option" where
  "taint_error t =
     (if nt_LabelName t = '''' then Some TaintWithoutName
      else if length (nt_TaintKeys t) = 0 \<and> length (nt_TaintValues t) = 0 \<and> length (nt_TaintEffects t) = 0
      then Some TaintWithoutRequirement else None)"

definition validateMetricsPrometheusCollector :: "collectorSpec \<Rightarrow> specError option" where
  "validateMetricsPrometheusCollector c =
     orelse (if \<not> cf_PreComputeEnabled c \<and> cf_SaveSamplesLocally c \<noteq> None then Some RequiresPreCompute else None)
    (orelse (first_error (aggregation_error c) (enumerate 0 (cf_Aggregations c)))
            (first_error taint_error (ex_NodeTaints (cf_Extensions c))))"

section \<open>Initialisation\<close>

text \<open>
  \<^verbatim>\<open>init\<close>: defaults, the side car configurations (read from files, so an argument), the numbering and the indexes of
  the labels, the internal masks of the levels and of the saved sources in this order, validation. The numbers
  that \<^verbatim>\<open>init\<close> first gives to the masks of the levels are overwritten when their internal masks are made.
\<close>

fun init_levels :: "labelState \<Rightarrow> level list \<Rightarrow> level list \<times> labelState" where
  "init_levels st [] = ([], st)"
| "init_levels st (l # ls) =
     (let (mk, st) = initInternalLabelsMask st (lv_Mask l); (ls, st) = init_levels st ls in (l\<lparr>lv_Mask := mk\<rparr> # ls, st))"

fun init_aggregations :: "labelState \<Rightarrow> aggregation list \<Rightarrow> aggregation list \<times> labelState" where
  "init_aggregations st [] = ([], st)"
| "init_aggregations st (a # as) =
     (let (ls, st) = init_levels st (ag_Levels a); (as, st) = init_aggregations st as in (a\<lparr>ag_Levels := ls\<rparr> # as, st))"

fun init_saved :: "labelState \<Rightarrow> (sources \<times> labelsMask) list \<Rightarrow> (sources \<times> labelsMask) list \<times> labelState" where
  "init_saved st [] = ([], st)"
| "init_saved st ((s, mk) # ss) =
     (let (mk, st) = initInternalLabelsMask st mk; (ss, st) = init_saved st ss in ((s, mk) # ss, st))"

datatype initError = SideCarError string | SpecError specError

definition collector_init ::
  "string \<Rightarrow> string + sideCarConfig list \<Rightarrow> collectorSpec \<Rightarrow> initError + collectorSpec \<times> sideCarConfig list \<times> labelState" where
  "collector_init tempDir sideCars c =
     (let c = defaultMetricsPrometheusCollector tempDir c
      in case sideCars of
           Inl err \<Rightarrow> Inl (SideCarError err)
         | Inr scs \<Rightarrow>
            (let (e, scs) = initLabelIds (cf_Extensions c) scs;
                 st = \<lparr>ci_nextId = 0, ci_indexes = initExtensionLabelIndexes e scs, ci_maskById = []\<rparr>;
                 (as, st) = init_aggregations st (cf_Aggregations c);
                 (saved, st) = (case cf_SaveSamplesLocally c of
                                  None \<Rightarrow> (None, st)
                                | Some s \<Rightarrow> (let (ss, st) = init_saved st (sv_SampleSources s)
                                             in (Some (s\<lparr>sv_SampleSources := ss\<rparr>), st)));
                 c = c\<lparr>cf_Extensions := e, cf_Aggregations := as, cf_SaveSamplesLocally := saved\<rparr>
             in case validateMetricsPrometheusCollector c of
                  Some err \<Rightarrow> Inl (SpecError err)
                | None \<Rightarrow> Inr (c, scs, st)))"

section \<open>What a configuration in use satisfies\<close>

definition level_masks :: "collectorSpec \<Rightarrow> labelsMask list" where
  "level_masks c = concat (map (\<lambda>a. map lv_Mask (ag_Levels a)) (cf_Aggregations c))"

definition saved_masks :: "collectorSpec \<Rightarrow> labelsMask list" where
  "saved_masks c = (case cf_SaveSamplesLocally c of None \<Rightarrow> [] | Some s \<Rightarrow> map snd (sv_SampleSources s))"

lemma initMasks_append:
  "initMasks st (xs @ ys) = (let (xs', st') = initMasks st xs; (ys', st'') = initMasks st' ys in (xs' @ ys', st''))"
  by (induction xs arbitrary: st) (auto simp: initMasks.simps Let_def split: prod.splits)

lemma init_levels_masks: "initMasks st (map lv_Mask ls) = (map lv_Mask (fst (init_levels st ls)), snd (init_levels st ls))"
  by (induction ls arbitrary: st) (auto simp: initMasks.simps Let_def split: prod.splits)

lemma init_saved_masks: "initMasks st (map snd ss) = (map snd (fst (init_saved st ss)), snd (init_saved st ss))"
  by (induction st ss rule: init_saved.induct) (auto simp: initMasks.simps Let_def split: prod.splits)

lemma init_aggregations_masks:
  "initMasks st (concat (map (\<lambda>a. map lv_Mask (ag_Levels a)) as))
   = (concat (map (\<lambda>a. map lv_Mask (ag_Levels a)) (fst (init_aggregations st as))), snd (init_aggregations st as))"
  by (induction as arbitrary: st) (auto simp: initMasks_append init_levels_masks Let_def split: prod.splits)

lemma default_masks:
  "level_masks (defaultMetricsPrometheusCollector t c) = level_masks c"
  "saved_masks (defaultMetricsPrometheusCollector t c) = saved_masks c"
  "cf_Extensions (defaultMetricsPrometheusCollector t c) = cf_Extensions c"
  by (auto simp: defaultMetricsPrometheusCollector_def level_masks_def saved_masks_def default_level_def default_save_def
      comp_def Let_def split: option.split intro!: arg_cong [where f = concat] map_cong)

text \<open>A collector that is initialised has exactly the label state of \<^verbatim>\<open>initLabels\<close> on its configuration, and is valid.\<close>

lemma collector_init_labels:
  assumes "collector_init t (Inr scs) c = Inr (c', scs', st)"
  shows "initLabels (cf_Extensions c) scs (level_masks c @ saved_masks c)
       = ((cf_Extensions c', scs'), level_masks c' @ saved_masks c', st)
     \<and> validateMetricsPrometheusCollector c' = None"
proof -
  define d where "d = defaultMetricsPrometheusCollector t c"
  have d: "level_masks c = level_masks d" "saved_masks c = saved_masks d" "cf_Extensions c = cf_Extensions d"
    by (simp_all add: d_def default_masks)
  show ?thesis
    using assms unfolding d collector_init_def d_def [symmetric]
    by (auto simp: initLabels_def initMasks_append level_masks_def saved_masks_def init_aggregations_masks init_saved_masks Let_def
        split: prod.splits option.splits)
qed

lemma duplicate_None: "duplicate seen ns = None \<longleftrightarrow> distinct ns \<and> set ns \<inter> set seen = {}"
  by (induction seen ns rule: duplicate.induct) auto

lemma first_error_enumerate:
  "first_error f (enumerate n xs) = None \<longleftrightarrow> (\<forall>i < length xs. f (n + i, xs ! i) = None)"
proof (induction xs arbitrary: n)
  case (Cons x xs)
  then show ?case by (auto simp: less_Suc_eq_0_disj split: option.split)
qed simp

lemma validate_spec:
  assumes "ValidateCollectorSpecAndApplyDefaults spec = Inr spec'"
  shows "distinct (combinations (cf_Aggregations spec')) \<and> totalExtensionLabels (cf_Extensions spec') \<le> MaxExtensionLabels
     \<and> (\<not> cf_EnableResourceQuotaDescriptor spec' \<longrightarrow> first_error rqd_error (enumerate 0 (cf_Aggregations spec')) = None)"
proof -
  define u where "u = spec\<lparr>cf_Aggregations := map (\<lambda>(i, a). name_aggregation spec i a) (enumerate 0 (cf_Aggregations spec))\<rparr>"
  have v: "(case duplicate [] (combinations (cf_Aggregations u)) of
             Some n \<Rightarrow> Inl (DuplicateName n)
           | None \<Rightarrow>
               if totalExtensionLabels (cf_Extensions u) > MaxExtensionLabels
               then Inl (TooManyExtensionLabels (totalExtensionLabels (cf_Extensions u)))
               else if cf_EnableResourceQuotaDescriptor u then Inr u
               else case first_error rqd_error (enumerate 0 (cf_Aggregations u)) of
                      Some e \<Rightarrow> Inl e | None \<Rightarrow> Inr (default_deletion u)) = Inr spec'"
    using assms unfolding ValidateCollectorSpecAndApplyDefaults_def u_def [symmetric] Let_def default_deletion_def by simp
  have "spec' = u \<or> spec' = default_deletion u" using v by (auto split: option.splits if_splits)
  then have "cf_Aggregations spec' = cf_Aggregations u" "cf_Extensions spec' = cf_Extensions u"
    "cf_EnableResourceQuotaDescriptor spec' = cf_EnableResourceQuotaDescriptor u"
    by (auto simp: default_deletion_def Let_def split: if_splits)
  with v show ?thesis by (auto simp: duplicate_None split: option.splits if_splits)
qed

lemma rqd_ok:
  assumes "first_error rqd_error (enumerate 0 as) = None" "a \<in> set as" "src_Type (ag_Sources a) = QuotaType"
  shows "set (GetSources (ag_Sources a)) \<inter> set RQDSources = {}"
proof -
  obtain i where "i < length as" "as ! i = a" using assms(2) by (auto simp: in_set_conv_nth)
  then have "rqd_error (i, a) = None" using assms(1) by (auto simp: first_error_enumerate)
  with assms(3) have "GetSources (ag_Sources a) ! j \<notin> set RQDSources" if "j < length (GetSources (ag_Sources a))" for j
    using that by (auto simp: rqd_error_def first_error_enumerate split: if_splits)
  then show ?thesis by (auto simp: in_set_conv_nth [of _ "GetSources _"])
qed

lemma aggregation_ok:
  assumes "validateMetricsPrometheusCollector c = None" "a \<in> set (cf_Aggregations c)"
  shows "\<exists>i. aggregation_error c (i, a) = None"
  using assms by (auto simp: validateMetricsPrometheusCollector_def first_error_enumerate in_set_conv_nth)

text \<open>A level in use: which operations it may have, that it is named, and that its filters are complete.\<close>

definition level_ok :: "level \<Rightarrow> bool" where
  "level_ok l \<longleftrightarrow>
     (lv_Operations l = [] \<longrightarrow> lv_Operation l \<in> set AggregationOperations) \<and> lm_Level (lv_Mask l) \<noteq> ''''
     \<and> (\<forall>f \<in> set (lm_Filters (lv_Mask l)).
          (fl_LabelNames f \<noteq> [] \<or> fl_Labels f \<noteq> []) \<and> (fl_LabelNames f \<noteq> [] \<longrightarrow> fl_Present f \<noteq> None))"

lemma level_error_None: "level_error c l = None \<Longrightarrow> level_ok l"
  by (auto simp: level_error_def level_ok_def first_error_None filter_error_def split: if_splits)

definition aggregation_in_use :: "aggregation \<Rightarrow> bool" where
  "aggregation_in_use a \<longleftrightarrow>
     src_Type (ag_Sources a) \<in> set SourceTypes \<and> ag_Levels a \<noteq> [] \<and> list_all level_ok (ag_Levels a)
     \<and> list_all (\<lambda>(valid, ss). list_all (\<lambda>s. IsExtension s \<or> s \<in> set valid) ss)
         [(ContainerSources, src_Container (ag_Sources a)), (PodSources, src_Pod (ag_Sources a)),
          (NodeSources, src_Node (ag_Sources a)), (QuotaSources, src_Quota (ag_Sources a)), (PVSources, src_PV (ag_Sources a)),
          (PVCSources, src_PVC (ag_Sources a)), (NamespaceSources, src_Namespace (ag_Sources a))]
     \<and> (src_Type (ag_Sources a) = ContainerType \<and> ''utilization'' \<in> set (GetSources (ag_Sources a))
        \<and> lv_Operations (hd (ag_Levels a)) = [] \<longrightarrow> lv_Operation (hd (ag_Levels a)) \<noteq> SumOperation)"

lemma source_error_None: "source_error kind valid ss = None \<longleftrightarrow> list_all (\<lambda>s. IsExtension s \<or> s \<in> set valid) ss"
  by (auto simp: source_error_def first_error_None list_all_iff)

lemma aggregation_error_None: "aggregation_error c (i, a) = None \<Longrightarrow> aggregation_in_use a"
  by (auto simp: aggregation_error_def aggregation_in_use_def source_error_None utilization_error_def first_error_None
      list_all_iff [of level_ok] hd_conv_nth SumOperation_def Let_def split: if_splits intro: level_error_None)

lemma label_count_without_side_cars: "concat (map sc_Labels scs) = [] \<Longrightarrow> label_count e scs = totalExtensionLabels e"
  by (simp only: label_count_def totalExtensionLabels_def) simp

lemma init_keeps_extensions:
  assumes "initLabels e scs mks = ((e', scs'), r)"
  shows "initLabelIds e scs = (e', scs')"
  using assms by (auto simp: initLabels_def Let_def split: prod.splits)

text \<open>
  C26. A configuration that passes both validations is safe to use: no two combinations of aggregation, source, level and
  operation have the same name; every aggregation has a known type and levels, and never adds up utilization
  samples in its first level; every level has a known operation (unless it lists several), a name and complete filters;
  the label state is the one of \<^verbatim>\<open>initLabels\<close> on the configuration; and without side cars every extension
  label has its own slot.
\<close>

theorem configuration_in_use:
  assumes "ValidateCollectorSpecAndApplyDefaults spec = Inr spec'"
    and "collector_init tempDir (Inr scs) spec' = Inr (c, scs', st)"
  shows "distinct (combinations (cf_Aggregations spec')) \<and> list_all aggregation_in_use (cf_Aggregations c)
     \<and> initLabels (cf_Extensions spec') scs (level_masks spec' @ saved_masks spec')
         = ((cf_Extensions c, scs'), level_masks c @ saved_masks c, st)
     \<and> (concat (map sc_Labels scs) = [] \<longrightarrow>
          distinct (label_ids (cf_Extensions c) scs') \<and> list_all in_slots (label_ids (cf_Extensions c) scs'))"
proof (intro conjI impI)
  show "distinct (combinations (cf_Aggregations spec'))" using validate_spec [OF assms(1)] by simp
  have init: "initLabels (cf_Extensions spec') scs (level_masks spec' @ saved_masks spec')
         = ((cf_Extensions c, scs'), level_masks c @ saved_masks c, st)" and valid: "validateMetricsPrometheusCollector c = None"
    using collector_init_labels [OF assms(2)] by simp_all
  show "initLabels (cf_Extensions spec') scs (level_masks spec' @ saved_masks spec')
         = ((cf_Extensions c, scs'), level_masks c @ saved_masks c, st)" by (rule init)
  show "list_all aggregation_in_use (cf_Aggregations c)"
    unfolding list_all_iff using aggregation_ok [OF valid] aggregation_error_None by blast
  assume "concat (map sc_Labels scs) = []"
  then have "label_count (cf_Extensions spec') scs \<le> MaxExtensionLabels"
    using validate_spec [OF assms(1)] label_count_without_side_cars by simp
  then show "distinct (label_ids (cf_Extensions c) scs')" "list_all in_slots (label_ids (cf_Extensions c) scs')"
    by (auto simp: label_ids_upto [OF init_keeps_extensions [OF init]] distinct_upto in_slots_def list_all_iff)
qed

definition ex_config :: collectorSpec where
  "ex_config =
     \<lparr>cf_Kind = '''', cf_APIVersion = '''',
      cf_Aggregations = [\<lparr>ag_Name = ''usage'',
        ag_Sources = \<lparr>src_Type = ContainerType, src_Quota = [], src_Node = [], src_CGroup = [], src_Container = [''utilization''],
                       src_Pod = [], src_PV = [], src_PVC = [], src_Namespace = [], src_ClusterScoped = [],
                       src_SchedulerHealth = [], src_Alias = []\<rparr>,
        ag_Levels = [\<lparr>lv_Name = ''workload'', lv_Mask = ex_mask, lv_Operation = ''max'', lv_Operations = [], lv_NoExport = False,
                      lv_HistogramBuckets = [], lv_RetentionName = '''', lv_RetentionExponentialBuckets = []\<rparr>]\<rparr>],
      cf_DefaultAggregationNames = False, cf_DefaultLevelNames = False, cf_Extensions = ex_extensions,
      cf_EnableResourceQuotaDescriptor = False, cf_DeleteUnregisteredPodsAfterAgeMinutes = 5,
      cf_DeleteUnregisteredPodsAfterCycles = 5, cf_SamplerPort = 0, cf_Resources = [], cf_PreComputeEnabled = False,
      cf_PreComputeFrequency = 0, cf_SaveSamplesLocally = None, cf_SchedulerHealth = None, cf_CGroupSources = [],
      cf_CGroupRoot = \<lparr>cg_Name = '''', cg_AvgName = ''''\<rparr>\<rparr>"

lemma ex_config_valid: "ValidateCollectorSpecAndApplyDefaults ex_config = Inr ex_config"
  by (simp add: ValidateCollectorSpecAndApplyDefaults_def ex_config_def name_aggregation_def name_level_def combinations_def
      GetSources_def ContainerType_def QuotaType_def totalExtensionLabels_def ex_extensions_def MaxExtensionLabels_def rqd_error_def
      default_deletion_def)

lemma ex_config_init: "\<exists>c scs st. collector_init t (Inr []) ex_config = Inr (c, scs, st) \<and> cf_Aggregations c \<noteq> []"
  by (simp add: collector_init_def ex_config_def defaultMetricsPrometheusCollector_def default_level_def
      initInternalLabelsMask_eq validateMetricsPrometheusCollector_def aggregation_error_def source_error_def IsExtension_def
      ContainerSources_def SourceTypes_def utilization_error_def level_error_def AggregationOperations_def MaxOperation_def orelse_def ContainerType_def
      GetSources_def ex_mask_def initLabelIds_def ex_extensions_def Let_def)

theorem configuration_in_use_witness:
  "\<exists>c scs st. collector_init ''/tmp'' (Inr []) ex_config = Inr (c, scs, st) \<and> cf_Aggregations c \<noteq> []
     \<and> list_all aggregation_in_use (cf_Aggregations c) \<and> list_all in_slots (label_ids (cf_Extensions c) scs)"
proof -
  obtain c scs st where init: "collector_init ''/tmp'' (Inr []) ex_config = Inr (c, scs, st)" "cf_Aggregations c \<noteq> []"
    using ex_config_init by blast
  with configuration_in_use [OF ex_config_valid init(1)] show ?thesis by simp
qed

text \<open>An operation in the list of operations of a level is never checked.\<close>

theorem invalid_operations_accepted:
  "level_error c (l\<lparr>lv_Operations := op # ops\<rparr>) = level_error c (l\<lparr>lv_Operations := op' # ops'\<rparr>)"
  by (simp add: level_error_def first_error_no_error)

text \<open>
  Scheduler health without a minimal age: the maximum is overwritten by the value meant for the minimum, which stays 0.
\<close>

theorem min_pod_age_default_lost:
  "sh_MinPodAgeMinutes h = 0 \<Longrightarrow> default_health h = h\<lparr>sh_MaxPodAgeMinutes := 15\<rparr>"
  by (cases h) (simp add: default_health_def)

end
