(* ===== verification/Collection_Run.thy ===== *)
theory Collection_Run
  imports Config_Validation Aggregation_Levels
begin

text \<open>
  One collection, \<^verbatim>\<open>pkg/collector/collector.go\<close>: the registry of collector functions, side car configurations, the
  samples that a level retains, \<^verbatim>\<open>collect\<close> and \<^verbatim>\<open>Collect\<close>. The file system, the decoder of side car files and the
  Kubernetes client are arguments. The latency gauges are left out. \<^const>\<open>None\<close> is a panic.
\<close>

section \<open>Side cars\<close>

record sideCarMetric =
  sg_Name :: string
  sg_Help :: string
  sg_LabelNames :: "string list"
  sg_Values :: "(string list \<times> float64) list"

record sideCarFile = sideCarConfig +
  sc_SideCarMetrics :: "sideCarMetric list"

definition SideCarConfigFileSuffix :: string where
  "SideCarConfigFileSuffix = ''_sidecar_config.json''"

text \<open>What the file system and the decoder answer; an error is a string.\<close>

record sideCarFs =
  fs_Stat :: "string \<Rightarrow> bool"
  fs_ReadDir :: "string \<Rightarrow> string + string list"
  fs_ReadFile :: "string \<Rightarrow> string \<Rightarrow> string + string"
  fs_Decode :: "string \<Rightarrow> string + sideCarFile"

fun sideCar_entries :: "sideCarFs \<Rightarrow> string \<Rightarrow> string list \<Rightarrow> sideCarFile list \<Rightarrow> string + sideCarFile list" where
  "sideCar_entries fs p [] results = Inr results"
| "sideCar_entries fs p (e # es) results =
     (if \<not> HasSuffix e SideCarConfigFileSuffix then sideCar_entries fs p es results
      else case fs_ReadFile fs p e of
             Inl err \<Rightarrow> Inl err
           | Inr b \<Rightarrow> (case fs_Decode fs b of
                         Inl err \<Rightarrow> Inl err
                       | Inr sc \<Rightarrow> sideCar_entries fs p es (results @ [sc])))"

fun sideCar_dirs :: "sideCarFs \<Rightarrow> string list \<Rightarrow> sideCarFile list \<Rightarrow> string + sideCarFile list" where
  "sideCar_dirs fs [] results = Inr results"
| "sideCar_dirs fs (p # ps) results =
     (if \<not> fs_Stat fs p then sideCar_dirs fs ps results
      else case fs_ReadDir fs p of
             Inl err \<Rightarrow> Inl err
           | Inr es \<Rightarrow> (case sideCar_entries fs p es results of
                          Inl err \<Rightarrow> Inl err
                        | Inr results \<Rightarrow> sideCar_dirs fs ps results))"

definition getSideCarConfigs :: "sideCarFs \<Rightarrow> string list \<Rightarrow> string + sideCarFile list" where
  "getSideCarConfigs fs paths = sideCar_dirs fs paths []"

text \<open>
  The gauge of a side car metric: a value is set for its label values, and asking for a gauge with a number of label
  values other than the number of label names panics.
\<close>

record sideCarGauge =
  gv_Name :: string
  gv_Help :: string
  gv_LabelNames :: "string list"
  gv_Values :: "(string list, float64) gomap"

definition sideCar_gauge :: "string \<Rightarrow> sideCarMetric \<Rightarrow> sideCarGauge option" where
  "sideCar_gauge pfx m =
     (let name = pfx @ ''_'' @ sg_Name m
      in map_option (\<lambda>vs. \<lparr>gv_Name = name, gv_Help = (if sg_Help m = '''' then name else sg_Help m),
                           gv_LabelNames = sg_LabelNames m, gv_Values = vs\<rparr>)
           (ofold (\<lambda>vs (ls, v). if length ls = length (sg_LabelNames m) then Some (AList.update ls v vs) else None) [] (sg_Values m)))"

definition omap :: "('a \<Rightarrow> 'b option) \<Rightarrow> 'a list \<Rightarrow> 'b list option" where
  "omap f xs = ofold (\<lambda>out x. map_option (\<lambda>y. out @ [y]) (f x)) [] xs"

definition sideCar_gauges :: "string \<Rightarrow> sideCarFile list \<Rightarrow> sideCarGauge list option" where
  "sideCar_gauges pfx cfgs = omap (sideCar_gauge pfx) (concat (map sc_SideCarMetrics cfgs))"

section \<open>Retained samples\<close>

text \<open>What \<^verbatim>\<open>AggregateAndCollect\<close> sends for saving when a level has a retention name.\<close>

definition set_item :: "nat option \<Rightarrow> string \<Rightarrow> string \<Rightarrow> sampleListBuilder option \<Rightarrow> sampleListBuilder option" where
  "set_item s operation level sb =
     (case (s, sb) of
        (Some i, Some b) \<Rightarrow>
           Some (b\<lparr>sb_SampleList := (sb_SampleList b)\<lparr>sl_Items :=
              (sl_Items (sb_SampleList b))[i := (sl_Items (sb_SampleList b) ! i)\<lparr>sa_Operation := operation, sa_Level := level\<rparr>]\<rparr>\<rparr>)
      | _ \<Rightarrow> sb)"

definition retained_sample ::
  "('q, 'd) quantity_ops \<Rightarrow> float_math \<Rightarrow> labelState \<Rightarrow> level \<Rightarrow> metricName \<Rightarrow> sampleListBuilder option \<Rightarrow>
   LabelsValues \<times> 'q list \<Rightarrow> sampleListBuilder option option" where
  "retained_sample Q fm st l name sb kv =
     do { (s, sb) \<leftarrow> NewSample st (fst kv) sb;
          let sb = set_item s (mn_Operation name) (mn_Level name) sb;
          case (if mn_Operation name = HistogramOperation then map_of (lv_RetentionExponentialBuckets l) (mn_Resource name) else None) of
            Some buckets \<Rightarrow> AddHistogramValues Q fm s (mn_Resource name) (mn_Source name) buckets (snd kv) sb
          | None \<Rightarrow> Some (AddQuantityValues Q s (mn_Resource name) (mn_Source name) (snd kv) sb) }"

definition retained_list ::
  "('q, 'd) quantity_ops \<Rightarrow> float_math \<Rightarrow> labelState \<Rightarrow> saveSamplesLocally option \<Rightarrow> gotime \<Rightarrow> level \<times> 'q metric \<Rightarrow> sampleList option" where
  "retained_list Q fm st save now lm =
     (let l = fst lm; m = snd lm; name = mt_Name m
      in case NewAggregatedSampleListBuilder save now (mn_SourceType name) of
           None \<Rightarrow> None
         | Some b \<Rightarrow>
            (let b = b\<lparr>sb_SampleList := (sb_SampleList b)\<lparr>sl_MetricName := MetricName_String name, sl_Name := lv_RetentionName l\<rparr>,
                       sb_Mask := lv_Mask l\<rparr>
             in case ofold (retained_sample Q fm st l name) (Some b) (mt_Values m) of
                  Some (Some b) \<Rightarrow> Some (sb_SampleList b)
                | _ \<Rightarrow> None))"

section \<open>The collector functions\<close>

record 'q collectInputs =
  in_get :: kget
  in_unmarshal :: "string \<Rightarrow> 'q resourceList option"
  in_parse :: "string \<Rightarrow> string + (strmap \<times> (string, 'q) gomap) list"
  in_now :: gotime

type_synonym 'q collectorFunc = "'q collectInputs \<Rightarrow> collector \<Rightarrow> 'q capacityObjects \<Rightarrow> 'q collectResult option"

definition collectorFuncs :: "('q, 'd) quantity_ops \<Rightarrow> (string, 'q collectorFunc) gomap" where
  "collectorFuncs Q =
     [(''collect_containers'', \<lambda>i c ob. map_option fst (collectContainers Q (in_get i) (in_now i) c ob)),
      (''collect_quotas'', \<lambda>i c ob. collectQuota Q (in_unmarshal i) (in_now i) c ob),
      (''collect_nodes'', \<lambda>i c ob. collectNodes Q (in_now i) c ob),
      (''collect_pvs'', \<lambda>i c ob. collectPVs Q c ob),
      (''collect_pvcs'', \<lambda>i c ob. collectPVCs Q (in_get i) c ob),
      (''collect_namespace'', \<lambda>i c ob. collectNamespaces Q c ob),
      (''collect_cgroups'', \<lambda>i c ob. collectCGroups Q (in_now i) c ob),
      (''collect_cluster_scoped'', \<lambda>i c ob. collectClusterScoped Q (in_parse i) (in_now i) c ob)]"

text \<open>Both copy the map, so that neither the caller nor the registry sees later changes of the other.\<close>

definition copy_map :: "('k, 'v) gomap \<Rightarrow> ('k, 'v) gomap" where
  "copy_map fns = foldl (\<lambda>m (k, v). AList.update k v m) [] fns"

definition CollectorFuncs :: "(string, 'q collectorFunc) gomap \<Rightarrow> (string, 'q collectorFunc) gomap" where
  "CollectorFuncs registry = copy_map registry"

definition SetCollectorFuncs ::
  "(string, 'q collectorFunc) gomap \<Rightarrow> (string, 'q collectorFunc) gomap \<Rightarrow> (string, 'q collectorFunc) gomap" where
  "SetCollectorFuncs fns registry = copy_map fns"

definition bindCollectorFuncs ::
  "(string, 'q collectorFunc) gomap \<Rightarrow> 'q collectInputs \<Rightarrow> collector \<Rightarrow> 'q capacityObjects \<Rightarrow> (string, 'q collectResult option) gomap" where
  "bindCollectorFuncs registry i c ob = map (\<lambda>(name, f). (name, f i c ob)) (CollectorFuncs registry)"

section \<open>Collecting\<close>

record 'q collection =
  on_exported :: "'q exported list"
  on_retained :: "(level \<times> 'q metric) list"
  on_sideCar :: "sideCarGauge list"

text \<open>
  \<^verbatim>\<open>listed\<close> are the results of the list calls in the order in which they finish, \<^verbatim>\<open>l\<close> the lists. The collector functions run
  in parallel and only log errors, so that their results are the union of what each sends.
\<close>

definition collect ::
  "(string, 'q collectorFunc) gomap \<Rightarrow> 'q collectInputs \<Rightarrow> string option list \<Rightarrow> 'q listed \<Rightarrow> (string, listMetricsResponse) gomap \<Rightarrow>
   string + sideCarFile list \<Rightarrow> string \<Rightarrow> collector \<Rightarrow> 'q collection option" where
  "collect registry i listed l utilization sideCars pfx c =
     (case listCapacityObjects listed l utilization of
        Inl err \<Rightarrow> Some \<lparr>on_exported = [], on_retained = [], on_sideCar = []\<rparr>
      | Inr ob \<Rightarrow>
         do { rs \<leftarrow> omap snd (bindCollectorFuncs registry i c ob);
              gs \<leftarrow> sideCar_gauges pfx (case sideCars of Inl err \<Rightarrow> [] | Inr cfgs \<Rightarrow> cfgs);
              Some \<lparr>on_exported = concat (map (\<lambda>r. co_exported (cr_collected r)) rs),
                    on_retained = concat (map (\<lambda>r. co_retained (cr_collected r)) rs), on_sideCar = gs\<rparr> })"

text \<open>\<^verbatim>\<open>Collect\<close>: what is exported, and the files written from what is retained.\<close>

definition Collect_and_save ::
  "('q, 'd) quantity_ops \<Rightarrow> float_math \<Rightarrow> bool \<Rightarrow> server \<Rightarrow> collector \<Rightarrow> gotime \<Rightarrow> string \<Rightarrow> string \<Rightarrow> (unit \<Rightarrow> 'q collection option) \<Rightarrow>
   ('q collection \<times> (string \<times> sampleList list) list \<times> (string \<times> jsonLine list) list) option" where
  "Collect_and_save Q fm isLeaderElected srv c now clusterName nowText run =
     (if \<not> isLeaderElected \<or> \<not> sv_ServeResults srv then Some (\<lparr>on_exported = [], on_retained = [], on_sideCar = []\<rparr>, [], [])
      else do { out \<leftarrow> run ();
                lists \<leftarrow> omap (retained_list Q fm (cl_state c) (cl_Save c) now) (on_retained out);
                files \<leftarrow> saveMetricsToLocalFile (cl_Save c) clusterName nowText lists;
                Some (out, files) })"

section \<open>Retained samples are the aggregated values\<close>

definition label_map :: "string list \<Rightarrow> string list \<Rightarrow> strmap" where
  "label_map ns vs = foldl (\<lambda>m (k, v). AList.update k v m) [] (zip ns vs)"

definition retained_item :: "('q, 'd) quantity_ops \<Rightarrow> metricName \<Rightarrow> string list \<Rightarrow> string list \<Rightarrow> 'q list \<Rightarrow> savedSample" where
  "retained_item Q name ns vs qs =
     \<lparr>sa_Source = '''', sa_Level = mn_Level name, sa_Operation = mn_Operation name, sa_Labels = label_map ns vs,
      sa_Values = [\<lparr>vm_Source = mn_Source name, vm_ResourceType = mn_Resource name,
                    vm_Values = map (qo_AsApproximateFloat64 Q) qs, vm_Histogram = None\<rparr>]\<rparr>"

text \<open>Histograms in exponential buckets are saved only for the histogram operation with buckets for the resource.\<close>

definition saves_values :: "level \<Rightarrow> metricName \<Rightarrow> bool" where
  "saves_values l name \<longleftrightarrow> mn_Operation name \<noteq> HistogramOperation \<or> map_of (lv_RetentionExponentialBuckets l) (mn_Resource name) = None"

lemma retained_sample_adds:
  assumes "saves_values l name" "getLabelNames st (sb_Mask b) = Some ns" "getLabelValues st (sb_Mask b) k = Some vs" "length vs = length ns"
  shows "retained_sample Q fm st l name (Some b) (k, qs) = Some (Some (add_item (retained_item Q name ns vs qs) b))"
proof -
  have b: "(if mn_Operation name = HistogramOperation then map_of (lv_RetentionExponentialBuckets l) (mn_Resource name) else None) = None"
    using assms(1) by (auto simp: saves_values_def)
  show ?thesis
    unfolding retained_sample_def b
    by (simp add: NewSample_def assms(2-4) set_item_def AddQuantityValues_def add_values_def add_item_def retained_item_def label_map_def)
qed

lemma retained_samples_add:
  assumes "saves_values l name" "getLabelNames st (sb_Mask b) = Some ns"
    and "\<And>k qs. (k, qs) \<in> set kvs \<Longrightarrow> getLabelValues st (sb_Mask b) k = Some (val k) \<and> length (val k) = length ns"
  shows "ofold (retained_sample Q fm st l name) (Some b) kvs
     = Some (Some (foldl (\<lambda>b (k, qs). add_item (retained_item Q name ns (val k) qs) b) b kvs))"
  using assms(2,3)
proof (induction kvs arbitrary: b)
  case (Cons kv kvs)
  obtain k qs where kv: "kv = (k, qs)" by force
  let ?b = "add_item (retained_item Q name ns (val k) qs) b"
  have "retained_sample Q fm st l name (Some b) kv = Some (Some ?b)"
    unfolding kv by (rule retained_sample_adds [OF assms(1) Cons.prems(1)]) (use Cons.prems(2) [of k qs] in \<open>simp_all add: kv\<close>)
  moreover have "sb_Mask ?b = sb_Mask b" by (simp add: add_item_def)
  moreover have "ofold (retained_sample Q fm st l name) (Some ?b) kvs
      = Some (Some (foldl (\<lambda>b (k, qs). add_item (retained_item Q name ns (val k) qs) b) ?b kvs))"
    by (rule Cons.IH) (use Cons.prems \<open>sb_Mask ?b = sb_Mask b\<close> in auto)
  ultimately show ?case by (simp add: kv)
qed simp

lemma foldl_add_item:
  "foldl (\<lambda>b (k, qs). add_item (f k qs) b) b kvs
   = b\<lparr>sb_SampleList := (sb_SampleList b)\<lparr>sl_Items := sl_Items (sb_SampleList b) @ map (\<lambda>(k, qs). f k qs) kvs\<rparr>\<rparr>"
  by (induction kvs arbitrary: b) (auto simp: add_item_def)

lemma new_aggregated_builder:
  "\<exists>b. NewAggregatedSampleListBuilder (Some sv) now t = Some b
     \<and> sb_SampleList b = \<lparr>sl_Timestamp = Some now, sl_Items = [], sl_Name = '''', sl_MetricName = '''', sl_ClusterName = '''', sl_Type = t\<rparr>"
  unfolding NewAggregatedSampleListBuilder_def newSampleListBuilder_def Let_def
  by (cases "find (\<lambda>(srcs, _). src_Type srcs = t) (sv_SampleSources sv)") auto


definition ex_retained_level :: level where
  "ex_retained_level = \<lparr>lv_Name = ''workload'', lv_Mask = ex_mask, lv_Operation = SumOperation, lv_Operations = [], lv_NoExport = False,
     lv_HistogramBuckets = [], lv_RetentionName = ''usage'', lv_RetentionExponentialBuckets = []\<rparr>"

definition ex_save :: saveSamplesLocally where
  "ex_save = \<lparr>sv_DirectoryPath = ''/tmp'', sv_TimeFormat = '''', sv_SaveProto = Some True, sv_SaveJSON = None, sv_ExcludeTimestamp = False,
     sv_SortValues = False, sv_SampleSources = []\<rparr>"

definition ex_math :: float_math where
  "ex_math = \<lparr>fm_Pow = (\<lambda>_ _. Fin 1), fm_Log = (\<lambda>_. Fin 0), fm_to_int64 = (\<lambda>_. 0)\<rparr>"


section \<open>A collection is the union of its functions\<close>

lemma omap_simps [simp]:
  "omap f [] = Some []"
  "omap f (x # xs) = (case f x of None \<Rightarrow> None | Some y \<Rightarrow> map_option ((#) y) (omap f xs))"
proof -
  have acc: "ofold (\<lambda>out x. map_option (\<lambda>y. out @ [y]) (f x)) out xs = map_option ((@) out) (omap f xs)" for out xs
  proof (induction xs arbitrary: out)
    case (Cons x xs)
    have "omap f (x # xs) = (case f x of None \<Rightarrow> None | Some y \<Rightarrow> map_option ((@) [y]) (omap f xs))"
      unfolding omap_def [of f "x # xs"] by (cases "f x") (simp_all add: Cons.IH)
    then show ?case by (cases "f x"; cases "omap f xs") (simp_all add: Cons.IH)
  qed (simp add: omap_def)
  show "omap f [] = Some []" by (simp add: omap_def)
  show "omap f (x # xs) = (case f x of None \<Rightarrow> None | Some y \<Rightarrow> map_option ((#) y) (omap f xs))"
    using acc [of "[_]" xs] by (cases "omap f xs") (simp_all add: omap_def [of f "x # xs"] split: option.split)
qed

lemma omap_None_iff: "omap f xs = None \<longleftrightarrow> (\<exists>x \<in> set xs. f x = None)"
  by (induction xs) (auto split: option.splits)

lemma mset_concat_perm: "mset ys = mset xs \<Longrightarrow> mset (concat (map f ys)) = (\<Sum>x \<in># mset xs. mset (f x))"
  by (metis (no_types, lifting) mset_concat mset_map sum_mset_sum_list list.map_comp comp_def map_eq_conv)

lemma omap_Some_iff: "omap f xs = Some ys \<longleftrightarrow> map f xs = map Some ys"
  by (induction xs arbitrary: ys) (auto split: option.splits)

lemma copy_map_lookup: "map_of (copy_map fns) k = map_of (rev fns) k"
proof -
  have "map_of (foldl (\<lambda>m (k, v). AList.update k v m) m fns) k = (case map_of (rev fns) k of None \<Rightarrow> map_of m k | Some v \<Rightarrow> Some v)" for m
    by (induction fns arbitrary: m) (auto simp: map_add_def update_conv' split: option.split)
  then show ?thesis by (simp add: copy_map_def split: option.split)
qed

lemma copy_map_id: "gomap_wf fns \<Longrightarrow> copy_map fns = fns"
  unfolding copy_map_def gomap_wf_def by (induction fns rule: rev_induct) (auto simp: update_new)

definition exported_by :: "'q collectInputs \<Rightarrow> collector \<Rightarrow> 'q capacityObjects \<Rightarrow> string \<times> 'q collectorFunc \<Rightarrow> 'q collected" where
  "exported_by i c ob nf = cr_collected (the (snd nf i c ob))"

lemma collect_union:
  assumes "gomap_wf registry" "listCapacityObjects listed l u = Inr ob"
  shows "collect registry i listed l u sideCars pfx c =
     (case sideCar_gauges pfx (case sideCars of Inl _ \<Rightarrow> [] | Inr cfgs \<Rightarrow> cfgs) of
        None \<Rightarrow> None
      | Some gs \<Rightarrow>
          if \<exists>(n, f) \<in> set registry. f i c ob = None then None
          else Some \<lparr>on_exported = concat (map (\<lambda>nf. co_exported (exported_by i c ob nf)) registry),
                     on_retained = concat (map (\<lambda>nf. co_retained (exported_by i c ob nf)) registry), on_sideCar = gs\<rparr>)"
proof (cases "omap snd (bindCollectorFuncs registry i c ob)")
  case None
  then have "\<exists>(n, f) \<in> set registry. f i c ob = None"
    by (auto simp: omap_None_iff bindCollectorFuncs_def CollectorFuncs_def copy_map_id [OF assms(1)])
  with None show ?thesis by (auto simp: collect_def assms(2) split: option.split)
next
  case (Some rs)
  then have rs: "map (\<lambda>nf. snd nf i c ob) registry = map Some rs"
    by (simp add: omap_Some_iff bindCollectorFuncs_def CollectorFuncs_def copy_map_id [OF assms(1)] comp_def split_beta)
  have "map (\<lambda>nf. the (snd nf i c ob)) registry = map the (map (\<lambda>nf. snd nf i c ob) registry)" by simp
  also have "\<dots> = rs" unfolding rs by (simp add: comp_def)
  finally have "map (\<lambda>nf. the (snd nf i c ob)) registry = rs" .
  moreover have "\<not> (\<exists>(n, f) \<in> set registry. f i c ob = None)"
  proof safe
    fix n f assume "(n, f) \<in> set registry" "f i c ob = None"
    then have "None \<in> set (map (\<lambda>nf. snd nf i c ob) registry)" by force
    then show False unfolding rs by simp
  qed
  ultimately show ?thesis
    using Some by (auto simp: collect_def assms(2) exported_by_def comp_def split: option.split)
qed


definition ex_listed :: "decimal listed" where
  "ex_listed = \<lparr>ls_Pods = [], ls_Nodes = [], ls_Namespaces = [], ls_Quotas = [], ls_RQDs = [], ls_PVCs = [], ls_PVs = [], ls_Samplers = [],
                ls_ClusterScoped = []\<rparr>"

definition ex_inputs :: "decimal collectInputs" where
  "ex_inputs = \<lparr>in_get = (\<lambda>_ _ _. (False, \<lparr>om_Name = '''', om_Namespace = '''', om_UID = '''', om_Labels = [], om_Annotations = [],
                    om_OwnerReferences = [], om_CreationTimestamp = 0, om_DeletionTimestamp = None\<rparr>)),
                  in_unmarshal = (\<lambda>_. None), in_parse = (\<lambda>_. Inl ''''), in_now = 0\<rparr>"

definition ex_sideCar :: sideCarFile where
  "ex_sideCar = \<lparr>sc_Labels = [], sc_SideCarMetrics = [\<lparr>sg_Name = ''m'', sg_Help = '''', sg_LabelNames = [''a''], sg_Values = [([''x''], Fin 1), ([''x''], Fin 2)]\<rparr>]\<rparr>"

lemma ex_run_listing: "listCapacityObjects [None] ex_listed [] = Inr (ex_objects [])"
  by (simp add: listCapacityObjects_def wait_for_def ex_listed_def ex_objects_def index_pods_def index_by_def index_samplers_def)

lemma ex_functions: "\<forall>(n, f) \<in> set (collectorFuncs decimal_ops). f ex_inputs ex_collector (ex_objects []) \<noteq> None"
  by (simp add: collectorFuncs_def ex_objects_def collectContainers_def collectQuota_def collectNodes_def collectPVs_def collectPVCs_def
      collectNamespaces_def collectCGroups_def collectClusterScoped_def finish_def aggregateType_def ByType_def ex_collector_def)

lemma ex_gauges: "sideCar_gauges ''p'' [ex_sideCar]
    = Some [\<lparr>gv_Name = ''p_m'', gv_Help = ''p_m'', gv_LabelNames = [''a''], gv_Values = [([''x''], Fin 2)]\<rparr>]"
  by (simp add: sideCar_gauges_def sideCar_gauge_def ex_sideCar_def Let_def)


end
