(* ===== verification/Metrics_Server.thy ===== *)
theory Metrics_Server
  imports Collection_Run
begin

text \<open>
  The collector process, \<^verbatim>\<open>cmd/metrics-prometheus-collector/cmd/cmd.go\<close>: reading the configuration, leader election, the loop that
  caches the response of the internal endpoint, and the handler that serves the cache; and the transformation of cached
  objects of \<^verbatim>\<open>pkg/collector/cache.go\<close>. The decoders and the election library are arguments or events. A
  callback of the election is one step.
\<close>

section \<open>Reading the configuration\<close>

text \<open>\<^verbatim>\<open>filepath.Ext\<close>: the suffix from the last dot of the last element.\<close>

definition file_ext :: "string \<Rightarrow> string" where
  "file_ext p =
     (let r = takeWhile (\<lambda>c. c \<noteq> CHR ''/'') (rev p)
      in if CHR ''.'' \<in> set r then CHR ''.'' # rev (takeWhile (\<lambda>c. c \<noteq> CHR ''.'') r) else '''')"

datatype readError = ReadError string | ParseError string | InvalidSpec specError

definition ReadCollectorSpec ::
  "string \<Rightarrow> string + string \<Rightarrow> (string \<Rightarrow> string + collectorSpec) \<Rightarrow> (string \<Rightarrow> string + collectorSpec) \<Rightarrow> collectorSpec \<Rightarrow>
   readError + collectorSpec" where
  "ReadCollectorSpec filename contents yaml json spec =
     (case contents of
        Inl err \<Rightarrow> Inl (ReadError err)
      | Inr b \<Rightarrow>
         (let parsed = (if file_ext filename = ''.yaml'' then yaml b
                        else if file_ext filename = ''.json'' then json b
                        else Inr spec)
          in case parsed of
               Inl err \<Rightarrow> Inl (ParseError err)
             | Inr spec \<Rightarrow> (case ValidateCollectorSpecAndApplyDefaults spec of
                              Inl err \<Rightarrow> Inl (InvalidSpec err)
                            | Inr spec \<Rightarrow> Inr spec)))"

section \<open>The cache of objects\<close>

definition KeepAnnotations :: "string list" where
  "KeepAnnotations = [''workload-name'', ''workload-kind'', ''workload-api-group'', ''workload-api-version'', ''kubernetes.io/hostname'',
                      ''kubernetes.io/config.mirror'']"

definition cache_transform :: "string list \<Rightarrow> objectMeta \<Rightarrow> objectMeta" where
  "cache_transform dropAnnotations m =
     (if length dropAnnotations > 0
      then m\<lparr>om_Annotations := foldl (\<lambda>an a. AList.delete a an) (om_Annotations m) dropAnnotations\<rparr> else m)"

section \<open>Serving from the cache\<close>

type_synonym headers = "(string, string list) gomap"

text \<open>\<^verbatim>\<open>canon\<close> is the canonical form of header names.\<close>

definition header_add :: "(string \<Rightarrow> string) \<Rightarrow> string \<Rightarrow> string \<Rightarrow> headers \<Rightarrow> headers" where
  "header_add canon k v h = AList.update (canon k) (gget [] h (canon k) @ [v]) h"

definition header_set :: "(string \<Rightarrow> string) \<Rightarrow> string \<Rightarrow> string \<Rightarrow> headers \<Rightarrow> headers" where
  "header_set canon k v h = AList.update (canon k) [v] h"

record 'm cachedResponse =
  cx_data :: 'm
  cx_headers :: headers

definition serve_headers :: "(string \<Rightarrow> string) \<Rightarrow> strmap \<Rightarrow> headers \<Rightarrow> headers" where
  "serve_headers canon responseHeaders stored =
     foldl (\<lambda>h (k, v). header_set canon k v h)
       (foldl (\<lambda>h (k, vs). foldl (\<lambda>h v. header_add canon k v h) h vs) [] stored) responseHeaders"

definition serveMetricsFromCache ::
  "(string \<Rightarrow> string) \<Rightarrow> strmap \<Rightarrow> 'm cachedResponse option \<Rightarrow> (headers \<times> 'm) option" where
  "serveMetricsFromCache canon responseHeaders stored =
     (case stored of None \<Rightarrow> None | Some cr \<Rightarrow> Some (serve_headers canon responseHeaders (cx_headers cr), cx_data cr))"

section \<open>The process\<close>

record msOptions =
  mo_LeaderElection :: bool
  mo_PodName :: string
  mo_exitAfterLeaderElectionLoss :: bool

text \<open>
  \<^verbatim>\<open>ms_serving\<close>: the goroutines for caching and serving have been started. \<^verbatim>\<open>ms_cycle\<close>: what the caching loop knows during a cycle,
  whether results were served when it began and how many attempts have failed. The data of a response is \<^const>\<open>None\<close> when the
  collection was skipped.
\<close>

record 'm msState =
  ms_leader :: bool
  ms_elected :: bool
  ms_reg :: registerState
  ms_serving :: bool
  ms_cycle :: "(bool \<times> nat) option"
  ms_cached :: "'m option cachedResponse option"
  ms_exited :: bool

abbreviation ms_srv :: "'m msState \<Rightarrow> server" where
  "ms_srv s \<equiv> rs_server (ms_reg s)"

definition ms_init :: "msOptions \<Rightarrow> registerConfig \<Rightarrow> server \<Rightarrow> 'm msState" where
  "ms_init opt rc srv =
     \<lparr>ms_leader = \<not> mo_LeaderElection opt, ms_elected = \<not> mo_LeaderElection opt, ms_reg = fst (register_start rc srv),
      ms_serving = \<not> mo_LeaderElection opt, ms_cycle = None, ms_cached = None, ms_exited = False\<rparr>"

definition set_leader :: "bool \<Rightarrow> 'm msState \<Rightarrow> 'm msState" where
  "set_leader b s = s\<lparr>ms_elected := b, ms_leader := b\<rparr>"

definition OnNewLeader :: "msOptions \<Rightarrow> string \<Rightarrow> 'm msState \<Rightarrow> 'm msState" where
  "OnNewLeader opt current_id s =
     (if current_id = mo_PodName opt then set_leader True s
      else (set_leader False s)\<lparr>ms_exited := ms_exited s \<or> (mo_exitAfterLeaderElectionLoss opt \<and> ms_leader s)\<rparr>)"

definition maxAttempts :: nat where "maxAttempts = 20"

definition cache_fails :: "bool \<times> nat \<Rightarrow> 'm msState \<Rightarrow> 'm msState" where
  "cache_fails rn s =
     (let n = snd rn + 1
      in if n \<ge> maxAttempts then s\<lparr>ms_cycle := None, ms_exited := True\<rparr> else s\<lparr>ms_cycle := Some (fst rn, n)\<rparr>)"

definition cache_succeeds :: "bool \<Rightarrow> headers \<Rightarrow> 'm \<Rightarrow> 'm msState \<Rightarrow> 'm msState" where
  "cache_succeeds metricsReady h m s =
     (let s' = s\<lparr>ms_cached := Some \<lparr>cx_data = (if \<not> ms_leader s \<or> \<not> sv_ServeResults (ms_srv s) then None else Some m), cx_headers = h\<rparr>,
                 ms_cycle := None\<rparr>
      in if metricsReady then s'\<lparr>ms_reg := (ms_reg s)\<lparr>rs_server := (ms_srv s)\<lparr>sv_IsCached := True\<rparr>\<rparr>\<rparr> else s')"

text \<open>The steps of the process: callbacks of the election, registration and push of the other components, and the caching loop.\<close>

inductive ms_step :: "msOptions \<Rightarrow> registerConfig \<Rightarrow> 'm msState \<Rightarrow> 'm msState \<Rightarrow> bool" for opt rc where
  OnStartedLeading: "\<not> ms_exited s \<Longrightarrow> mo_LeaderElection opt \<Longrightarrow> ms_step opt rc s (set_leader True s)"
| OnStoppedLeading: "\<not> ms_exited s \<Longrightarrow> mo_LeaderElection opt \<Longrightarrow> ms_step opt rc s (set_leader False s)"
| NewLeader: "\<not> ms_exited s \<Longrightarrow> mo_LeaderElection opt \<Longrightarrow> ms_step opt rc s (OnNewLeader opt i s)"
| ElectionEnds: "\<not> ms_exited s \<Longrightarrow> mo_LeaderElection opt \<Longrightarrow> ms_step opt rc s (s\<lparr>ms_serving := True\<rparr>)"
| Register: "\<not> ms_exited s \<Longrightarrow> rc_CollectorPodLabels rc \<noteq> [] \<Longrightarrow>
     registerWithSamplers rc now cols ps (GetNodeNames now (ms_srv s)) attempt (ms_reg s) = Some (r, reg) \<Longrightarrow>
     ms_step opt rc s (s\<lparr>ms_reg := reg\<rparr>)"
| RegisterPanics: "\<not> ms_exited s \<Longrightarrow> rc_CollectorPodLabels rc \<noteq> [] \<Longrightarrow>
     registerWithSamplers rc now cols ps (GetNodeNames now (ms_srv s)) attempt (ms_reg s) = None \<Longrightarrow>
     ms_step opt rc s (s\<lparr>ms_exited := True\<rparr>)"
| Push: "\<not> ms_exited s \<Longrightarrow> ms_step opt rc s (s\<lparr>ms_reg := (ms_reg s)\<lparr>rs_server := snd (PushMetrics rs (ms_srv s))\<rparr>\<rparr>)"
| Expire: "\<not> ms_exited s \<Longrightarrow> ms_step opt rc s (s\<lparr>ms_reg := (ms_reg s)\<lparr>rs_server := expireRound now (ms_srv s)\<rparr>\<rparr>)"
| BeginCycle: "\<not> ms_exited s \<Longrightarrow> ms_serving s \<Longrightarrow> ms_cycle s = None \<Longrightarrow>
     ms_step opt rc s (s\<lparr>ms_cycle := Some (sv_ServeResults (ms_srv s), 0)\<rparr>)"
| AttemptFails: "\<not> ms_exited s \<Longrightarrow> ms_cycle s = Some rn \<Longrightarrow> ms_step opt rc s (cache_fails rn s)"
| AttemptSucceeds: "\<not> ms_exited s \<Longrightarrow> ms_cycle s = Some rn \<Longrightarrow> ms_step opt rc s (cache_succeeds (fst rn) h m s)"

inductive_cases ms_stepE: "ms_step opt rc s s'"

inductive ms_reachable :: "msOptions \<Rightarrow> registerConfig \<Rightarrow> server \<Rightarrow> 'm msState \<Rightarrow> bool" for opt rc srv where
  init: "ms_reachable opt rc srv (ms_init opt rc srv)"
| step: "ms_reachable opt rc srv s \<Longrightarrow> ms_step opt rc s s' \<Longrightarrow> ms_reachable opt rc srv s'"

interpretation ms: transition_system "\<lambda>s. s = ms_init opt rc srv" "ms_step opt rc" "ms_reachable opt rc srv" for opt rc srv
  by (rule reachable_by_steps, simp add: ms_reachable.init, fact ms_reachable.step) (erule ms_reachable.induct; blast)

section \<open>Invariants\<close>

definition flags :: "server \<Rightarrow> bool \<times> bool" where
  "flags srv = (sv_ServeResults srv, sv_IsCached srv)"

lemma flags_PushMetrics [simp]: "flags (snd (PushMetrics rs srv)) = flags srv"
  by (induction rs srv rule: PushMetrics.induct) (simp_all add: flags_def CacheMetrics_def)

lemma flags_expireRound [simp]: "flags (expireRound now srv) = flags srv"
proof -
  have "flags (ClearMetrics k srv) = flags srv" for k srv by (simp add: flags_def ClearMetrics_def)
  then have "flags (foldl (\<lambda>s (k, v). if expired now s v then ClearMetrics k s else s) srv xs) = flags srv" for xs
    by (induction xs arbitrary: srv) (simp_all add: split_beta)
  then show ?thesis by (simp add: expireRound_def)
qed

lemma flags_ready_cycle:
  "ready_cycle rc ps rs s = Some s' \<Longrightarrow> sv_IsCached (rs_server s') = sv_IsCached (rs_server s)
     \<and> (sv_ServeResults (rs_server s) \<longrightarrow> sv_ServeResults (rs_server s'))"
  by (auto simp: ready_cycle_def Let_def split: if_splits option.splits)

definition ms_inv :: "msOptions \<Rightarrow> 'm msState \<Rightarrow> bool" where
  "ms_inv opt s \<longleftrightarrow>
     (ms_elected s \<longleftrightarrow> ms_leader s)
     \<and> (\<not> mo_LeaderElection opt \<longrightarrow> ms_leader s)
     \<and> (\<not> ms_serving s \<longrightarrow> ms_cycle s = None \<and> ms_cached s = None)
     \<and> (\<forall>n. ms_cycle s = Some (True, n) \<longrightarrow> sv_ServeResults (ms_srv s))
     \<and> (\<forall>r n. ms_cycle s = Some (r, n) \<longrightarrow> n < maxAttempts)
     \<and> (sv_IsCached (ms_srv s) \<longrightarrow> sv_ServeResults (ms_srv s) \<and> ms_cached s \<noteq> None
          \<and> (\<not> mo_LeaderElection opt \<longrightarrow> (\<exists>m h. ms_cached s = Some \<lparr>cx_data = Some m, cx_headers = h\<rparr>)))"

lemma ms_inv_init: "\<not> sv_IsCached srv \<Longrightarrow> ms_inv opt (ms_init opt rc srv)"
  by (simp add: ms_inv_def ms_init_def register_start_def Let_def)

lemma ms_inv_flags:
  assumes "ms_inv opt s" "sv_IsCached (rs_server reg) = sv_IsCached (ms_srv s)"
    and "sv_ServeResults (ms_srv s) \<Longrightarrow> sv_ServeResults (rs_server reg)"
  shows "ms_inv opt (s\<lparr>ms_reg := reg\<rparr>)"
  using assms by (auto simp: ms_inv_def)

lemma ms_inv_step: "ms_step opt rc s s' \<Longrightarrow> ms_inv opt s \<Longrightarrow> ms_inv opt s'"
proof (induction rule: ms_step.induct)
  case (Register s now cols ps attempt r reg)
  then show ?case
    using registerWithSamplers_cycle flags_ready_cycle by (intro ms_inv_flags) blast+
next
  case (Push s rs)
  then show ?case using flags_PushMetrics [of rs "ms_srv s"] by (intro ms_inv_flags) (auto simp: flags_def)
next
  case (Expire s now)
  then show ?case using flags_expireRound [of now "ms_srv s"] by (intro ms_inv_flags) (auto simp: flags_def)
next
  case (AttemptSucceeds s rn h m)
  then show ?case by (cases rn; cases "fst rn") (auto simp: ms_inv_def cache_succeeds_def Let_def)
qed (auto simp: ms_inv_def set_leader_def OnNewLeader_def cache_fails_def maxAttempts_def Let_def)

lemma ms_inv_reachable: "ms_reachable opt rc srv s \<Longrightarrow> \<not> sv_IsCached srv \<Longrightarrow> ms_inv opt s"
  by (erule ms.invariant) (auto intro: ms_inv_init ms_inv_step)

section \<open>Properties\<close>

text \<open>
  What a ready collector serves is complete: without leader election, in every reachable state in which the readiness check
  succeeds, results are served, and a request for the metrics is answered with a response that contains a collection,
  never with one made while collection was skipped.
\<close>

theorem ready_serves_complete_response:
  assumes "ms_reachable opt rc srv s" "\<not> sv_IsCached srv" "\<not> mo_LeaderElection opt" "IsReady (ms_srv s)"
  shows "sv_ServeResults (ms_srv s)
     \<and> (\<exists>h m. serveMetricsFromCache canon responseHeaders (ms_cached s) = Some (h, Some m))"
  using ms_inv_reachable [OF assms(1,2)] assms(3,4)
  by (auto simp: ms_inv_def IsReady_def serveMetricsFromCache_def split: if_splits)

text \<open>
  With leader election nothing is served while the election goes on: \<^verbatim>\<open>Start\<close> begins to cache and serve responses only
  after the call that runs the election returns, so that until then, also while this instance leads, a request
  gets no metrics and the readiness check fails. The gauge of the leader always agrees with the flag that guards collection.
\<close>

theorem election_blocks_serving:
  assumes "ms_reachable opt rc srv s" "\<not> sv_IsCached srv" "\<not> ms_serving s"
  shows "serveMetricsFromCache canon responseHeaders (ms_cached s) = None \<and> \<not> IsReady (ms_srv s) \<and> (ms_elected s \<longleftrightarrow> ms_leader s)"
  using ms_inv_reachable [OF assms(1,2)] assms(3)
  by (auto simp: ms_inv_def IsReady_def serveMetricsFromCache_def split: if_splits)

text \<open>The attempts of one cycle: \<^const>\<open>None\<close> is a failure.\<close>

fun cache_attempts :: "(headers \<times> 'm) option list \<Rightarrow> 'm msState \<Rightarrow> 'm msState" where
  "cache_attempts [] s = s"
| "cache_attempts (r # rs) s =
     (case ms_cycle s of
        None \<Rightarrow> s
      | Some rn \<Rightarrow> cache_attempts rs (case r of None \<Rightarrow> cache_fails rn s | Some (h, m) \<Rightarrow> cache_succeeds (fst rn) h m s))"

lemma cache_attempts_done [simp]: "ms_cycle s = None \<Longrightarrow> cache_attempts rs s = s"
  by (cases rs) simp_all

lemma ms_cycle_succeeds [simp]: "ms_cycle (cache_succeeds r h m s) = None"
  by (simp add: cache_succeeds_def Let_def)

lemma ms_exited_succeeds [simp]: "ms_exited (cache_succeeds r h m s) = ms_exited s"
  by (simp add: cache_succeeds_def Let_def)

lemma cache_attempts_from:
  assumes "ms_cycle s = Some (r, n)" "n < maxAttempts" "\<not> ms_exited s" "maxAttempts - n \<le> length rs"
  shows "ms_cycle (cache_attempts rs s) = None
     \<and> (ms_exited (cache_attempts rs s) \<longleftrightarrow> list_all (\<lambda>x. x = None) (take (maxAttempts - n) rs))"
  using assms
proof (induction rs arbitrary: s n)
  case (Cons x rs)
  obtain k where k: "maxAttempts - n = Suc k" using Cons.prems(2) by (metis Suc_diff_Suc)
  show ?case
  proof (cases x)
    case None
    show ?thesis
    proof (cases "k = 0")
      case True
      with k Cons.prems(2) have "n + 1 = maxAttempts" by simp
      with None k True Cons.prems(1) show ?thesis by (simp add: cache_fails_def)
    next
      case False
      with k have n: "\<not> maxAttempts \<le> n + 1" "maxAttempts - (n + 1) = k" by simp_all
      let ?s = "s\<lparr>ms_cycle := Some (r, n + 1)\<rparr>"
      have "cache_fails (r, n) s = ?s" using n(1) by (simp add: cache_fails_def)
      moreover have "k \<le> length rs" using Cons.prems(4) k by simp
      ultimately show ?thesis using Cons.IH [of ?s "n + 1"] Cons.prems n None k by simp
    qed
  next
    case (Some hm)
    then show ?thesis using Cons.prems k by (cases hm) simp
  qed
qed simp


definition ex_options :: "bool \<Rightarrow> msOptions" where
  "ex_options le = \<lparr>mo_LeaderElection = le, mo_PodName = ''p'', mo_exitAfterLeaderElectionLoss = True\<rparr>"

definition ex_process :: "bool \<Rightarrow> string msState" where
  "ex_process le = ms_init (ex_options le) (ex_register 0) ex_server"

lemma ex_process_sel [simp]:
  "\<not> ms_exited (ex_process le)" "ms_serving (ex_process le) = (\<not> le)" "ms_cycle (ex_process le) = None"
  "sv_ServeResults (ms_srv (ex_process le))" "sv_IsReadyResult (ms_srv (ex_process le))" "ms_leader (ex_process le) = (\<not> le)"
  by (simp_all add: ex_process_def ms_init_def ex_options_def register_start_def ex_register_def Let_def)

lemma ex_process_reachable: "ms_reachable (ex_options le) (ex_register 0) ex_server (ex_process le)"
  unfolding ex_process_def by (rule ms_reachable.init)

theorem ready_serves_complete_response_witness:
  "\<exists>s h m. IsReady (ms_srv s) \<and> ms_reachable (ex_options False) (ex_register 0) ex_server s
     \<and> serveMetricsFromCache (\<lambda>k. k) [] (ms_cached s) = Some (h, Some m) \<and> m = ''metrics''"
proof -
  let ?s1 = "(ex_process False)\<lparr>ms_cycle := Some (True, 0)\<rparr>" let ?s2 = "cache_succeeds True [] ''metrics'' ?s1"
  have r1: "ms_reachable (ex_options False) (ex_register 0) ex_server ?s1"
    using ms_step.BeginCycle [of "ex_process False"] by (intro ms_reachable.step [OF ex_process_reachable]) auto
  have r2: "ms_reachable (ex_options False) (ex_register 0) ex_server ?s2"
    using ms_step.AttemptSucceeds [of ?s1 "(True, 0)"] by (intro ms_reachable.step [OF r1]) auto
  have ready: "IsReady (ms_srv ?s2)" by (simp add: IsReady_def cache_succeeds_def)
  from ready_serves_complete_response [OF r2 _ _ ready, of "\<lambda>k. k" "[]"] ready r2 show ?thesis
    by (intro exI [of _ ?s2]) (auto simp: ex_server_def ex_options_def cache_succeeds_def serveMetricsFromCache_def)
qed

theorem election_blocks_serving_witness:
  "ms_leader (set_leader True (ex_process True)) \<and> \<not> IsReady (ms_srv (set_leader True (ex_process True)))"
proof -
  have "ms_reachable (ex_options True) (ex_register 0) ex_server (set_leader True (ex_process True))"
    using ms_step.OnStartedLeading [of "ex_process True" "ex_options True"]
    by (intro ms_reachable.step [OF ex_process_reachable]) (auto simp: ex_options_def)
  from election_blocks_serving [OF this] show ?thesis by (simp add: set_leader_def ex_server_def)
qed


section \<open>Headers and annotations\<close>

text \<open>A configured header replaces whatever the cached response has for it.\<close>

lemma header_set_other: "map_of (header_set canon k v h) k' = (if k' = canon k then Some [v] else map_of h k')"
  by (simp add: header_set_def)

theorem configured_headers_win:
  assumes "gomap_wf responseHeaders" "inj_on canon (fst ` set responseHeaders)" "(k, v) \<in> set responseHeaders"
  shows "map_of (serve_headers canon responseHeaders h) (canon k) = Some [v]"
proof -
  have "map_of (foldl (\<lambda>h (k, v). header_set canon k v h) h hs) (canon k) = Some [v]"
    if "gomap_wf hs" "inj_on canon (fst ` set hs)" "(k, v) \<in> set hs" for hs and h
    using that
  proof (induction hs arbitrary: h rule: rev_induct)
    case (snoc kv hs)
    show ?case
    proof (cases "kv = (k, v)")
      case True
      then show ?thesis by (simp add: header_set_other)
    next
      case False
      with snoc.prems(3) have kv: "(k, v) \<in> set hs" by simp
      then have "k \<noteq> fst kv" using snoc.prems(1) by (auto simp: gomap_wf_def image_iff)
      moreover have "k \<in> fst ` set (hs @ [kv])" "fst kv \<in> fst ` set (hs @ [kv])" using kv by force+
      ultimately have "canon k \<noteq> canon (fst kv)" using snoc.prems(2) by (meson inj_onD)
      moreover have "gomap_wf hs" "inj_on canon (fst ` set hs)"
        using snoc.prems(1,2) by (auto simp: gomap_wf_def intro: inj_on_subset)
      ultimately show ?thesis using snoc.IH [OF _ _ kv] by (simp add: header_set_other split_beta)
    qed
  qed simp
  with assms show ?thesis by (simp add: serve_headers_def)
qed

theorem cache_keeps_other_annotations:
  "map_of (om_Annotations (cache_transform dropped m)) k = (if k \<in> set dropped then None else map_of (om_Annotations m) k)"
proof -
  have "map_of (foldl (\<lambda>an a. AList.delete a an) an ds) k = (if k \<in> set ds then None else map_of an k)" for an :: strmap and ds
    by (induction ds arbitrary: an) (auto simp: delete_conv')
  then show ?thesis by (auto simp: cache_transform_def)
qed

end
