(* ===== verification/Collection_Safety.thy ===== *)
theory Collection_Safety
  imports Collection_Run
begin

text \<open>
  From the configuration to the collected metrics: \<^verbatim>\<open>NewCollector\<close> of \<^verbatim>\<open>pkg/collector/collector.go\<close>, and that a
  collector it returns never panics while it collects persistent volumes, claims, nodes, namespaces, containers and pods,
  whatever the objects are. The bound on the number of values, 2 to the 40th, is the one up to which the
  floating point index of a percentile is known to be exact.
\<close>

section \<open>A new collector\<close>

definition server_zero :: server where
  "server_zero =
     \<lparr>sv_Responses = [], sv_ttl = 0, sv_expireFreq = 0, sv_ServeResults = False, sv_IsReadyResult = False, sv_IsCached = False,
      sv_IsHealthyResult = False\<rparr>"

text \<open>
  \<^verbatim>\<open>base\<close> has the parts of the configuration that neither the defaults nor the validation touch. The result is the
  collector, its utilization server and whether it leads. That the directory for samples cannot be created is only
  logged.
\<close>

definition NewCollector ::
  "sideCarFs \<Rightarrow> string list \<Rightarrow> string \<Rightarrow> gotime \<Rightarrow> collector \<Rightarrow> collectorSpec \<Rightarrow> initError + collector \<times> server \<times> bool" where
  "NewCollector fs sideCarPaths tempDir now base spec =
     (case collector_init tempDir (map_sum id (map sideCarConfig.truncate) (getSideCarConfigs fs sideCarPaths)) spec of
        Inl err \<Rightarrow> Inl err
      | Inr (cf, scs, st) \<Rightarrow>
          Inr (base\<lparr>cl_state := st,
                    cl_Labeler := (cl_Labeler base)\<lparr>lb_Extension := \<lparr>xl_Extensions = cf_Extensions cf, xl_SideCar = scs\<rparr>\<rparr>,
                    cl_Resources := cf_Resources cf, cl_Aggregations := cf_Aggregations cf, cl_Save := cf_SaveSamplesLocally cf,
                    cl_EnableResourceQuotaDescriptor := cf_EnableResourceQuotaDescriptor cf,
                    cl_SchedulerHealth := cf_SchedulerHealth cf, cl_CGroupSources := cf_CGroupSources cf,
                    cl_CGroupRoot := cf_CGroupRoot cf, cl_startTime := now\<rparr>,
               server_zero, False))"

section \<open>Masks that are ready\<close>

definition mask_ready :: "labelState \<Rightarrow> labelsMask \<Rightarrow> bool" where
  "mask_ready st mk \<longleftrightarrow> (\<exists>im. map_of (ci_maskById st) (lm_ID mk) = Some im \<and> extensionMask_wf im)"

definition collector_ok :: "collector \<Rightarrow> bool" where
  "collector_ok c \<longleftrightarrow>
     (\<forall>a \<in> set (cl_Aggregations c). \<forall>l \<in> set (ag_Levels a). mask_ready (cl_state c) (lv_Mask l))
     \<and> (\<forall>sv. cl_Save c = Some sv \<longrightarrow> (\<forall>s \<in> set (sv_SampleSources sv). mask_ready (cl_state c) (snd s)))"

lemma NewCollector_ok:
  assumes "NewCollector fs paths tempDir now base spec = Inr (c, srv, leader)"
  shows "collector_ok c" "\<not> leader" "\<not> sv_IsCached srv" "\<not> sv_ServeResults srv" "\<not> sv_IsHealthyResult srv"
proof -
  obtain files cf scs st where f: "getSideCarConfigs fs paths = Inr files"
    and i: "collector_init tempDir (Inr (map sideCarConfig.truncate files)) spec = Inr (cf, scs, st)"
    and c: "cl_state c = st" "cl_Aggregations c = cf_Aggregations cf" "cl_Save c = cf_SaveSamplesLocally cf"
    and r: "\<not> leader" "srv = server_zero"
    using assms
    by (cases "getSideCarConfigs fs paths") (auto simp: NewCollector_def collector_init_def split: sum.splits)
  show "\<not> leader" "\<not> sv_IsCached srv" "\<not> sv_ServeResults srv" "\<not> sv_IsHealthyResult srv" by (simp_all add: r server_zero_def)
  have "mask_ready st mk" if "mk \<in> set (level_masks cf @ saved_masks cf)" for mk
    using initLabels_lookup [OF collector_init_labels [OF i, THEN conjunct1] that] by (auto simp: mask_ready_def)
  then show "collector_ok c"
    by (fastforce simp: collector_ok_def c level_masks_def saved_masks_def)
qed

section \<open>Filed metrics\<close>

text \<open>All keys of the metrics are among some labels, and no series has more than a number of values.\<close>

definition metrics_in :: "LabelsValues set \<Rightarrow> nat \<Rightarrow> 'q metrics \<Rightarrow> bool" where
  "metrics_in L B ms \<longleftrightarrow>
     (\<forall>m \<in> snd ` set ms. gomap_wf (mt_Values m) \<and> (\<forall>e \<in> set (mt_Values m). fst e \<in> L \<and> length (snd e) \<le> B))"

lemma metrics_in_Nil [simp]: "metrics_in L B []"
  by (simp add: metrics_in_def)

lemma set_update_subset: "set (AList.update k v m) \<subseteq> insert (k, v) (set m)"
  by (induction m) auto

lemma metrics_in_put [simp]:
  assumes "metrics_in L B ms" "l \<in> L" "length qs \<le> B"
  shows "metrics_in L B (put_metric name l qs ms)"
proof -
  define m where "m = (case map_of ms name of Some m \<Rightarrow> m | None \<Rightarrow> \<lparr>mt_Mask = zeroMask, mt_Name = name, mt_Buckets = [], mt_Values = []\<rparr>)"
  define m' where "m' = m\<lparr>mt_Values := AList.update l qs (mt_Values m)\<rparr>"
  have m: "gomap_wf (mt_Values m)" "\<forall>e \<in> set (mt_Values m). fst e \<in> L \<and> length (snd e) \<le> B"
    using assms(1) map_of_SomeD [of ms name] by (cases "map_of ms name"; force simp: m_def metrics_in_def)+
  have "\<forall>e \<in> insert (l, qs) (set (mt_Values m)). fst e \<in> L \<and> length (snd e) \<le> B" using m(2) assms(2,3) by simp
  with m(1) have "gomap_wf (mt_Values m')" "\<forall>e \<in> set (mt_Values m'). fst e \<in> L \<and> length (snd e) \<le> B"
    using set_update_subset [of l qs "mt_Values m"] by (auto simp: m'_def)
  moreover have "snd ` set (put_metric name l qs ms) \<subseteq> insert m' (snd ` set ms)"
    using set_update_subset [of name m' ms] by (force simp: put_metric_def Let_def m_def [symmetric] m'_def [symmetric])
  ultimately show ?thesis using assms(1) unfolding metrics_in_def by blast
qed

lemma metrics_in_ok:
  assumes "metrics_in L B ms" "finite L" "card L * B \<le> 2 ^ 40" "\<forall>k \<in> L. labels_wf k" "m \<in> snd ` set ms"
  shows "metric_ok m"
proof -
  have m: "gomap_wf (mt_Values m)" "\<forall>e \<in> set (mt_Values m). fst e \<in> L \<and> length (snd e) \<le> B"
    using assms(1,5) by (auto simp: metrics_in_def)
  have "length (mt_Values m) = card (fst ` set (mt_Values m))"
    using m(1) distinct_card [of "map fst (mt_Values m)"] by (simp add: gomap_wf_def)
  also have "\<dots> \<le> card L" using m(2) assms(2) by (intro card_mono) auto
  finally have "length (mt_Values m) \<le> card L" .
  moreover have "metric_size m \<le> length (mt_Values m) * B"
    using m(2) sum_list_mono [of "mt_Values m" "\<lambda>e. length (snd e)" "\<lambda>_. B"] by (simp add: metric_size_sum sum_list_triv)
  ultimately have "metric_size m \<le> card L * B" by (meson le_trans mult_le_mono1)
  with assms(3,4) m(2) show ?thesis by (auto simp: metric_ok_def keys_wf_def list_all_iff)
qed

section \<open>Saved samples\<close>

definition builder_ok :: "collector \<Rightarrow> sampleListBuilder option \<Rightarrow> bool" where
  "builder_ok c sb \<longleftrightarrow> (\<forall>b. sb = Some b \<longrightarrow> mask_ready (cl_state c) (sb_Mask b))"

lemma builder_ok_None [simp]: "builder_ok c None"
  by (simp add: builder_ok_def)

lemma builder_ok_add [simp]: "builder_ok c (add_values s m sb) \<longleftrightarrow> builder_ok c sb"
  by (auto simp: builder_ok_def add_values_def split: option.split)

lemma builder_ok_adds [simp]:
  "builder_ok c (AddQuantityValues Q s r src qs sb) \<longleftrightarrow> builder_ok c sb" "builder_ok c (AddIntValues s r src ns sb) \<longleftrightarrow> builder_ok c sb"
  by (simp_all add: AddQuantityValues_def AddIntValues_def)

lemma NewSample_ok:
  assumes "builder_ok c sb" "labels_wf l"
  shows "\<exists>s sb'. NewSample (cl_state c) l sb = Some (s, sb') \<and> builder_ok c sb'"
proof (cases sb)
  case (Some b)
  then obtain im where im: "map_of (ci_maskById (cl_state c)) (lm_ID (sb_Mask b)) = Some im" "extensionMask_wf im"
    using assms(1) by (auto simp: builder_ok_def mask_ready_def)
  then show ?thesis
    using Some assms length_values_with [of "(sb_Mask b, im)" l] with_lookup [OF im(1)]
    by (simp add: NewSample_def builder_ok_def add_item_def mask_ready_def)
qed (simp add: NewSample_def)

lemma NewSampleListBuilder_ok: "collector_ok c \<Longrightarrow> builder_ok c (NewSampleListBuilder (cl_Save c) now t)"
  by (fastforce simp: collector_ok_def builder_ok_def NewSampleListBuilder_def newSampleListBuilder_def Let_def
      split: option.splits dest!: find_SomeD)

section \<open>Aggregating what is filed\<close>

lemma aggregateType_total:
  assumes "collector_ok c" "metrics_in L B ms" "finite L" "card L * B \<le> 2 ^ 40" "\<forall>k \<in> L. labels_wf k"
  shows "\<exists>out. aggregateType Q c t ms = Some out"
proof -
  have lv: "\<exists>im. map_of (ci_maskById (cl_state c)) (lm_ID (lv_Mask l)) = Some im \<and> extensionMask_wf im"
    if "a \<in> set (cl_Aggregations c)" "l \<in> set (ag_Levels a)" for a l
    using assms(1) that by (auto simp: collector_ok_def mask_ready_def)
  have "\<exists>out'. AggregateAndCollect Q (cl_state c) (cl_env c) a ms = Some out'" if "a \<in> set (cl_Aggregations c)" for a
  proof -
    have "\<exists>out'. aggregateLevels Q (cl_state c) (cl_env c) a name m out (ag_Levels a) = Some out'" if "(name, m) \<in> set ms" for name m out
      using metrics_in_ok [OF assms(2-5)] that lv [OF \<open>a \<in> _\<close>] by (intro aggregateLevels_total) force+
    then show ?thesis
      using ofold_not_None [of "filter (\<lambda>(k, v). mn_Source k \<in> set (GetSources (ag_Sources a))) ms" "\<lambda>_. True"
          "\<lambda>out (name, m). aggregateLevels Q (cl_state c) (cl_env c) a name m out (ag_Levels a)"]
      unfolding AggregateAndCollect_def by auto
  qed
  then show ?thesis
    using ofold_not_None [of "ByType (cl_Aggregations c) t" "\<lambda>_. True"
        "\<lambda>out a. map_option (\<lambda>o'. \<lparr>co_exported = co_exported out @ co_exported o', co_retained = co_retained out @ co_retained o'\<rparr>)
              (AggregateAndCollect Q (cl_state c) (cl_env c) a ms)"]
    unfolding aggregateType_def by (force simp: ByType_def)
qed

definition filed :: "collector \<Rightarrow> LabelsValues set \<Rightarrow> nat \<Rightarrow> 'q metrics \<times> sampleListBuilder option \<Rightarrow> bool" where
  "filed c L B st \<longleftrightarrow> metrics_in L B (fst st) \<and> builder_ok c (snd st)"

text \<open>The values of a reader that have at most a number of quantities for each resource.\<close>

definition values_le :: "nat \<Rightarrow> (source, 'q sourceValue) gomap \<Rightarrow> bool" where
  "values_le B vs \<longleftrightarrow> (\<forall>v \<in> snd ` set vs. \<forall>r qs. value_for v r = Some qs \<longrightarrow> length qs \<le> B)"

lemma filed_add_resource:
  assumes "filed c L B st" "l \<in> L" "\<forall>r qs. value_for v r = Some qs \<longrightarrow> length qs \<le> B"
  shows "filed c L B (add_resource Q l t s src v st ra)"
  using assms by (cases st; cases ra) (auto simp: filed_def add_resource_def split: option.split)

lemma filed_fold: "(\<And>s x. x \<in> set xs \<Longrightarrow> P s \<Longrightarrow> P (f s x)) \<Longrightarrow> P s \<Longrightarrow> P (foldl f s xs)"
  by (induction xs arbitrary: s) auto

lemma filed_resources:
  assumes "l \<in> L" "\<forall>r qs. value_for v r = Some qs \<longrightarrow> length qs \<le> B"
  shows "filed c L B st \<Longrightarrow> filed c L B (foldl (add_resource Q l t s src v) st rs)"
  by (induction rs arbitrary: st) (simp_all add: filed_add_resource assms)

lemma addValues_filed:
  fixes Q :: "('q, 'd) quantity_ops"
  assumes "filed c L B st" "l \<in> L" "labels_wf l" "values_le B vs"
  shows "\<exists>st'. addValuesToMetrics Q c vs l t st = Some st' \<and> filed c L B st'"
proof -
  obtain s sb where n: "NewSample (cl_state c) l (snd st) = Some (s, sb)" "builder_ok c sb"
    using NewSample_ok [of c "snd st" l] assms(1,3) by (auto simp: filed_def)
  have "filed c L B (foldl (\<lambda>st (src, v). foldl (add_resource Q l t s src v) st (cl_Resources c)) (fst st, sb) vs)"
  proof (rule filed_fold)
    show "filed c L B (fst st, sb)" using assms(1) n(2) by (simp add: filed_def)
    fix st' :: "'q metrics \<times> sampleListBuilder option" and x
    assume "x \<in> set vs" "filed c L B st'"
    moreover from this(1) have "\<forall>r qs. value_for (snd x) r = Some qs \<longrightarrow> length qs \<le> B" using assms(4) by (auto simp: values_le_def)
    ultimately show "filed c L B (case x of (src, v) \<Rightarrow> foldl (add_resource Q l t s src v) st' (cl_Resources c))"
      using assms(2) by (simp add: filed_resources split_beta)
  qed
  then show ?thesis by (simp add: addValuesToMetrics_def n)
qed

lemma finish_total:
  assumes "collector_ok c" "filed c L B st" "finite L" "card L * B \<le> 2 ^ 40" "\<forall>k \<in> L. labels_wf k"
  shows "finish Q c t results st \<noteq> None"
  using aggregateType_total [OF assms(1) _ assms(3-5), of "fst st" Q t] assms(2) by (auto simp: filed_def finish_def)

text \<open>Collecting a list of objects, each of them under labels of its own.\<close>

lemma collect_objects_total:
  assumes "collector_ok c" "builder_ok c sb" "\<And>x. x \<in> set xs \<Longrightarrow> labels_wf (lab x)" "\<And>x. x \<in> set xs \<Longrightarrow> values_le B (vals x)"
    and "length xs * B \<le> 2 ^ 40"
  shows "do { st \<leftarrow> ofold (\<lambda>st x. addValuesToMetrics Q c (vals x) (lab x) t st) ([], sb) xs; finish Q c t results st } \<noteq> None"
proof -
  let ?L = "lab ` set xs"
  have "\<exists>st. ofold (\<lambda>st x. addValuesToMetrics Q c (vals x) (lab x) t st) ([], sb) xs = Some st \<and> filed c ?L B st"
    using assms(2-4) by (intro ofold_not_None addValues_filed) (simp_all add: filed_def)
  moreover have "card ?L * B \<le> 2 ^ 40"
    by (rule order_trans [OF mult_le_mono1 assms(5)]) (metis card_image_le card_length finite_set le_trans)
  ultimately show ?thesis using finish_total [OF assms(1), of ?L B _ Q t results] assms(3) by auto
qed

lemma single_value: "vl_MultiResourceList v = None \<Longrightarrow> value_for v r = Some qs \<Longrightarrow> length qs \<le> 1"
  by (auto simp: value_for_def split: option.splits)

lemma values_le_1: "list_all (\<lambda>(_, v). vl_MultiResourceList v = None) vs \<Longrightarrow> values_le 1 vs"
  by (force simp: values_le_def list_all_iff dest: single_value)

lemma single_sel [simp]: "vl_MultiResourceList (list_value rl lvl src) = None" "vl_MultiResourceList (items_value Q lvl src) = None"
  by (simp_all add: list_value_def items_value_def)

lemma single_readers:
  "values_le 1 (GetValuesForPV Q pv)" "values_le 1 (GetValuesForPVC Q pvc)" "values_le 1 (GetValuesForNode Q node pods)"
  "values_le 1 (GetValuesForPod Q pod)" "values_le 1 (GetValuesForSchedulerHealth Q now pod sh)"
  by (rule values_le_1; simp add: GetValuesForPV_def GetValuesForPVC_def GetValuesForNode_def GetValuesForPod_def
      GetValuesForSchedulerHealth_def Let_def split: prod.split option.split)+

section \<open>Containers\<close>

definition usage_le :: "nat \<Rightarrow> containerMetrics \<Rightarrow> bool" where
  "usage_le B u \<longleftrightarrow>
     length (us_CpuCoresNanoSec u) \<le> B \<and> length (us_MemoryBytes u) \<le> B \<and> length (us_CpuPeriodsSec u) \<le> B
     \<and> length (us_CpuThrottledPeriodsSec u) \<le> B \<and> (\<forall>r. length (network_samples u r) \<le> B)"

definition val_le :: "nat \<Rightarrow> 'q sourceValue \<Rightarrow> bool" where
  "val_le B v \<longleftrightarrow> (\<forall>r qs. value_for v r = Some qs \<longrightarrow> length qs \<le> B)"

lemma values_le_simps [simp]:
  "values_le B []" "values_le B ((k, v) # vs) \<longleftrightarrow> val_le B v \<and> values_le B vs"
  by (auto simp: values_le_def val_le_def)

lemma values_le_update [simp]: "values_le B vs \<Longrightarrow> val_le B v \<Longrightarrow> values_le B (AList.update k v vs)"
  by (induction vs) auto

lemma val_le_single: "vl_MultiResourceList v = None \<Longrightarrow> 1 \<le> B \<Longrightarrow> val_le B v"
  unfolding val_le_def using single_value by (metis le_trans)

definition lists_le :: "nat \<Rightarrow> (string, 'q list) gomap \<Rightarrow> bool" where
  "lists_le B m \<longleftrightarrow> list_all (\<lambda>(_, qs). length qs \<le> B) m"

lemma lists_le_update [simp]: "lists_le B m \<Longrightarrow> length qs \<le> B \<Longrightarrow> lists_le B (AList.update k qs m)"
  by (induction m) (auto simp: lists_le_def)

lemma val_le_multi: "lists_le B m \<Longrightarrow> val_le B (multi_value m src)"
  by (auto simp: val_le_def value_for_def multi_value_def lists_le_def list_all_iff dest: map_of_SomeD)

lemma length_reported: "length (reported_samples pod xs) \<le> length xs"
proof -
  have "strip_zeros xs n \<le> n" for n by (induction n) auto
  then show ?thesis by (simp add: reported_samples_def Let_def)
qed

lemma val_le_createValue: "length xs \<le> B \<Longrightarrow> val_le B (createValue Q pod xs src r)"
  using length_reported [of pod xs] by (auto simp: val_le_def value_for_def createValue_def Let_def split: if_splits)

lemma lists_le_utilization:
  assumes "usage_le B u"
  shows "lists_le B (fst (utilization_lists Q pod req u)) \<and> lists_le B (snd (utilization_lists Q pod req u))"
proof -
  have r: "length (reported_samples pod (us_CpuCoresNanoSec u)) \<le> B" "length (reported_samples pod (us_MemoryBytes u)) \<le> B"
    using assms le_trans [OF length_reported [of pod "us_CpuCoresNanoSec u"], of B]
      le_trans [OF length_reported [of pod "us_MemoryBytes u"], of B] by (simp_all add: usage_le_def)
  have n: "lists_le B (foldl (\<lambda>m r. if length (network_samples u r) = 0 then m
                 else AList.update r (map (qo_NewQuantity Q) (network_samples u r)) m) m rs)" if "lists_le B m" for m rs
    using assms that by (intro filed_fold [where P = "lists_le B"]) (auto simp: usage_le_def)
  have c: "lists_le B (if b then AList.update k qs m else m)" if "lists_le B m" "length qs \<le> B" for b k qs m
    using that by simp
  have e: "lists_le B []" by (simp add: lists_le_def)
  show ?thesis
    unfolding utilization_lists_def Let_def fst_conv snd_conv
    by (intro conjI n c e) (simp_all add: r)
qed

lemma values_le_container:
  fixes Q :: "('q, 'd) quantity_ops"
  assumes "1 \<le> B" "\<And>u. usage = Some u \<Longrightarrow> usage_le B u"
  shows "values_le B (GetValuesForContainer Q container pod usage)"
proof -
  have s: "val_le B (list_value rl lvl src)" "val_le B (items_value Q lvl src)" for rl :: "'q resourceList" and lvl src
    using assms(1) by (simp_all add: val_le_single)
  have m: "val_le B (multi_value (fst (utilization_lists Q pod req u)) src)
      \<and> val_le B (multi_value (snd (utilization_lists Q pod req u)) src)"
    if "usage = Some u" for req u src
    using lists_le_utilization [OF assms(2) [OF that]] by (blast intro: val_le_multi)
  have p: "val_le B (createValue Q pod (us_CpuPeriodsSec u) src r)
      \<and> val_le B (createValue Q pod (us_CpuThrottledPeriodsSec u) src r)"
    if "usage = Some u" for u src r
    using assms(2) [OF that] by (simp add: usage_le_def val_le_createValue)
  have c: "values_le B (if b then x else y)" if "values_le B x" "values_le B y" for b and x y :: "(source, 'q sourceValue) gomap"
    using that by simp
  have z: "values_le B [(k, items_value Q lvl src)]" for k lvl src by (simp add: s)
  show ?thesis
  proof (cases usage)
    case None
    then show ?thesis by (simp add: GetValuesForContainer_def Let_def s)
  next
    case (Some u)
    note vals = z s m [OF Some, THEN conjunct1] m [OF Some, THEN conjunct2] p [OF Some, THEN conjunct1] p [OF Some, THEN conjunct2]
    show ?thesis
      unfolding GetValuesForContainer_def Let_def split_beta Some option.case by (intro c values_le_update vals)
  qed
qed

definition usages_le :: "nat \<Rightarrow> (ContainerKey, containerMetrics) gomap \<Rightarrow> bool" where
  "usages_le B m \<longleftrightarrow> (\<forall>u \<in> snd ` set m. usage_le B u)"

lemma usages_le_update: "usages_le B m \<Longrightarrow> usage_le B u \<Longrightarrow> usages_le B (AList.update k u m)"
  using set_update_subset [of k u m] by (auto simp: usages_le_def)

lemma usages_le_lookup: "usages_le B m \<Longrightarrow> map_of m k = Some u \<Longrightarrow> usage_le B u"
  by (force simp: usages_le_def dest: map_of_SomeD)

lemma usage_le_restrict: "usage_le B u \<Longrightarrow> usage_le B (restrictUsage Q c x u)"
  by (auto simp: usage_le_def restrictUsage_def Let_def clamp_def network_samples_def)

lemma usages_le_summary:
  assumes "\<And>n r u. (n, r) \<in> set ms \<Longrightarrow> u \<in> set (lr_Containers r) \<Longrightarrow> usage_le B u"
  shows "usages_le B (GetContainerUsageSummary ms)"
proof -
  have n: "usage_le B (u\<lparr>us_NodeName := n\<rparr>) \<longleftrightarrow> usage_le B u" for u n by (simp add: usage_le_def network_samples_def)
  have "usage_le B u" if "(k, u) \<in> set (usage_entries ms)" for k u
    using that assms by (fastforce simp: usage_entries_def List.map_filter_def n)
  then show ?thesis
    unfolding GetContainerUsageSummary_entries
    by (intro filed_fold [where P = "usages_le B"]) (auto simp: usages_le_def [of _ "[]"] intro: usages_le_update)
qed

lemma find_usage_le: "usages_le B m \<Longrightarrow> find_usage m pod ids uid x = Some (k, u) \<Longrightarrow> usage_le B u"
  by (auto simp: find_usage_def Let_def split: option.splits intro: usages_le_lookup)

lemma container_usage_le:
  assumes "usages_le B (ks_utilization st)" "container_usage Q now c ob pod st x = (usage, st')"
  shows "usages_le B (ks_utilization st') \<and> (\<forall>u. usage = Some u \<longrightarrow> usage_le B u)
    \<and> ks_container st' = ks_container st \<and> ks_pod st' = ks_pod st \<and> ks_scheduler st' = ks_scheduler st"
proof -
  obtain ids uid sts where g: "getContainerNameToID pod = (ids, uid, sts)" by (cases "getContainerNameToID pod") auto
  show ?thesis
  proof (cases "find_usage (ks_utilization st) pod ids uid x")
    case (Some ku)
    then obtain k u where "find_usage (ks_utilization st) pod ids uid x = Some (k, u)" by (cases ku) auto
    moreover from find_usage_le [OF assms(1) this] have "usage_le B (restrictUsage Q c x u)" by (rule usage_le_restrict)
    ultimately show ?thesis using assms by (auto simp: container_usage_def g Let_def split_beta usages_le_update)
  qed (use assms in \<open>auto simp: container_usage_def g Let_def split_beta split: if_splits\<close>)
qed

text \<open>The state of the loop over pods: what is filed so far, and the usage that is still to be looked up.\<close>

definition pods_ok :: "collector \<Rightarrow> LabelsValues set \<Rightarrow> nat \<Rightarrow> 'q containerState \<Rightarrow> bool" where
  "pods_ok c L B st \<longleftrightarrow>
     usages_le B (ks_utilization st) \<and> filed c L B (ks_container st) \<and> filed c L B (ks_pod st) \<and> filed c L B (ks_scheduler st)"

lemma collect_container_total:
  assumes "pods_ok c L B st" "1 \<le> B" "container_labels l pod x \<in> L" "\<forall>k \<in> L. labels_wf k"
  shows "\<exists>st'. collect_container Q now c ob pod l st x = Some st' \<and> pods_ok c L B st'"
proof -
  obtain usage st1 where u: "container_usage Q now c ob pod st x = (usage, st1)" by fastforce
  have k: "usages_le B (ks_utilization st1)" "filed c L B (ks_container st1)" "filed c L B (ks_pod st1)" "filed c L B (ks_scheduler st1)"
    using container_usage_le [OF _ u] assms(1) by (auto simp: pods_ok_def)
  have "values_le B (GetValuesForContainer Q x pod usage)"
    using container_usage_le [OF _ u] assms(1) by (intro values_le_container assms(2)) (simp add: pods_ok_def)
  then obtain ms where "addValuesToMetrics Q c (GetValuesForContainer Q x pod usage) (container_labels l pod x) ContainerType (ks_container st1)
      = Some ms" "filed c L B ms"
    using addValues_filed [OF k(2) assms(3)] assms(3,4) by blast
  then show ?thesis using k by (simp add: collect_container_def u pods_ok_def)
qed

lemma values_le_mono: "values_le A vs \<Longrightarrow> A \<le> B \<Longrightarrow> values_le B vs"
  by (fastforce simp: values_le_def)

lemma collect_pod_total:
  assumes "pods_ok c L B st" "1 \<le> B" "pod_labels get c ob pod \<in> L" "\<forall>k \<in> L. labels_wf k"
    and "\<And>x. x \<in> set (pd_Containers pod) \<Longrightarrow> container_labels (pod_labels get c ob pod) pod x \<in> L"
  shows "\<exists>st'. collect_pod Q get now c ob st pod = Some st' \<and> pods_ok c L B st'"
proof -
  let ?l = "pod_labels get c ob pod"
  obtain ps where ps: "addValuesToMetrics Q c (GetValuesForPod Q pod) ?l PodType (ks_pod st) = Some ps" "filed c L B ps"
    using addValues_filed [of c L B "ks_pod st" ?l] assms(1-4) values_le_mono [OF single_readers(4) assms(2)]
    by (fastforce simp: pods_ok_def)
  obtain ss where ss: "addValuesToMetrics Q c (GetValuesForSchedulerHealth Q now pod (cl_SchedulerHealth c)) ?l SchedulerHealthType
      (ks_scheduler st) = Some ss" "filed c L B ss"
    using addValues_filed [of c L B "ks_scheduler st" ?l] assms(1-4) values_le_mono [OF single_readers(5) assms(2)]
    by (fastforce simp: pods_ok_def)
  have "pods_ok c L B (st\<lparr>ks_pod := ps, ks_scheduler := ss\<rparr>)" using assms(1) ps(2) ss(2) by (simp add: pods_ok_def)
  then show ?thesis
    using assms(2,4,5) by (simp add: collect_pod_def Let_def ps(1) ss(1)) (intro ofold_not_None collect_container_total; simp)
qed

lemma collectContainers_total:
  assumes "collector_ok c" "1 \<le> B" "(length (ob_Pods ob) + (\<Sum>pod \<leftarrow> ob_Pods ob. length (pd_Containers pod))) * B \<le> 2 ^ 40"
    and "\<And>n r u. (n, r) \<in> set (ob_UtilizationByNode ob) \<Longrightarrow> u \<in> set (lr_Containers r) \<Longrightarrow> usage_le B u"
  shows "collectContainers Q get now c ob \<noteq> None"
proof -
  let ?ls = "concat (map (\<lambda>pod. let l = pod_labels get c ob pod in l # map (container_labels l pod) (pd_Containers pod)) (ob_Pods ob))"
  let ?st = "\<lparr>ks_utilization = GetContainerUsageSummary (ob_UtilizationByNode ob),
      ks_container = ([], NewSampleListBuilder (cl_Save c) now ContainerType), ks_pod = ([], None),
      ks_scheduler = ([], None), ks_results = [], ks_nodeMissing = []\<rparr>"
  have wf: "\<forall>k \<in> set ?ls. labels_wf k"
    by (auto simp: Let_def pod_labels_def container_labels_def)
  have "length ?ls = length (ob_Pods ob) + (\<Sum>pod \<leftarrow> ob_Pods ob. length (pd_Containers pod))"
    by (simp add: length_concat Let_def comp_def sum_list_Suc)
  then have card: "card (set ?ls) * B \<le> 2 ^ 40"
    using assms(3) order_trans [OF mult_le_mono1 [OF card_length [of ?ls]], of B] by simp
  have "pods_ok c (set ?ls) B ?st"
    using assms(1,4) by (simp add: pods_ok_def filed_def NewSampleListBuilder_ok usages_le_summary)
  then obtain st where st: "ofold (collect_pod Q get now c ob) ?st (ob_Pods ob) = Some st" "pods_ok c (set ?ls) B st"
    using ofold_not_None [of "ob_Pods ob" "pods_ok c (set ?ls) B" "collect_pod Q get now c ob" ?st]
      collect_pod_total [OF _ assms(2) _ wf] by (force simp: Let_def)
  have "\<exists>out. aggregateType Q c t ms = Some out" if "metrics_in (set ?ls) B ms" for t ms
    by (rule aggregateType_total [OF assms(1) that _ card wf]) simp
  with st(2) obtain o1 o2 o3 where "aggregateType Q c ContainerType (fst (ks_container st)) = Some o1"
    "aggregateType Q c PodType (fst (ks_pod st)) = Some o2" "aggregateType Q c SchedulerHealthType (fst (ks_scheduler st)) = Some o3"
    unfolding pods_ok_def filed_def by meson
  with st(1) show ?thesis by (simp add: collectContainers_def)
qed

section \<open>Quotas\<close>

text \<open>The labels under which the values of a quota may be filed: its own, and these with the storage class of a resource.\<close>

definition quota_label :: "collector \<Rightarrow> 'q capacityObjects \<Rightarrow> 'q resourceQuota \<Rightarrow> LabelsValues" where
  "quota_label c ob q =
     SetLabelsForQuota (cl_Labeler c) emptyLabels (Some q) (map_of (ob_RQDsByRQDKey ob) (om_Name (rq_Meta q), om_Namespace (rq_Meta q)))
       (map_of (ob_NamespacesByName ob) (om_Namespace (rq_Meta q)))"

definition with_class :: "LabelsValues \<Rightarrow> string \<Rightarrow> LabelsValues" where
  "with_class l r = l\<lparr>ls_BuiltIn := (ls_BuiltIn l)\<lparr>bv_StorageClass := hd (SplitChar (CHR ''.'') r)\<rparr>\<rparr>"

definition quota_labels :: "collector \<Rightarrow> 'q capacityObjects \<Rightarrow> 'q resourceQuota \<Rightarrow> LabelsValues list" where
  "quota_labels c ob q = quota_label c ob q # map (with_class (quota_label c ob q)) (map fst (rl_items (rq_SpecHard q)))"

lemma with_class_twice [simp]: "with_class (with_class l a) b = with_class l b"
  by (simp add: with_class_def)

lemma SetLabelsForPVCQuota_class:
  "SetLabelsForPVCQuota l q r = (if r \<in> fst ` set (rl_items (rq_SpecHard q)) then with_class l r else l)"
proof -
  have "foldl (\<lambda>ls n. if r = n then ls\<lparr>bv_StorageClass := hd (SplitChar (CHR ''.'') n)\<rparr> else ls) b ns
      = (if r \<in> set ns then b\<lparr>bv_StorageClass := hd (SplitChar (CHR ''.'') r)\<rparr> else b)" for b :: builtInLabelsValues and ns
    by (induction ns arbitrary: b) auto
  then show ?thesis by (simp add: SetLabelsForPVCQuota_def bi_SetLabelsForPVCQuota_def with_class_def)
qed

lemma quota_labels_closed: "l \<in> set (quota_labels c ob q) \<Longrightarrow> SetLabelsForPVCQuota l q r \<in> set (quota_labels c ob q)"
  by (force simp: quota_labels_def SetLabelsForPVCQuota_class)

lemma quota_labels_wf: "l \<in> set (quota_labels c ob q) \<Longrightarrow> labels_wf l"
proof -
  have w: "labels_wf (with_class l r) \<longleftrightarrow> labels_wf l" for l r by (simp add: labels_wf_def with_class_def)
  have "labels_wf (quota_label c ob q)" by (simp add: quota_label_def)
  then show "l \<in> set (quota_labels c ob q) \<Longrightarrow> labels_wf l" by (auto simp: quota_labels_def w)
qed

definition quota_filed ::
  "collector \<Rightarrow> LabelsValues set \<Rightarrow> LabelsValues set \<Rightarrow> LabelsValues \<times> 'q metrics \<times> sampleListBuilder option \<Rightarrow> bool" where
  "quota_filed c K L st \<longleftrightarrow> fst st \<in> K \<and> filed c L 1 (snd st)"

lemma quota_source_filed:
  fixes Q :: "('q, 'd) quantity_ops"
  assumes "quota_filed c K L st" "K \<subseteq> L" "\<And>l r. l \<in> K \<Longrightarrow> SetLabelsForPVCQuota l q r \<in> K"
  shows "quota_filed c K L (quota_source Q c q s st sv)"
proof -
  have step: "quota_filed c K L (quota_resource Q q s src v st ra)" if "quota_filed c K L st" for src v st ra
    using that assms(2,3) subsetD [OF assms(2) assms(3)]
    by (cases st; cases ra) (auto simp: quota_filed_def quota_resource_def filed_def Let_def split: option.split)
  have "quota_filed c K L (foldl (quota_resource Q q s src v) st rs)" if "quota_filed c K L st" for src v st rs
    using that by (induction rs arbitrary: st) (simp_all add: step)
  then show ?thesis
    using assms(1,2) by (cases st; cases sv) (auto simp: quota_source_def quota_filed_def filed_def)
qed

lemma quota_step_total:
  fixes Q :: "('q, 'd) quantity_ops"
  assumes "filed c L 1 st" "set (quota_labels c ob q) \<subseteq> L"
  shows "\<exists>st'. quota_step Q unmarshal c ob st q = Some st' \<and> filed c L 1 st'"
proof -
  let ?l = "quota_label c ob q"
  have l: "?l \<in> set (quota_labels c ob q)" by (simp add: quota_labels_def)
  obtain s sb where n: "NewSample (cl_state c) ?l (snd st) = Some (s, sb)" "builder_ok c sb"
    using NewSample_ok [of c "snd st" ?l] assms(1) quota_labels_wf [OF l] by (auto simp: filed_def)
  let ?K = "set (quota_labels c ob q)"
  have "quota_filed c ?K L (foldl (quota_source Q c q s) (?l, fst st, sb) vs)" for vs
    by (rule filed_fold [where P = "quota_filed c ?K L"])
      (use assms n(2) l in \<open>auto simp: quota_filed_def [of _ _ _ "(?l, _)"] filed_def quota_labels_closed intro!: quota_source_filed\<close>)
  then show ?thesis by (simp add: quota_step_def Let_def quota_label_def [symmetric] n(1) quota_filed_def)
qed

lemma length_labels: "card (set ls) * B \<le> 2 ^ 40" if "length ls * B \<le> 2 ^ 40"
  using order_trans [OF mult_le_mono1 [OF card_length [of ls]] that] .

lemma collectQuota_total:
  assumes "collector_ok c" "(\<Sum>q \<leftarrow> ob_Quotas ob. 1 + length (rl_items (rq_SpecHard q))) \<le> 2 ^ 40"
  shows "collectQuota Q unmarshal now c ob \<noteq> None"
proof -
  let ?ls = "concat (map (quota_labels c ob) (ob_Quotas ob))"
  have "length ?ls = (\<Sum>q \<leftarrow> ob_Quotas ob. 1 + length (rl_items (rq_SpecHard q)))"
    by (simp add: length_concat comp_def quota_labels_def)
  then have card: "card (set ?ls) * 1 \<le> 2 ^ 40" using assms(2) by (intro length_labels) simp
  have wf: "\<forall>l \<in> set ?ls. labels_wf l" by (auto dest: quota_labels_wf)
  have "\<exists>st. ofold (quota_step Q unmarshal c ob) ([], NewSampleListBuilder (cl_Save c) now QuotaType) (ob_Quotas ob) = Some st
      \<and> filed c (set ?ls) 1 st"
    by (intro ofold_not_None quota_step_total) (auto simp: filed_def NewSampleListBuilder_ok assms(1))
  then show ?thesis using finish_total [OF assms(1) _ _ card wf] by (auto simp: collectQuota_def)
qed

section \<open>Cgroups\<close>

definition node_levels :: "'q capacityObjects \<Rightarrow> 'q node \<Rightarrow> nodeAggregatedMetrics list" where
  "node_levels ob n = (case map_of (ob_UtilizationByNode ob) (om_Name (nd_Meta n)) of None \<Rightarrow> [] | Some u \<Rightarrow> lr_Node u)"

definition cgroup_labels :: "collector \<Rightarrow> 'q capacityObjects \<Rightarrow> 'q node \<Rightarrow> LabelsValues list" where
  "cgroup_labels c ob n =
     map (\<lambda>m. SetLabelsFoCGroup (SetLabelsForNode (cl_Labeler c) emptyLabels (Some n)) (na_AggregationLevel m)) (node_levels ob n)"

definition level_le :: "nat \<Rightarrow> nodeAggregatedMetrics \<Rightarrow> bool" where
  "level_le B m \<longleftrightarrow> length (na_CpuCoresNanoSec m) \<le> B \<and> length (na_MemoryBytes m) \<le> B"

lemma cgroup_level_total:
  assumes "filed c L B st" "1 \<le> B" "level_le B m" "labels_wf l" "SetLabelsFoCGroup l (na_AggregationLevel m) \<in> L"
  shows "\<exists>st'. cgroup_level Q c l st m = Some st' \<and> filed c L B st'"
proof -
  obtain s sb where n: "NewSample (cl_state c) (SetLabelsFoCGroup l (na_AggregationLevel m)) (snd st) = Some (s, sb)" "builder_ok c sb"
    using NewSample_ok [of c "snd st" "SetLabelsFoCGroup l (na_AggregationLevel m)"] assms(1,4) by (auto simp: filed_def)
  have "metrics_in L B (fst st)" using assms(1) by (simp add: filed_def)
  then show ?thesis using assms(2,3,5) n(2) by (simp add: cgroup_level_def n(1) filed_def level_le_def Let_def)
qed

text \<open>
  The only node whose metrics make the collector panic: it has sent nothing and none of its conditions counts as unhealthy,
  and the status of its sampler's container, the first of that name in a pod that is not being deleted, has no state at all.
\<close>

definition stateless_sampler :: "containerStatus list \<Rightarrow> bool" where
  "stateless_sampler ss =
     (case find (\<lambda>s. cs_Name s = ''metrics-node-sampler'') ss of
        None \<Rightarrow> False
      | Some s \<Rightarrow> cs_Running s = None \<and> \<not> cs_Terminated s \<and> \<not> cs_Waiting s)"

definition cgroup_panics :: "collector \<Rightarrow> 'q capacityObjects \<Rightarrow> 'q node \<Rightarrow> bool" where
  "cgroup_panics c ob n \<longleftrightarrow>
     map_of (ob_UtilizationByNode ob) (om_Name (nd_Meta n)) = None
     \<and> \<not> (\<exists>(t, s) \<in> set (cl_UnhealthyNodeConditions c). \<exists>v \<in> set (nd_Conditions n). kc_Type v = t \<and> kc_Status v = s)
     \<and> (case map_of (ob_SamplersByNode ob) (om_Name (nd_Meta n)) of
          None \<Rightarrow> False
        | Some p \<Rightarrow> om_DeletionTimestamp (pd_Meta p) = None \<and> stateless_sampler (pd_ContainerStatuses p))"

lemma sampler_reason_None: "sampler_reason now ss = None \<longleftrightarrow> stateless_sampler ss"
  by (induction ss) (auto simp: stateless_sampler_def split: option.split)

lemma nodeMissingReason_None:
  assumes "map_of (ob_UtilizationByNode ob) (om_Name (nd_Meta n)) = None"
  shows "nodeMissingReason now c ob n = None \<longleftrightarrow> cgroup_panics c ob n"
proof (cases "find (\<lambda>(t, s). \<exists>v \<in> set (nd_Conditions n). kc_Type v = t \<and> kc_Status v = s) (cl_UnhealthyNodeConditions c)")
  case None
  then have "\<not> (\<exists>(t, s) \<in> set (cl_UnhealthyNodeConditions c). \<exists>v \<in> set (nd_Conditions n). kc_Type v = t \<and> kc_Status v = s)"
    by (fastforce simp: find_None_iff)
  with None assms show ?thesis
    by (simp add: nodeMissingReason_def cgroup_panics_def ghas_def sampler_reason_None Let_def split: option.split)
next
  case (Some ts)
  then have "\<exists>(t, s) \<in> set (cl_UnhealthyNodeConditions c). \<exists>v \<in> set (nd_Conditions n). kc_Type v = t \<and> kc_Status v = s"
    by (meson find_SomeD)
  with Some assms show ?thesis by (cases ts) (simp add: nodeMissingReason_def cgroup_panics_def ghas_def Let_def)
qed

lemma cgroup_node_None: "cgroup_panics c ob n \<Longrightarrow> cgroup_node Q now c ob st n = None"
  using nodeMissingReason_None [of ob n now c] by (simp add: cgroup_panics_def cgroup_node_def Let_def split_beta)

lemma cgroup_node_total:
  assumes "filed c L B (snd st)" "1 \<le> B" "list_all (level_le B) (node_levels ob n)" "set (cgroup_labels c ob n) \<subseteq> L"
    and "\<not> cgroup_panics c ob n"
  shows "\<exists>st'. cgroup_node Q now c ob st n = Some st' \<and> filed c L B (snd st')"
proof (cases "map_of (ob_UtilizationByNode ob) (om_Name (nd_Meta n))")
  case None
  with assms(1,5) nodeMissingReason_None [OF None, of now c] show ?thesis
    by (cases st) (auto simp: cgroup_node_def Let_def split_beta)
next
  case (Some u)
  let ?l = "SetLabelsForNode (cl_Labeler c) emptyLabels (Some n)"
  have "\<exists>ms. ofold (cgroup_level Q c ?l) (snd st) (lr_Node u) = Some ms \<and> filed c L B ms"
    using assms(1-4) by (intro ofold_not_None cgroup_level_total) (auto simp: node_levels_def cgroup_labels_def Some list_all_iff)
  then show ?thesis by (cases st) (auto simp: cgroup_node_def Let_def split_beta Some)
qed

lemma ofold_None: "\<lbrakk>x \<in> set xs; \<And>s. f s x = None\<rbrakk> \<Longrightarrow> ofold f s xs = None"
proof (induction xs arbitrary: s)
  case (Cons y ys)
  then show ?case by (cases "f s y") auto
qed simp

lemma collectCGroups_None_iff:
  assumes "collector_ok c" "1 \<le> B" "(\<Sum>n \<leftarrow> ob_Nodes ob. length (node_levels ob n)) * B \<le> 2 ^ 40"
    and "\<And>n. n \<in> set (ob_Nodes ob) \<Longrightarrow> list_all (level_le B) (node_levels ob n)"
  shows "collectCGroups Q now c ob = None \<longleftrightarrow> (\<exists>n \<in> set (ob_Nodes ob). cgroup_panics c ob n)"
proof
  assume "\<exists>n \<in> set (ob_Nodes ob). cgroup_panics c ob n"
  then show "collectCGroups Q now c ob = None"
    using ofold_None [of _ "ob_Nodes ob" "cgroup_node Q now c ob"] cgroup_node_None by (fastforce simp: collectCGroups_def)
next
  let ?ls = "concat (map (cgroup_labels c ob) (ob_Nodes ob))"
  have "length ?ls = (\<Sum>n \<leftarrow> ob_Nodes ob. length (node_levels ob n))" by (simp add: length_concat comp_def cgroup_labels_def)
  then have card: "card (set ?ls) * B \<le> 2 ^ 40" using assms(3) by (intro length_labels) simp
  have wf: "\<forall>l \<in> set ?ls. labels_wf l" by (auto simp: cgroup_labels_def)
  assume none: "collectCGroups Q now c ob = None"
  show "\<exists>n \<in> set (ob_Nodes ob). cgroup_panics c ob n"
  proof (rule ccontr)
    assume "\<not> ?thesis"
    then have step: "\<exists>st'. cgroup_node Q now c ob st n = Some st' \<and> filed c (set ?ls) B (snd st')"
      if "n \<in> set (ob_Nodes ob)" "filed c (set ?ls) B (snd st)" for st n
      using that assms(2,4) by (intro cgroup_node_total) auto
    let ?st = "([], [], NewSampleListBuilder (cl_Save c) now CGroupType)"
    have "\<exists>st. ofold (cgroup_node Q now c ob) ?st (ob_Nodes ob) = Some st \<and> filed c (set ?ls) B (snd st)"
    proof (rule ofold_not_None [where P = "\<lambda>st. filed c (set ?ls) B (snd st)"])
      show "filed c (set ?ls) B (snd ?st)" by (simp add: filed_def NewSampleListBuilder_ok assms(1))
    qed (rule step)
    then obtain st where "ofold (cgroup_node Q now c ob) ?st (ob_Nodes ob) = Some st" "filed c (set ?ls) B (snd st)" by (elim exE conjE)
    then show False
      using finish_total [OF assms(1) _ _ card wf, of "snd st" Q CGroupType "fst st"] none by (simp add: collectCGroups_def split_beta)
  qed
qed

section \<open>Cluster scoped metrics\<close>

definition cluster_entries ::
  "(string \<Rightarrow> string + (strmap \<times> (string, 'q) gomap) list) \<Rightarrow> collector \<Rightarrow> 'q capacityObjects \<Rightarrow> (strmap \<times> (string, 'q) gomap) list" where
  "cluster_entries parse c ob =
     concat (map (\<lambda>src. case map_of (ob_ClusterScopedByName ob) (as_Name src) of
        None \<Rightarrow> []
      | Some items \<Rightarrow> concat (map (\<lambda>o'. case map_of (om_Annotations o') (as_Annotation src) of
                          None \<Rightarrow> [] | Some v \<Rightarrow> (case parse v of Inl err \<Rightarrow> [] | Inr es \<Rightarrow> es)) items)) (cl_ClusterScoped c))"

lemma labeled_resource_in:
  assumes "metrics_in L 1 ms" "SetLabelsForClusterScoped emptyLabels (fst e) \<in> L"
  shows "metrics_in L 1 (labeled_resource c src ms e)"
  unfolding labeled_resource_def Let_def
  by (rule filed_fold [where P = "metrics_in L 1"]) (use assms in \<open>auto split: option.split\<close>)

lemma cluster_item_in:
  assumes "metrics_in L 1 (fst st)"
    and "\<And>v es e. \<lbrakk>map_of (om_Annotations x) (as_Annotation src) = Some v; parse v = Inr es; e \<in> set es\<rbrakk>
           \<Longrightarrow> SetLabelsForClusterScoped emptyLabels (fst e) \<in> L"
  shows "metrics_in L 1 (fst (cluster_item parse c src st x))"
proof -
  have "metrics_in L 1 (foldl (labeled_resource c (as_Name src)) (fst st) es)"
    if "map_of (om_Annotations x) (as_Annotation src) = Some v" "parse v = Inr es" for v es
    by (rule filed_fold [where P = "metrics_in L 1", OF labeled_resource_in assms(1)]) (use assms(2) [OF that] in blast)+
  then show ?thesis using assms(1) by (auto simp: cluster_item_def split: option.split sum.split)
qed

lemma collectClusterScoped_total:
  assumes "collector_ok c" "length (cluster_entries parse c ob) \<le> 2 ^ 40"
  shows "collectClusterScoped Q parse now c ob \<noteq> None"
proof -
  let ?ls = "map (\<lambda>e. SetLabelsForClusterScoped emptyLabels (fst e)) (cluster_entries parse c ob)"
  let ?step = "\<lambda>st src. case map_of (ob_ClusterScopedByName ob) (as_Name src) of
                 None \<Rightarrow> st | Some items \<Rightarrow> foldl (cluster_item parse c src) st items"
  let ?P = "\<lambda>st. metrics_in (set ?ls) 1 (fst st)"
  have e: "SetLabelsForClusterScoped emptyLabels (fst e) \<in> set ?ls"
    if "src \<in> set (cl_ClusterScoped c)" "map_of (ob_ClusterScopedByName ob) (as_Name src) = Some items" "x \<in> set items"
      "map_of (om_Annotations x) (as_Annotation src) = Some v" "parse v = Inr es" "e \<in> set es" for src items x v es e
    using that by (force simp: cluster_entries_def intro!: bexI [of _ src] bexI [of _ x])
  have step: "?P (?step st src)" if "src \<in> set (cl_ClusterScoped c)" "?P st" for st src
  proof (cases "map_of (ob_ClusterScopedByName ob) (as_Name src)")
    case (Some items)
    have "?P (foldl (cluster_item parse c src) st items)"
      by (rule filed_fold [where P = ?P, OF cluster_item_in that(2)]) (use e [OF that(1) Some] in blast)+
    then show ?thesis by (simp add: Some)
  qed (use that in simp)
  have "?P (foldl ?step ([], []) (cl_ClusterScoped c))"
    by (rule filed_fold [where P = ?P]) (use step in auto)
  moreover have "card (set ?ls) * 1 \<le> 2 ^ 40" using assms(2) by (intro length_labels) simp
  moreover have "\<forall>l \<in> set ?ls. labels_wf l" by auto
  ultimately show ?thesis
    unfolding collectClusterScoped_def Let_def
    by (intro finish_total [OF assms(1), of "set ?ls" 1]) (simp_all add: filed_def NewSampleListBuilder_ok assms(1))
qed

section \<open>A configured collector\<close>

lemma collectNamespaces_total:
  assumes "collector_ok c" "length (ob_Namespaces ob) \<le> 2 ^ 40"
  shows "collectNamespaces Q c ob \<noteq> None"
proof -
  let ?ls = "map (\<lambda>n. SetLabelsForNamespaces (cl_Labeler c) emptyLabels (Some n)) (ob_Namespaces ob)"
  have "metrics_in (set ?ls) 1 (foldl (\<lambda>ms n. put_metric (metricName_for ''namespace'' ''items'' ResourceItems NamespaceType)
      (SetLabelsForNamespaces (cl_Labeler c) emptyLabels (Some n)) [qo_NewQuantity Q 1] ms) [] (ob_Namespaces ob))"
    by (rule filed_fold [where P = "metrics_in (set ?ls) 1"]) auto
  moreover have "card (set ?ls) * 1 \<le> 2 ^ 40" using assms(2) by (intro length_labels) simp
  moreover have "\<forall>l \<in> set ?ls. labels_wf l" by auto
  ultimately show ?thesis
    unfolding collectNamespaces_def by (intro finish_total [OF assms(1), of "set ?ls" 1]) (simp_all add: filed_def)
qed

text \<open>Objects that are within the bounds: at most \<^verbatim>\<open>B\<close> samples of a container or cgroup, and at most 2 to the 40th values of a metric.\<close>

definition objects_within :: "nat \<Rightarrow> 'q collectInputs \<Rightarrow> collector \<Rightarrow> 'q capacityObjects \<Rightarrow> bool" where
  "objects_within B i c ob \<longleftrightarrow>
     1 \<le> B
     \<and> list_all (\<lambda>(n, r). list_all (usage_le B) (lr_Containers r) \<and> list_all (level_le B) (lr_Node r)) (ob_UtilizationByNode ob)
     \<and> (length (ob_Pods ob) + (\<Sum>pod \<leftarrow> ob_Pods ob. length (pd_Containers pod))) * B \<le> 2 ^ 40
     \<and> (\<Sum>n \<leftarrow> ob_Nodes ob. length (node_levels ob n)) * B \<le> 2 ^ 40
     \<and> (\<Sum>q \<leftarrow> ob_Quotas ob. 1 + length (rl_items (rq_SpecHard q))) \<le> 2 ^ 40
     \<and> length (ob_PVs ob) \<le> 2 ^ 40 \<and> length (ob_PVCs ob) \<le> 2 ^ 40 \<and> length (ob_Nodes ob) \<le> 2 ^ 40
     \<and> length (ob_Namespaces ob) \<le> 2 ^ 40 \<and> length (cluster_entries (in_parse i) c ob) \<le> 2 ^ 40"

lemma node_levels_le:
  assumes "list_all (\<lambda>(n, r). list_all (usage_le B) (lr_Containers r) \<and> list_all (level_le B) (lr_Node r)) (ob_UtilizationByNode ob)"
  shows "list_all (level_le B) (node_levels ob n)"
proof (cases "map_of (ob_UtilizationByNode ob) (om_Name (nd_Meta n))")
  case (Some u)
  from map_of_SomeD [OF this] assms show ?thesis by (auto simp: node_levels_def Some list_all_iff)
qed (simp add: node_levels_def)

lemma collectorFuncs_total:
  assumes "collector_ok c" "objects_within B i c ob" "(name, f) \<in> set (collectorFuncs Q)" "name \<noteq> ''collect_cgroups''"
  shows "f i c ob \<noteq> None"
proof -
  note w = assms(2) [unfolded objects_within_def]
  have "collectContainers Q (in_get i) (in_now i) c ob \<noteq> None"
    by (rule collectContainers_total [OF assms(1), of B]) (use w in \<open>auto simp: list_all_iff\<close>)
  moreover have "collectQuota Q (in_unmarshal i) (in_now i) c ob \<noteq> None" using w by (intro collectQuota_total assms(1)) simp
  moreover have "collectNodes Q (in_now i) c ob \<noteq> None" unfolding collectNodes_def
    by (rule collect_objects_total [OF assms(1), of _ _ _ 1]) (use w in \<open>simp_all add: NewSampleListBuilder_ok assms(1) single_readers [simplified]\<close>)
  moreover have "collectPVs Q c ob \<noteq> None" unfolding collectPVs_def
    by (rule collect_objects_total [OF assms(1), of _ _ _ 1]) (use w in \<open>simp_all add: single_readers [simplified] pv_labels_def Let_def\<close>)
  moreover have "collectPVCs Q (in_get i) c ob \<noteq> None" unfolding collectPVCs_def
    by (rule collect_objects_total [OF assms(1), of _ _ _ 1])
      (use w in \<open>simp_all add: single_readers [simplified] pvc_labels_def Let_def split_beta\<close>)
  moreover have "collectNamespaces Q c ob \<noteq> None" using w by (intro collectNamespaces_total assms(1)) simp
  moreover have "collectClusterScoped Q (in_parse i) (in_now i) c ob \<noteq> None" using w by (intro collectClusterScoped_total assms(1)) simp
  ultimately show ?thesis using assms(3,4) by (auto simp: collectorFuncs_def)
qed

lemma collectorFuncs_None_iff:
  assumes "collector_ok c" "objects_within B i c ob"
  shows "omap snd (bindCollectorFuncs (collectorFuncs Q) i c ob) = None \<longleftrightarrow> (\<exists>n \<in> set (ob_Nodes ob). cgroup_panics c ob n)"
proof -
  have "gomap_wf (collectorFuncs Q)" by (simp add: collectorFuncs_def gomap_wf_def)
  then have "omap snd (bindCollectorFuncs (collectorFuncs Q) i c ob) = None \<longleftrightarrow> (\<exists>(name, f) \<in> set (collectorFuncs Q). f i c ob = None)"
    by (force simp: omap_None_iff bindCollectorFuncs_def CollectorFuncs_def copy_map_id)
  also have "\<dots> \<longleftrightarrow> collectCGroups Q (in_now i) c ob = None"
  proof
    assume "\<exists>(name, f) \<in> set (collectorFuncs Q). f i c ob = None"
    then obtain name f where f: "(name, f) \<in> set (collectorFuncs Q)" "f i c ob = None" by auto
    then have "name = ''collect_cgroups''" using collectorFuncs_total [OF assms] by blast
    with f show "collectCGroups Q (in_now i) c ob = None" by (auto simp: collectorFuncs_def)
  qed (auto simp: collectorFuncs_def)
  also have "\<dots> \<longleftrightarrow> (\<exists>n \<in> set (ob_Nodes ob). cgroup_panics c ob n)"
    using assms(2) by (intro collectCGroups_None_iff [OF assms(1)]) (auto simp: objects_within_def intro: node_levels_le)
  finally show ?thesis .
qed


definition ex_no_files :: sideCarFs where
  "ex_no_files = \<lparr>fs_Stat = (\<lambda>_. False), fs_ReadDir = (\<lambda>_. Inr []), fs_ReadFile = (\<lambda>_ _. Inl []), fs_Decode = (\<lambda>_. Inl [])\<rparr>"

text \<open>A node whose sampler has a status without a state.\<close>

definition ex_stateless :: "decimal pod" where
  "ex_stateless = (ex_pod ''sampler'' [])\<lparr>pd_NodeName := ''n'', pd_ContainerStatuses := [(ex_status ''c1'' 1)\<lparr>cs_Name := ''metrics-node-sampler'', cs_Running := None\<rparr>]\<rparr>"

definition ex_node_listed :: "decimal listed" where
  "ex_node_listed = ex_listed\<lparr>ls_Nodes := [ex_node], ls_Samplers := [ex_stateless]\<rparr>"


end
