(* ===== verification/Sampler_Server_Props.thy ===== *)
theory Sampler_Server_Props
  imports Sampler_Server
begin

text \<open>
  What the sampler's server guarantees: the listed samples are within the configured bounds and listing never
  panics; sending gives up on exactly the collectors no attempt reached; registering connects what can be
  reached and keeps what is connected; and, for every sequence of events, the connections stay consistent
  until the shutdown, which leaves none.
\<close>

section \<open>Sorted series\<close>

lemma sorted_ints_sort: "sorted_ints s xs = (if sp_SortResults s then sort xs else xs)"
  by (simp add: sorted_ints_def sort_Sort_eq_sort)

lemma set_sorted_ints [simp]: "set (sorted_ints s xs) = set xs"
  and length_sorted_ints [simp]: "length (sorted_ints s xs) = length xs"
  by (simp_all add: sorted_ints_sort)

section \<open>Listing\<close>

lemma set_listed_values: "set (listed_values s vs) \<subseteq> set vs"
  by (auto simp: listed_values_def dest: in_set_dropD)

text \<open>The invariant of the index: an entry has values, and each has passed the filters.\<close>

definition index_ok :: "sampleCache \<Rightarrow> ('k, sampleResult) gomap \<Rightarrow> bool" where
  "index_ok s m \<longleftrightarrow> (\<forall>(k, v) \<in> set m. sr_values v \<noteq> [] \<and> (\<forall>x \<in> set (sr_values v). sample_ok s x))"

lemma index_ok_update:
  "index_ok s m \<Longrightarrow> sr_values v \<noteq> [] \<Longrightarrow> \<forall>x \<in> set (sr_values v). sample_ok s x \<Longrightarrow> index_ok s (AList.update k v m)"
  unfolding index_ok_def by (induction m) auto

lemma index_ok_gget: "index_ok s m \<Longrightarrow> x \<in> set (sr_values (gget \<lparr>sr_values = [], sr_avg = si_zero\<rparr> m k)) \<Longrightarrow> sample_ok s x"
  unfolding index_ok_def by (induction m) (auto split: if_splits)

lemma index_ok_append:
  assumes "index_ok s m" "sample_ok s v"
  shows "index_ok s (AList.update k ((gget \<lparr>sr_values = [], sr_avg = si_zero\<rparr> m k)
     \<lparr>sr_values := sr_values (gget \<lparr>sr_values = [], sr_avg = si_zero\<rparr> m k) @ [v]\<rparr>) m)"
  using assms index_ok_gget [OF assms(1)] by (intro index_ok_update) auto

lemma index_ok_samples: "index_ok s m \<Longrightarrow> index_ok s (index_samples s m kvs)"
  unfolding index_samples_def
proof (induction kvs arbitrary: m)
  case (Cons kv kvs)
  then show ?case using index_ok_append [OF Cons.prems, of "snd kv" "fst kv"] by (cases kv) (simp add: Let_def)
qed simp

lemma index_ok_all: "index_ok s m \<Longrightarrow> index_ok s (foldl (\<lambda>index x. index_samples s index (f x)) m xs)"
  by (induction xs arbitrary: m) (auto intro: index_ok_samples)

lemma index_ok_summaries: "index_ok s m \<Longrightarrow> index_ok s (map (\<lambda>(k, c). (k, populateSummary conv s c)) m)"
  by (auto simp: index_ok_def)

lemma index_ok_Nil [simp]: "index_ok s []"
  by (simp add: index_ok_def)

lemma getAllSamples_ok:
  "index_ok s (al_containers (fst (getAllSamples conv s)))" "index_ok s (al_node (fst (getAllSamples conv s)))"
  by (simp_all add: getAllSamples_def Let_def index_ok_summaries index_ok_all)

lemma list_level_Some: "sr_values v \<noteq> [] \<Longrightarrow> \<exists>l. list_level s (k, v) = Some l"
  by (cases "sr_values v") (simp_all add: list_level_def Let_def)

definition levels_of :: "samplerServer \<Rightarrow> (string, sampleResult) gomap \<Rightarrow> nodeAggregatedMetrics list" where
  "levels_of s m = map (\<lambda>kv. the (list_level s kv)) m"

definition listing :: "(float64 \<Rightarrow> u64) \<Rightarrow> samplerServer \<Rightarrow> listMetricsResponse" where
  "listing conv s =
     \<lparr>lr_Containers = map (list_container s) (al_containers (fst (getAllSamples conv (sp_cache s)))),
      lr_Node = (let ls = levels_of s (al_node (fst (getAllSamples conv (sp_cache s))))
                 in if sp_SortResults s then sort_Sort level_less ls else ls),
      lr_NodeName = sp_nodeName s, lr_PodName = sp_podName s, lr_Reason = ''pull'', lr_Timestamp = 0\<rparr>"

lemma ListMetrics_listing: "ListMetrics conv s = Some (listing conv s)"
proof -
  let ?n = "al_node (fst (getAllSamples conv (sp_cache s)))"
  have "map_option (\<lambda>l. ls @ [l]) (list_level s kv) = Some (ls @ [the (list_level s kv)])" if "kv \<in> set ?n" for kv ls
    using getAllSamples_ok(2) [of "sp_cache s" conv] that list_level_Some [of "snd kv" s "fst kv"]
    by (force simp: index_ok_def)
  then have "ofold (\<lambda>ls kv. map_option (\<lambda>l. ls @ [l]) (list_level s kv)) [] ?n = Some (levels_of s ?n)"
    using ofold_total [of ?n "\<lambda>ls kv. map_option (\<lambda>l. ls @ [l]) (list_level s kv)" "\<lambda>ls kv. ls @ [the (list_level s kv)]" "[]"]
    by (simp add: foldl_snoc_map levels_of_def)
  then show ?thesis by (simp add: ListMetrics_def listing_def Let_def)
qed

lemma int64_of_bounds:
  assumes "x \<le> m" "uint m < 2 ^ 63"
  shows "0 \<le> int64_of x" "int64_of x \<le> uint m"
proof -
  have le: "unat x \<le> unat m" "uint m = int (unat m)" using assms(1) by (simp_all add: word_le_nat_alt)
  have "int (unat x) < int (2 ^ 63)" unfolding of_nat_power of_nat_numeral using le assms(2) by linarith
  then have "unat x < 2 ^ 63" by (simp only: of_nat_less_iff)
  then show "0 \<le> int64_of x" "int64_of x \<le> uint m" using assms(1) by (simp_all add: int64_of_small word_le_def)
qed

lemma sample_ok_bounds:
  assumes "sample_ok c x" "rd_MaxCPUCoresNanoSec (mr_Reader (ca_metricsReader c)) = m" "uint m < 2 ^ 63"
  shows "int64_of (si_CPUCoresNanoSec x) \<in> {0..uint m}" "int64_of (si_CPUThrottledUSec x) \<in> {0..uint m}"
  using assms int64_of_bounds [OF _ assms(3)] by (simp_all add: sample_ok_le)

definition listed_ok :: "int \<Rightarrow> containerMetrics \<Rightarrow> bool" where
  "listed_ok m c \<longleftrightarrow>
     set (us_CpuCoresNanoSec c) \<union> set (us_CpuThrottledNanoSec c) \<subseteq> {0..m}
     \<and> length (us_CpuThrottledNanoSec c) = length (us_CpuCoresNanoSec c)
     \<and> length (us_CpuPercentPeriodsThrottled c) = length (us_CpuCoresNanoSec c)
     \<and> length (us_MemoryBytes c) = length (us_CpuCoresNanoSec c)
     \<and> length (us_CpuPeriodsSec c) = length (us_CpuCoresNanoSec c)
     \<and> length (us_CpuThrottledPeriodsSec c) = length (us_CpuCoresNanoSec c)"

lemma list_container_ok:
  assumes "\<forall>x \<in> set (sr_values v). sample_ok c x" "rd_MaxCPUCoresNanoSec (mr_Reader (ca_metricsReader c)) = m" "uint m < 2 ^ 63"
  shows "listed_ok (uint m) (list_container s (k, v))"
  using assms(1) set_listed_values [of s "sr_values v"] sample_ok_bounds [OF _ assms(2,3)]
  by (auto simp: listed_ok_def list_container_def Let_def subset_iff)


definition ex_sampler :: samplerServer where
  "ex_sampler = \<lparr>sp_cache = foldl AddSample ex_cache [ex_sample True 7, ex_sample True 8], sp_Reader = ex_reader,
     sp_SortResults = False, sp_SendPushMetricsRetryCount = 1, sp_PushHeadlessServicePort = 9090,
     sp_collectorConnections = [], sp_nextId = 0, sp_watchers = [], sp_cancelled = [], sp_nodeName = ''n1'', sp_podName = ''p''\<rparr>"


section \<open>Sending\<close>

lemma sendRetry_exact:
  "sendRetry send n r err \<longleftrightarrow> (if int r \<le> n then (\<forall>i. r \<le> i \<longrightarrow> int i \<le> n \<longrightarrow> \<not> send i) else err)"
proof (induction send n r err rule: sendRetry.induct)
  case (1 send n r err)
  show ?case
  proof (cases "int r \<le> n \<and> \<not> send r")
    case True
    then have "sendRetry send n r err = sendRetry send n (Suc r) True" by (subst sendRetry.simps) simp
    also have "\<dots> \<longleftrightarrow> (\<forall>i. Suc r \<le> i \<longrightarrow> int i \<le> n \<longrightarrow> \<not> send i)" using 1 True by auto
    also have "\<dots> \<longleftrightarrow> (\<forall>i. r \<le> i \<longrightarrow> int i \<le> n \<longrightarrow> \<not> send i)" using True by (metis Suc_leI le_eq_less_or_eq Suc_leD)
    finally show ?thesis using True by simp
  next
    case False
    then show ?thesis by (subst sendRetry.simps) auto
  qed
qed

definition unreachable :: "(collectorConnection \<Rightarrow> nat \<Rightarrow> bool) \<Rightarrow> int \<Rightarrow> collectorConnection \<Rightarrow> bool" where
  "unreachable send n c \<longleftrightarrow> (\<forall>i \<in> {..nat n}. \<not> send c i)"

lemma unreachable_alt: "0 \<le> n \<Longrightarrow> unreachable send n c \<longleftrightarrow> (\<forall>i. int i \<le> n \<longrightarrow> \<not> send c i)"
  by (auto simp: unreachable_def le_nat_iff)

lemma sendOne_exact:
  "0 \<le> n \<Longrightarrow> sendOne send n (err, bad) c = (unreachable send n c, bad @ (if unreachable send n c then [cc_addr c] else []))"
  using unreachable_alt [of n send c] by (simp add: sendOne_def sendRetry_exact Let_def)

lemma sends_exact:
  "0 \<le> n \<Longrightarrow> snd (foldl (sendOne send n) (err, bad) cs) = bad @ map cc_addr (filter (unreachable send n) cs)"
  by (induction cs arbitrary: err bad) (simp_all add: sendOne_exact)

lemma sends_none: "n < 0 \<Longrightarrow> foldl (sendOne send n) (False, bad) cs = (False, bad)"
  by (induction cs arbitrary: bad) (simp_all add: sendOne_def sendRetry.simps)

text \<open>
  Sending gives up on exactly the collectors that none of the attempts reached, in the order of the connections:
  the error variable that the loop shares never blames a collector for its predecessor. With a negative number
  of retries nothing is attempted and nothing is reported.
\<close>

theorem send_gives_up_exactly:
  "sendMetrics send s cs =
     (if sp_SendPushMetricsRetryCount s < 0 then []
      else map cc_addr (filter (\<lambda>c. list_all (\<lambda>i. \<not> send c i) [0..<Suc (nat (sp_SendPushMetricsRetryCount s))]) cs))"
proof -
  have "list_all (\<lambda>i. \<not> send c i) [0..<Suc (nat n)] = unreachable send n c" for n c
    by (auto simp: list_all_iff unreachable_def)
  then show ?thesis
    by (simp add: sendMetrics_def sends_none sends_exact del: upt_Suc)
qed

section \<open>Connections\<close>

text \<open>Maps of connections, seen through their addresses: what both adding and removing keep.\<close>

locale connection_table =
  fixes conns :: "'s \<Rightarrow> 'a \<Rightarrow> 'c option"
    and add :: "'s \<Rightarrow> 'a \<Rightarrow> 's"
    and rem :: "'s \<Rightarrow> 'a \<Rightarrow> 's"
    and reach :: "'a \<Rightarrow> bool"
  assumes add_dom: "dom (conns (add s a)) = (if reach a then insert a (dom (conns s)) else dom (conns s))"
    and add_keeps: "conns s b = Some c \<Longrightarrow> conns (add s a) b = Some c"
    and rem_exact: "conns (rem s a) = (conns s)(a := None)"
begin

lemma adds_dom: "dom (conns (foldl add s as)) = dom (conns s) \<union> {a \<in> set as. reach a}"
  by (induction as arbitrary: s) (auto simp: add_dom)

lemma adds_keep: "conns s b = Some c \<Longrightarrow> conns (foldl add s as) b = Some c"
  by (induction as arbitrary: s) (auto simp: add_keeps)

lemma rems: "conns (foldl rem s as) = (\<lambda>a. if a \<in> set as then None else conns s a)"
  by (induction as arbitrary: s) (auto simp: rem_exact)

lemma adds_again:
  assumes "{a \<in> set as. reach a} \<subseteq> dom (conns s)"
  shows "conns (foldl add s as) = conns s"
proof
  fix b
  have "dom (conns (foldl add s as)) = dom (conns s)" using assms by (auto simp: adds_dom)
  then show "conns (foldl add s as) b = conns s b" by (cases "conns s b") (auto simp: adds_keep domIff)
qed

end

definition conn_at :: "samplerServer \<Rightarrow> string \<Rightarrow> collectorConnection option" where
  "conn_at s = map_of (sp_collectorConnections s)"

definition reachable_addr :: "(string \<Rightarrow> dialResult) \<Rightarrow> string \<Rightarrow> bool" where
  "reachable_addr dial a \<longleftrightarrow> a \<noteq> '''' \<and> dial a = Connected"

lemma conn_at_removeConnection: "conn_at (removeConnection s a) = (conn_at s)(a := None)"
  by (auto simp: conn_at_def removeConnection_def split: option.split)

lemma conn_at_add:
  "dom (conn_at (addConnection dial s a))
     = (if reachable_addr dial a then insert a (dom (conn_at s)) else dom (conn_at s))"
  "conn_at s b = Some c \<Longrightarrow> conn_at (addConnection dial s a) b = Some c"
  by (auto simp: conn_at_def addConnection_def reachable_addr_def ghas_def split: dialResult.split)

interpretation conn: connection_table conn_at "addConnection dial" removeConnection "reachable_addr dial" for dial
  by unfold_locales (simp_all only: conn_at_add conn_at_removeConnection)

lemma conn_at_removeConnections: "conn_at (removeConnections as s) = (\<lambda>a. if a \<in> set as then None else conn_at s a)"
  unfolding removeConnections_def by (rule conn.rems)

text \<open>
  C35. Registering collectors connects exactly the requested addresses that can be reached, in addition to those
  already connected; a connection that exists is kept as it is, so registering twice is registering once; and an
  IPv6 address gets its brackets.
\<close>

theorem register_connects_reachable:
  "dom (conn_at (RegisterCollectors dial req s))
     = dom (conn_at s) \<union> {a. dial a = Connected \<and> (\<exists>i. i \<in> set req \<and> i \<noteq> '''' \<and> a = ipToAddressString s i)}
   \<and> conn_at s \<subseteq>\<^sub>m conn_at (RegisterCollectors dial req s)
   \<and> conn_at (RegisterCollectors dial req (RegisterCollectors dial req s)) = conn_at (RegisterCollectors dial req s)"
proof -
  let ?as = "map (ipToAddressString s) (filter (\<lambda>i. length i \<noteq> 0) req)"
  have r: "RegisterCollectors dial req s = foldl (addConnection dial) s ?as"
    by (simp add: RegisterCollectors_def addConnectionsFromCollectors_def addConnectionsIfMissing_def)
  have port: "sp_PushHeadlessServicePort (foldl (addConnection dial) s as) = sp_PushHeadlessServicePort s" for as
    by (induction as arbitrary: s) (auto simp: addConnection_def split: dialResult.split)
  then have addr: "ipToAddressString (foldl (addConnection dial) s as) = ipToAddressString s" for as
    by (simp add: fun_eq_iff ipToAddressString_def)
  have ne: "ipToAddressString s i \<noteq> ''''" for i by (simp add: ipToAddressString_def)
  have dom: "dom (conn_at (RegisterCollectors dial req s)) = dom (conn_at s) \<union> {a \<in> set ?as. reachable_addr dial a}"
    unfolding r by (rule conn.adds_dom)
  have "RegisterCollectors dial req (RegisterCollectors dial req s) = foldl (addConnection dial) (RegisterCollectors dial req s) ?as"
    by (simp add: RegisterCollectors_def addConnectionsFromCollectors_def addConnectionsIfMissing_def addr)
  then have "conn_at (RegisterCollectors dial req (RegisterCollectors dial req s)) = conn_at (RegisterCollectors dial req s)"
    using dom by (simp add: conn.adds_again)
  moreover have "conn_at s \<subseteq>\<^sub>m conn_at (RegisterCollectors dial req s)"
    unfolding r map_le_def by (auto simp: conn.adds_keep)
  moreover have "{a \<in> set ?as. reachable_addr dial a} = {a. dial a = Connected \<and> (\<exists>i. i \<in> set req \<and> i \<noteq> '''' \<and> a = ipToAddressString s i)}"
    using ne by (auto simp: reachable_addr_def)
  ultimately show ?thesis using dom by simp
qed

section \<open>Invariant of the connections\<close>

text \<open>
  A connection in the table is filed under its own address, its context has not been cancelled, and its goroutine is
  still waiting. (So no two connections share a context.)
\<close>

definition conn_ok :: "samplerServer \<Rightarrow> string \<Rightarrow> collectorConnection \<Rightarrow> bool" where
  "conn_ok s a c \<longleftrightarrow> cc_addr c = a \<and> a \<noteq> '''' \<and> cc_id c \<notin> set (sp_cancelled s) \<and> map_of (sp_watchers s) (cc_id c) = Some a"

definition conn_inv :: "samplerServer \<Rightarrow> bool" where
  "conn_inv s \<longleftrightarrow> gomap_wf (sp_collectorConnections s) \<and> (\<forall>a c. conn_at s a = Some c \<longrightarrow> conn_ok s a c)
     \<and> set (sp_cancelled s) \<subseteq> {..<sp_nextId s} \<and> fst ` set (sp_watchers s) \<subseteq> {..<sp_nextId s}"

lemma conn_inv_add: "conn_inv s \<Longrightarrow> conn_inv (addConnection dial s a)"
  unfolding addConnection_def
  by (auto simp: conn_inv_def conn_ok_def conn_at_def ghas_def map_add_def map_of_eq_None_iff less_Suc_eq subset_iff image_iff
      split: dialResult.split option.split) (metis fst_conv map_of_SomeD order_less_irrefl)+

lemma conn_inv_adds: "conn_inv s \<Longrightarrow> conn_inv (addConnectionsIfMissing dial as s)"
  unfolding addConnectionsIfMissing_def by (induction as arbitrary: s) (simp_all add: conn_inv_add)

lemma conn_inv_remove:
  assumes "conn_inv s"
  shows "conn_inv (removeConnection s a)"
proof (cases "conn_at s a")
  case None
  then have "removeConnection s a = s" by (simp add: removeConnection_def conn_at_def)
  with assms show ?thesis by simp
next
  case (Some c)
  let ?s = "removeConnection s a"
  have s: "sp_cancelled ?s = sp_cancelled s @ [cc_id c]" "sp_watchers ?s = sp_watchers s" "sp_nextId ?s = sp_nextId s"
    "gomap_wf (sp_collectorConnections s) \<Longrightarrow> gomap_wf (sp_collectorConnections ?s)"
    using Some by (simp_all add: removeConnection_def conn_at_def)
  have c: "conn_ok s a c" using assms Some by (simp add: conn_inv_def)
  then have "(cc_id c, a) \<in> set (sp_watchers s)" by (auto simp: conn_ok_def dest: map_of_SomeD)
  then have "cc_id c < sp_nextId s" using assms by (force simp: conn_inv_def)
  moreover have "conn_ok ?s b d" if "conn_at ?s b = Some d" for b d
  proof -
    from that have d: "b \<noteq> a" "conn_ok s b d"
      using assms by (auto simp: conn_at_removeConnection conn_inv_def split: if_splits)
    then have "cc_id d \<noteq> cc_id c" using c by (auto simp: conn_ok_def)
    with d show ?thesis by (simp add: conn_ok_def s)
  qed
  ultimately show ?thesis using assms by (auto simp: conn_inv_def s)
qed

lemma conn_inv_removes: "conn_inv s \<Longrightarrow> conn_inv (removeConnections as s)"
  unfolding removeConnections_def by (induction as arbitrary: s) (simp_all add: conn_inv_remove)

lemma conn_inv_shutdown:
  assumes "conn_inv s"
  shows "conn_inv (shutdownAllConnections s)"
proof -
  have "cc_id c < sp_nextId s" if "(a, c) \<in> set (sp_collectorConnections s)" for a c
  proof -
    have "conn_ok s a c" using assms that by (simp add: conn_inv_def conn_at_def gomap_wf_mem_iff)
    then have "(cc_id c, a) \<in> set (sp_watchers s)" by (auto simp: conn_ok_def dest: map_of_SomeD)
    then show ?thesis using assms by (force simp: conn_inv_def)
  qed
  then show ?thesis using assms by (auto simp: conn_inv_def shutdownAllConnections_def conn_at_def)
qed

lemma conn_inv_watcher: "conn_inv s \<Longrightarrow> conn_inv (runWatcher i s)"
proof -
  assume inv: "conn_inv s"
  have "conn_inv (s\<lparr>sp_watchers := AList.delete i (sp_watchers s)\<rparr>)" if "i \<in> set (sp_cancelled s)"
    using inv that by (auto simp: conn_inv_def conn_ok_def conn_at_def dest!: set_delete_subset [THEN subsetD])
  then show ?thesis using inv by (auto simp: runWatcher_def conn_inv_removes split: option.split)
qed

section \<open>Pushing\<close>

lemma unreachable_list: "unreachable send n c \<longleftrightarrow> list_all (\<lambda>i. \<not> send c i) [0..<Suc (nat n)]"
  by (auto simp: list_all_iff unreachable_def)

lemma getConnections_inv: "conn_inv s \<Longrightarrow> snd (getConnections s) = map fst (sp_collectorConnections s)"
  by (auto simp: getConnections_def conn_inv_def conn_ok_def conn_at_def gomap_wf_mem_iff)

lemma bad_iff:
  assumes "conn_inv s" "0 \<le> sp_SendPushMetricsRetryCount s" "(a, c) \<in> set (sp_collectorConnections s)"
  shows "a \<in> set (sendMetrics send s (fst (getConnections s))) \<longleftrightarrow> unreachable send (sp_SendPushMetricsRetryCount s) c"
proof -
  have "cc_addr d = b \<and> conn_at s b = Some d" if "(b, d) \<in> set (sp_collectorConnections s)" for b d
    using assms(1) that by (auto simp: conn_inv_def conn_ok_def conn_at_def gomap_wf_mem_iff)
  note conns = this
  have "a \<in> set (sendMetrics send s (fst (getConnections s))) \<longleftrightarrow>
      (\<exists>d. (a, d) \<in> set (sp_collectorConnections s) \<and> unreachable send (sp_SendPushMetricsRetryCount s) d)"
    using assms(2) conns by (force simp: sendMetrics_def sends_exact getConnections_def image_iff)
  then show ?thesis using assms(3) conns [of a] by (metis option.inject)
qed

lemma push_cases:
  "pushMetricsToAllCollectors conv send now reason s =
     (if lr_Containers (listing conv s) = [] then Some (None, [], s)
      else Some (Some ((listing conv s)\<lparr>lr_Timestamp := now, lr_Reason := reason\<rparr>),
             filter (\<lambda>a. a \<notin> set (sendMetrics send s (fst (getConnections s)))) (snd (getConnections s)),
             removeConnections (sendMetrics send s (fst (getConnections s))) s))"
  by (simp add: pushMetricsToAllCollectors_def ListMetrics_listing Let_def split_beta)

lemma sampler_event_step:
  assumes "conn_inv (ps_server p)" "list_all (\<lambda>(a, r). lr_Containers r \<noteq> []) (ps_sent p)"
  shows "\<exists>p'. sampler_event conv p ev = Some p' \<and> conn_inv (ps_server p') \<and> list_all (\<lambda>(a, r). lr_Containers r \<noteq> []) (ps_sent p')"
proof -
  have push: "\<exists>p'. push_as conv reason now send p = Some p' \<and> conn_inv (ps_server p') \<and> list_all (\<lambda>(a, r). lr_Containers r \<noteq> []) (ps_sent p')"
    for reason now send
    using assms by (auto simp: push_as_def push_cases list_all_iff intro: conn_inv_removes)
  have cache: "conn_inv (s\<lparr>sp_cache := c\<rparr>) \<longleftrightarrow> conn_inv s" for s c
    by (simp add: conn_inv_def conn_ok_def conn_at_def)
  show ?thesis
  proof (cases ev)
    case (Started now send)
    then show ?thesis using push [of "''initial-sync''" now send] by auto
  next
    case (Ticked now send)
    then show ?thesis using push [of "''periodic-sync''" now send] assms by auto
  next
    case (CreatedPodTicked now send)
    then show ?thesis using push [of "''found-new-pods''" now send] assms by auto
  next
    case (CtxDone now send)
    then show ?thesis using push [of "''sampler-shutdown''" now send] assms by (auto intro: conn_inv_shutdown)
  next
    case (Registered dial req)
    then show ?thesis using assms by (simp add: RegisterCollectors_def addConnectionsFromCollectors_def conn_inv_adds)
  next
    case (Resolved dial ips)
    then show ?thesis using assms by (simp add: addConnectionsFromIPs_def conn_inv_adds)
  next
    case (WatcherWoke i)
    then show ?thesis using assms by (simp add: conn_inv_watcher)
  next
    case (Sampled c)
    then show ?thesis using assms by (simp add: cache)
  qed
qed

lemma sampler_run:
  assumes "conn_inv (ps_server p)" "list_all (\<lambda>(a, r). lr_Containers r \<noteq> []) (ps_sent p)"
  shows "\<exists>p'. startPushToCollectors conv p evs = Some p' \<and> conn_inv (ps_server p') \<and> list_all (\<lambda>(a, r). lr_Containers r \<noteq> []) (ps_sent p')"
  using assms
proof (induction evs arbitrary: p)
  case Nil
  then show ?case by (simp add: startPushToCollectors_def)
next
  case (Cons ev evs)
  from sampler_event_step [OF Cons.prems] obtain q where
    q: "sampler_event conv p ev = Some q" "conn_inv (ps_server q)" "list_all (\<lambda>(a, r). lr_Containers r \<noteq> []) (ps_sent q)"
    by blast
  from Cons.IH [OF q(2,3)] show ?case by (simp add: startPushToCollectors_def q(1))
qed

definition fresh :: "pushState \<Rightarrow> bool" where
  "fresh p \<longleftrightarrow> sp_collectorConnections (ps_server p) = [] \<and> sp_watchers (ps_server p) = [] \<and> sp_cancelled (ps_server p) = []
     \<and> ps_sent p = []"

lemma conn_inv_fresh: "fresh p \<Longrightarrow> conn_inv (ps_server p) \<and> ps_sent p = []"
  by (simp add: fresh_def conn_inv_def conn_at_def)


definition ex_push :: pushState where
  "ex_push = \<lparr>ps_server = ex_sampler, ps_lastSent = None, ps_running = False, ps_sent = []\<rparr>"

lemma fresh_ex_push: "fresh ex_push"
  by (simp add: fresh_def ex_push_def ex_sampler_def)


text \<open>
  C37. A push, at any point of a run: with containers to report, the response is delivered to exactly the connected
  collectors that some attempt reaches, and these connections remain while the others are removed; without
  containers nothing is sent and no connection is touched.
\<close>

theorem push_delivers_or_disconnects:
  assumes "fresh p0" "startPushToCollectors conv p0 evs = Some p" "0 \<le> sp_SendPushMetricsRetryCount (ps_server p)"
    and "pushMetricsToAllCollectors conv send now reason (ps_server p) = Some (resp, reached, s')"
  shows "(resp = None \<longrightarrow> reached = [] \<and> s' = ps_server p)
     \<and> (resp \<noteq> None \<longrightarrow>
          set reached = {a. \<exists>c i. conn_at (ps_server p) a = Some c \<and> int i \<le> sp_SendPushMetricsRetryCount (ps_server p) \<and> send c i}
          \<and> conn_at s' = conn_at (ps_server p) |` set reached)"
proof -
  let ?s = "ps_server p" and ?bad = "sendMetrics send (ps_server p) (fst (getConnections (ps_server p)))"
  have inv: "conn_inv ?s" using sampler_run [of p0 conv evs] conn_inv_fresh [OF assms(1)] assms(2) by simp
  have mem: "(a, c) \<in> set (sp_collectorConnections ?s) \<longleftrightarrow> conn_at ?s a = Some c" for a c
    using inv by (simp add: conn_inv_def conn_at_def gomap_wf_mem_iff)
  have bad: "a \<in> set ?bad \<longleftrightarrow> (\<forall>i. int i \<le> sp_SendPushMetricsRetryCount ?s \<longrightarrow> \<not> send c i)" if "conn_at ?s a = Some c" for a c
    using bad_iff [OF inv assms(3), of a c send] that by (simp add: mem unreachable_alt [OF assms(3)])
  have addrs: "a \<in> set (snd (getConnections ?s)) \<longleftrightarrow> a \<in> dom (conn_at ?s)" for a
    using mem by (force simp: getConnections_inv [OF inv])
  have r: "set (filter (\<lambda>a. a \<notin> set ?bad) (snd (getConnections ?s)))
      = {a. \<exists>c i. conn_at ?s a = Some c \<and> int i \<le> sp_SendPushMetricsRetryCount ?s \<and> send c i}"
    using bad by (auto simp: addrs)
  have k: "conn_at (removeConnections ?bad ?s) = conn_at ?s |` set (filter (\<lambda>a. a \<notin> set ?bad) (snd (getConnections ?s)))"
    by (auto simp: conn_at_removeConnections restrict_map_def fun_eq_iff addrs)
  show ?thesis using assms(4) r k by (auto simp: push_cases split: if_splits)
qed

lemma ring_New_2: "ring_New 2 = \<lparr>rg_slots = [None, None], rg_pos = 0\<rparr>"
  by (simp add: ring_New_def numeral_2_eq_2)

definition ex_addr :: string where "ex_addr = ipToAddressString ex_sampler ''10.0.0.1''"

definition ex_conn :: "nat \<Rightarrow> collectorConnection" where "ex_conn i = \<lparr>cc_addr = ex_addr, cc_id = i\<rparr>"

definition ex_server_at :: "(string, collectorConnection) gomap \<Rightarrow> nat \<Rightarrow> (nat \<times> string) list \<Rightarrow> nat list \<Rightarrow> samplerServer" where
  "ex_server_at cs n ws is = ex_sampler\<lparr>sp_collectorConnections := cs, sp_nextId := n, sp_watchers := ws, sp_cancelled := is\<rparr>"

lemma ex_server_at_sel [simp]:
  "sp_collectorConnections (ex_server_at cs n ws is) = cs" "sp_nextId (ex_server_at cs n ws is) = n"
  "sp_watchers (ex_server_at cs n ws is) = ws" "sp_cancelled (ex_server_at cs n ws is) = is"
  "sp_SendPushMetricsRetryCount (ex_server_at cs n ws is) = 1"
  by (simp_all add: ex_server_at_def ex_sampler_def)

lemma ex_listing: "lr_Containers (listing (\<lambda>_. 0) (ex_server_at cs n ws is)) \<noteq> []"
  by (simp add: ex_server_at_def listing_def ex_sampler_def getAllSamples_def Let_def AddSample_def ex_cache_def ring_New_2 ring_Next_def
      ring_set_def ring_Do_def map_filter_simps ex_sample_def index_samples_def sample_ok_def ex_reader_def si_zero_def upt_rec)

lemma ex_register:
  "RegisterCollectors (\<lambda>_. Connected) [''10.0.0.1''] (ex_server_at [] n ws is)
     = ex_server_at [(ex_addr, ex_conn n)] (Suc n) (ws @ [(n, ex_addr)]) is"
  by (simp add: RegisterCollectors_def addConnectionsFromCollectors_def addConnectionsIfMissing_def addConnection_def ghas_def
      ex_addr_def ex_conn_def ex_server_at_def ex_sampler_def ipToAddressString_def)

lemma ex_send:
  "sendMetrics send (ex_server_at cs n ws is) [ex_conn i] = (if send (ex_conn i) 0 \<or> send (ex_conn i) 1 then [] else [ex_addr])"
  by (auto simp: sendMetrics_def sendOne_exact unreachable_def ex_conn_def le_Suc_eq)

lemma ex_push_cases:
  "\<exists>r. pushMetricsToAllCollectors (\<lambda>_. 0) send now reason (ex_server_at [(ex_addr, ex_conn i)] n ws is) =
     Some (if send (ex_conn i) 0 \<or> send (ex_conn i) 1 then (Some r, [ex_addr], ex_server_at [(ex_addr, ex_conn i)] n ws is)
           else (Some r, [], ex_server_at [] n ws (is @ [i])))"
  by (simp add: push_cases ex_listing getConnections_def ex_send removeConnections_def removeConnection_def)
    (simp add: ex_server_at_def ex_conn_def)

theorem push_delivers_or_disconnects_witness:
  "\<exists>r s'. pushMetricsToAllCollectors (\<lambda>_. 0) (\<lambda>_ i. i = 1) 5 ''initial-sync'' (ex_server_at [(ex_addr, ex_conn 0)] 1 [(0, ex_addr)] [])
       = Some (Some r, [ex_addr], s') \<and> conn_at s' ex_addr = Some (ex_conn 0)"
proof -
  let ?p = "\<lparr>ps_server = ex_server_at [] 0 [] [], ps_lastSent = None, ps_running = False, ps_sent = []\<rparr>"
  let ?s = "ex_server_at [(ex_addr, ex_conn 0)] 1 [(0, ex_addr)] []"
  have 1: "fresh ?p" by (simp add: fresh_def)
  have 2: "startPushToCollectors (\<lambda>_. 0) ?p [Registered (\<lambda>_. Connected) [''10.0.0.1'']] = Some (?p\<lparr>ps_server := ?s\<rparr>)"
    by (simp add: startPushToCollectors_def ex_register)
  from ex_push_cases [of "\<lambda>_ i. i = 1" 5 "''initial-sync''" 0 1 "[(0, ex_addr)]" "[]"] obtain r where
    3: "pushMetricsToAllCollectors (\<lambda>_. 0) (\<lambda>_ i. i = 1) 5 ''initial-sync'' ?s = Some (Some r, [ex_addr], ?s)" by auto
  have "conn_at ?s = conn_at ?s |` set [ex_addr]"
    using push_delivers_or_disconnects [OF 1 2, of "\<lambda>_ i. i = 1" 5 "''initial-sync''" "Some r" "[ex_addr]" ?s] 3 by auto
  then have "conn_at ?s ex_addr = Some (ex_conn 0)" by (simp add: conn_at_def)
  with 3 show ?thesis by blast
qed

text \<open>
  The goroutine of a connection that was given up removes whatever is connected to the address by then: after a
  failed push and a new registration of the same collector, it closes the new connection, on which no send has
  ever failed.
\<close>

theorem stale_watcher_closes_new_connection:
  "\<exists>p1 p2 c. startPushToCollectors (\<lambda>_. 0) ex_push
       [Registered (\<lambda>_. Connected) [''10.0.0.1''], Started 5 (\<lambda>_ _. False), Registered (\<lambda>_. Connected) [''10.0.0.1'']] = Some p1
     \<and> conn_at (ps_server p1) ex_addr = Some c \<and> cc_id c \<noteq> 0
     \<and> sampler_event (\<lambda>_. 0) p1 (WatcherWoke 0) = Some p2
     \<and> conn_at (ps_server p2) ex_addr = None \<and> cc_id c \<in> set (sp_cancelled (ps_server p2))"
proof -
  have e: "ex_push = \<lparr>ps_server = ex_server_at [] 0 [] [], ps_lastSent = None, ps_running = False, ps_sent = []\<rparr>"
    by (simp add: ex_push_def ex_server_at_def ex_sampler_def)
  obtain r where r: "pushMetricsToAllCollectors (\<lambda>_. 0) (\<lambda>_ _. False) 5 ''initial-sync'' (ex_server_at [(ex_addr, ex_conn 0)] 1 [(0, ex_addr)] [])
      = Some (Some r, [], ex_server_at [] 1 [(0, ex_addr)] [0])"
    using ex_push_cases [of "\<lambda>_ _. False" 5 "''initial-sync''" 0 1 "[(0, ex_addr)]" "[]"] by auto
  let ?s = "ex_server_at [(ex_addr, ex_conn 1)] 2 [(0, ex_addr), (1, ex_addr)] [0]"
  let ?p1 = "\<lparr>ps_server = ?s, ps_lastSent = Some r, ps_running = True, ps_sent = []\<rparr>"
  have "startPushToCollectors (\<lambda>_. 0) ex_push
       [Registered (\<lambda>_. Connected) [''10.0.0.1''], Started 5 (\<lambda>_ _. False), Registered (\<lambda>_. Connected) [''10.0.0.1'']] = Some ?p1"
    using r by (simp add: startPushToCollectors_def e ex_register push_as_def numeral_2_eq_2)
  moreover have "runWatcher 0 ?s = ex_server_at [] 2 [(1, ex_addr)] [0, 1]"
    by (simp add: runWatcher_def removeConnections_def removeConnection_def ex_conn_def) (simp add: ex_server_at_def)
  ultimately show ?thesis by (simp add: conn_at_def) (simp add: ex_conn_def)
qed

end
