(* ===== verification/Sampler_Config.thy ===== *)
theory Sampler_Config
  imports Sampler_Server_Props
begin

text \<open>
  How a sampler starts: the configuration of \<^verbatim>\<open>pkg/api/samplerserverv1alpha1/types.go\<close> with its defaults, the
  part of \<^verbatim>\<open>Server.Start\<close> and \<^verbatim>\<open>startCache\<close> in \<^verbatim>\<open>pkg/sampler/server.go\<close> that runs before the goroutines,
  \<^verbatim>\<open>RunE\<close> of \<^verbatim>\<open>cmd/metrics-node-sampler\<close>, and the loop of \<^verbatim>\<open>sampleCache.Start\<close>. Reading files, the YAML
  decoder, the containerd client and the number of attempts of \<^verbatim>\<open>retry.DefaultRetry\<close> are arguments. A nil
  slice, map or pointer is \<^const>\<open>None\<close>.
\<close>

section \<open>Duration strings\<close>

text \<open>\<^verbatim>\<open>time.ParseDuration\<close>: numbers with units, summed. A string is its bytes, so the micro sign takes two.\<close>

definition unitMap :: "(string, int) gomap" where
  "unitMap =
     [(''ns'', 1), (''us'', 10 ^ 3), ([CHR 0xC2, CHR 0xB5, CHR ''s''], 10 ^ 3), ([CHR 0xCE, CHR 0xBC, CHR ''s''], 10 ^ 3),
      (''ms'', 10 ^ 6), (''s'', Second), (''m'', Minute), (''h'', 60 * Minute)]"

fun leadingInt :: "nat \<Rightarrow> string \<Rightarrow> (nat \<times> string) option" where
  "leadingInt x [] = Some (x, [])"
| "leadingInt x (c # s) =
     (case digit_val c of
        None \<Rightarrow> Some (x, c # s)
      | Some d \<Rightarrow> if x > 2 ^ 63 div 10 \<or> x * 10 + d > 2 ^ 63 then None else leadingInt (x * 10 + d) s)"

fun leadingFraction :: "bool \<Rightarrow> nat \<Rightarrow> nat \<Rightarrow> string \<Rightarrow> nat \<times> nat \<times> string" where
  "leadingFraction overflow x scale [] = (x, scale, [])"
| "leadingFraction overflow x scale (c # s) =
     (case digit_val c of
        None \<Rightarrow> (x, scale, c # s)
      | Some d \<Rightarrow>
          if overflow \<or> x > (2 ^ 63 - 1) div 10 \<or> x * 10 + d > 2 ^ 63 then leadingFraction True x scale s
          else leadingFraction False (x * 10 + d) (scale * 10) s)"

fun f64_mul :: "float64 \<Rightarrow> float64 \<Rightarrow> float64" where
  "f64_mul (Fin a) (Fin b) = f64_of_rat (a * b)"
| "f64_mul NaN _ = NaN"
| "f64_mul _ NaN = NaN"
| "f64_mul (Fin a) PInf = (if a = 0 then NaN else if 0 < a then PInf else NInf)"
| "f64_mul (Fin a) NInf = (if a = 0 then NaN else if 0 < a then NInf else PInf)"
| "f64_mul PInf (Fin a) = (if a = 0 then NaN else if 0 < a then PInf else NInf)"
| "f64_mul NInf (Fin a) = (if a = 0 then NaN else if 0 < a then NInf else PInf)"
| "f64_mul PInf PInf = PInf"
| "f64_mul PInf NInf = NInf"
| "f64_mul NInf PInf = NInf"
| "f64_mul NInf NInf = PInf"

definition unit_char :: "char \<Rightarrow> bool" where
  "unit_char c \<longleftrightarrow> c \<noteq> CHR ''.'' \<and> digit_val c = None"

text \<open>One number with its unit: its nanoseconds, and the rest of the string.\<close>

definition parse_term :: "(float64 \<Rightarrow> u64) \<Rightarrow> string \<Rightarrow> (int \<times> string) option" where
  "parse_term conv s =
     (case leadingInt 0 s of
        None \<Rightarrow> None
      | Some (v, s1) \<Rightarrow>
         (let pre = length s1 \<noteq> length s;
              dot = s1 \<noteq> [] \<and> hd s1 = CHR ''.'';
              (f, scale, s2) = (if dot then leadingFraction False 0 1 (tl s1) else (0, 1, s1));
              post = dot \<and> length s2 \<noteq> length (tl s1);
              u = takeWhile unit_char s2; rest = dropWhile unit_char s2
          in if \<not> pre \<and> \<not> post \<or> u = [] then None
             else case map_of unitMap u of
                    None \<Rightarrow> None
                  | Some unit \<Rightarrow>
                      if int v > 2 ^ 63 div unit then None
                      else (let n = int v * unit
                                  + (if f > 0
                                     then uint (f64_to_u64 conv (f64_mul (f64_of_int (int f)) (f64_div (f64_of_int unit) (f64_of_int (int scale)))))
                                     else 0)
                            in if n > 2 ^ 63 then None else Some (n, rest))))"

lemma leadingInt_length: "leadingInt x s = Some (v, r) \<Longrightarrow> length r \<le> length s"
  by (induction x s rule: leadingInt.induct) (auto split: option.splits if_splits)

lemma leadingFraction_length: "length (snd (snd (leadingFraction b x k s))) \<le> length s"
  by (induction b x k s rule: leadingFraction.induct) (auto split: option.splits)

lemma parse_term_length:
  assumes "parse_term conv s = Some (n, rest)"
  shows "length rest < length s"
proof -
  obtain v s1 where l: "leadingInt 0 s = Some (v, s1)" using assms by (auto simp: parse_term_def split: option.splits)
  let ?dot = "s1 \<noteq> [] \<and> hd s1 = CHR ''.''"
  obtain f k s2 where s2: "(if ?dot then leadingFraction False 0 1 (tl s1) else (0, 1, s1)) = (f, k, s2)" by (cases "(if ?dot then leadingFraction False 0 1 (tl s1) else (0, 1, s1))")
  have "length s2 \<le> length s1"
  proof (cases ?dot)
    case True
    then show ?thesis using s2 leadingFraction_length [of False 0 1 "tl s1"] by simp
  next
    case False
    with s2 show ?thesis by simp
  qed
  moreover have "takeWhile unit_char s2 \<noteq> []" "rest = dropWhile unit_char s2"
    using assms l s2 by (auto simp: parse_term_def Let_def split: option.splits if_splits)
  moreover from this(1) have "length (dropWhile unit_char s2) < length s2"
    by (metis add.commute length_append length_greater_0_conv less_add_same_cancel1 takeWhile_dropWhile_id)
  ultimately show ?thesis using leadingInt_length [OF l] by simp
qed

function parse_terms :: "(float64 \<Rightarrow> u64) \<Rightarrow> int \<Rightarrow> string \<Rightarrow> int option" where
  "parse_terms conv d s =
     (if s = [] then Some d
      else case parse_term conv s of
             None \<Rightarrow> None
           | Some (n, rest) \<Rightarrow>
               (let d = (d + n) mod 2 ^ 64 in if d > 2 ^ 63 then None else parse_terms conv d rest))"
  by pat_completeness auto
termination by (relation "measure (\<lambda>(_, _, s). length s)") (auto dest: parse_term_length)

declare parse_terms.simps [simp del]

definition ParseDuration :: "(float64 \<Rightarrow> u64) \<Rightarrow> string \<Rightarrow> duration option" where
  "ParseDuration conv s =
     (let neg = s \<noteq> [] \<and> hd s = CHR ''-'';
          s = (if s \<noteq> [] \<and> (hd s = CHR ''-'' \<or> hd s = CHR ''+'') then tl s else s)
      in if s = ''0'' then Some 0
         else if s = [] then None
         else case parse_terms conv 0 s of
                None \<Rightarrow> None
              | Some d \<Rightarrow> if neg then Some (- d) else if d > 2 ^ 63 - 1 then None else Some d)"

lemma parse_duration_defaults: "ParseDuration conv ''1m'' = Some Minute" "ParseDuration conv ''6s'' = Some (6 * Second)"
  by (simp_all add: ParseDuration_def parse_terms.simps parse_term_def digit_val_def unit_char_def unitMap_def Minute_def Second_def)

section \<open>Configuration\<close>

record buffer =
  bu_Size :: int
  bu_PollsPerMinute :: int

record samplerReader =
  sd_CGroupVersion :: string
  sd_CPUPaths :: "string list option"
  sd_MemoryPaths :: "string list option"
  sd_PodPrefix :: "string list option"
  sd_PodSuffix :: "string list option"
  sd_ContainerPrefix :: "string list option"
  sd_ContainerSuffix :: "string list option"
  sd_PodReplacements :: "strmap option"
  sd_ContainerReplacements :: "strmap option"
  sd_ParentDirectories :: "string list option"
  sd_NodeAggregationLevelGlobs :: "string list option"
  sd_ContainerCacheSyncIntervalSeconds :: "float64 option"
  sd_MinCPUCoresSampleValue :: float64
  sd_MaxCPUCoresSampleValue :: float64
  sd_MinCPUCoresNanoSec :: int
  sd_MaxCPUCoresNanoSec :: u64
  sd_DropFirstValue :: "bool option"

record metricsNodeSampler =
  mn_Buffer :: buffer
  mn_Reader :: samplerReader
  mn_PBPort :: int
  mn_RestPort :: int
  mn_Address :: string
  mn_SendPushMetricsRetryCount :: int
  mn_PushHeadlessService :: string
  mn_PushHeadlessServicePort :: int
  mn_PushFrequency :: string
  mn_CheckCreatedPodFrequency :: string
  mn_ExitOnConfigChange :: bool
  mn_UseCadvisorMonitor :: bool
  mn_CadvisorProtocol :: string
  mn_CadvisorPort :: string
  mn_CadvisorPath :: string
  mn_CadvisorToken :: string
  mn_UseContainerMonitor :: bool
  mn_ContainerdAddress :: string
  mn_ContainerdNamespace :: string
  mn_DNSPollSeconds :: int

definition DefaultNodeAggregationLevels :: "string list" where
  "DefaultNodeAggregationLevels =
     [''kubelet/kubepods'', ''kubelet/kubepods/besteffort'', ''kubelet/kubepods/burstable'', ''kubelet/kubepods/guaranteed'']"

definition DefaultMetricsReaderCPUPathsV1 :: "string list" where
  "DefaultMetricsReaderCPUPathsV1 = [''sys/fs/cgroup/cpu,cpuacct'', ''sys/fs/cgroup/cpuacct'', ''sys/fs/cgroup/cpu'']"

definition DefaultMetricsReaderMemoryPathsV1 :: "string list" where
  "DefaultMetricsReaderMemoryPathsV1 = [''sys/fs/cgroup/memory'']"

definition DefaultMetricsReaderUnifiedPathV2 :: "string list" where
  "DefaultMetricsReaderUnifiedPathV2 = [''sys/fs/cgroup'']"

definition DefaultContainerSuffix :: "string list" where
  "DefaultContainerSuffix = [''.slice'', ''.scope'']"

definition DefaultContainerPrefix :: "string list" where
  "DefaultContainerPrefix = [''cri-containerd-'']"

definition DefaultPodSuffix :: "string list" where
  "DefaultPodSuffix = [''.slice'', ''.scope'']"

definition DefaultPodPrefix :: "string list" where
  "DefaultPodPrefix =
     [''kubelet-kubepods-burstable-pod'', ''kubelet-kubepods-besteffort-pod'', ''kubelet-kubepods-pod'', ''pod'']"

definition DefaultReplacements :: strmap where
  "DefaultReplacements = [(''_'', ''-'')]"

definition DefaultParentDirectories :: "string list" where
  "DefaultParentDirectories =
     [''kubelet-kubepods-besteffort.slice'', ''kubelet-kubepods-burstable.slice'', ''kubelet-kubepods.slice'', ''kubelet.slice'']"

definition or_nil :: "'a option \<Rightarrow> 'a \<Rightarrow> 'a option" where
  "or_nil x d = (case x of None \<Rightarrow> Some d | Some _ \<Rightarrow> x)"

definition or_zero :: "'a \<Rightarrow> 'a \<Rightarrow> 'a \<Rightarrow> 'a" where
  "or_zero z x d = (if x = z then d else x)"

definition f64_le :: "float64 \<Rightarrow> float64 \<Rightarrow> bool" where
  "f64_le a b \<longleftrightarrow> f64_less a b \<or> a = b \<and> a \<noteq> NaN"

text \<open>The paths depend on the version: an unknown version leaves them nil.\<close>

definition default_paths :: "string \<Rightarrow> string list \<Rightarrow> string list \<Rightarrow> string list option \<Rightarrow> string list option" where
  "default_paths version v1 v2 paths =
     (if paths = None \<and> version = ''v1'' then Some v1 else if paths = None \<and> version = ''v2'' then Some v2 else paths)"

definition default_reader :: "(float64 \<Rightarrow> u64) \<Rightarrow> (float64 \<Rightarrow> int) \<Rightarrow> samplerReader \<Rightarrow> samplerReader" where
  "default_reader conv iconv r =
     (let version = or_zero '''' (sd_CGroupVersion r) ''v1'';
          maxCores = (if f64_le (sd_MaxCPUCoresSampleValue r) (Fin 0) then Fin 512 else sd_MaxCPUCoresSampleValue r)
      in r\<lparr>sd_ContainerPrefix := or_nil (sd_ContainerPrefix r) DefaultContainerPrefix,
           sd_ContainerSuffix := or_nil (sd_ContainerSuffix r) DefaultContainerSuffix,
           sd_PodPrefix := or_nil (sd_PodPrefix r) DefaultPodPrefix,
           sd_PodSuffix := or_nil (sd_PodSuffix r) DefaultPodSuffix,
           sd_ContainerReplacements := or_nil (sd_ContainerReplacements r) DefaultReplacements,
           sd_PodReplacements := or_nil (sd_PodReplacements r) DefaultReplacements,
           sd_ParentDirectories := or_nil (sd_ParentDirectories r) DefaultParentDirectories,
           sd_ContainerCacheSyncIntervalSeconds := or_nil (or_nil (sd_ContainerCacheSyncIntervalSeconds r) (Fin 1)) (Fin 10),
           sd_CGroupVersion := version,
           sd_CPUPaths := default_paths version DefaultMetricsReaderCPUPathsV1 DefaultMetricsReaderUnifiedPathV2 (sd_CPUPaths r),
           sd_MemoryPaths := default_paths version DefaultMetricsReaderMemoryPathsV1 DefaultMetricsReaderUnifiedPathV2 (sd_MemoryPaths r),
           sd_NodeAggregationLevelGlobs := or_nil (sd_NodeAggregationLevelGlobs r) DefaultNodeAggregationLevels,
           sd_MaxCPUCoresSampleValue := maxCores,
           sd_MaxCPUCoresNanoSec := or_zero 0 (sd_MaxCPUCoresNanoSec r) (f64_to_u64 conv (f64_mul (Fin (10 ^ 9)) maxCores)),
           sd_MinCPUCoresNanoSec := or_zero 0 (sd_MinCPUCoresNanoSec r)
             (f64_to_i64 iconv (f64_mul (Fin (10 ^ 9)) (sd_MinCPUCoresSampleValue r)))\<rparr>)"

definition Default :: "(float64 \<Rightarrow> u64) \<Rightarrow> (float64 \<Rightarrow> int) \<Rightarrow> metricsNodeSampler \<Rightarrow> metricsNodeSampler" where
  "Default conv iconv s =
     s\<lparr>mn_Reader := default_reader conv iconv (mn_Reader s),
       mn_PBPort := or_zero 0 (mn_PBPort s) 8080,
       mn_RestPort := or_zero 0 (mn_RestPort s) 8090,
       mn_Buffer := \<lparr>bu_Size = or_zero 0 (bu_Size (mn_Buffer s)) 900,
                     bu_PollsPerMinute = or_zero 0 (bu_PollsPerMinute (mn_Buffer s)) 60\<rparr>,
       mn_PushHeadlessServicePort := or_zero 0 (mn_PushHeadlessServicePort s) 9090,
       mn_PushFrequency := or_zero '''' (mn_PushFrequency s) ''1m'',
       mn_CheckCreatedPodFrequency := or_zero '''' (mn_CheckCreatedPodFrequency s) ''6s'',
       mn_SendPushMetricsRetryCount := (if mn_SendPushMetricsRetryCount s < 0 then 0 else mn_SendPushMetricsRetryCount s),
       mn_ContainerdAddress := or_zero '''' (mn_ContainerdAddress s) ''/run/containerd/containerd.sock'',
       mn_ContainerdNamespace := or_zero '''' (mn_ContainerdNamespace s) ''default''\<rparr>"

section \<open>Start\<close>

text \<open>The reader of \<^verbatim>\<open>cgroup.go\<close> ranges over these slices and maps: nil is read as empty.\<close>

definition reader_of :: "samplerReader \<Rightarrow> reader" where
  "reader_of r =
     (let list = (\<lambda>x. case x of None \<Rightarrow> [] | Some xs \<Rightarrow> xs)
      in \<lparr>rd_CGroupVersion = sd_CGroupVersion r, rd_CPUPaths = list (sd_CPUPaths r), rd_MemoryPaths = list (sd_MemoryPaths r),
          rd_PodPrefix = list (sd_PodPrefix r), rd_PodSuffix = list (sd_PodSuffix r),
          rd_ContainerPrefix = list (sd_ContainerPrefix r), rd_ContainerSuffix = list (sd_ContainerSuffix r),
          rd_PodReplacements = (case sd_PodReplacements r of None \<Rightarrow> [] | Some m \<Rightarrow> m),
          rd_ContainerReplacements = (case sd_ContainerReplacements r of None \<Rightarrow> [] | Some m \<Rightarrow> m),
          rd_ParentDirectories = list (sd_ParentDirectories r),
          rd_NodeAggregationLevelGlobs = list (sd_NodeAggregationLevelGlobs r),
          rd_MinCPUCoresNanoSec = sd_MinCPUCoresNanoSec r, rd_MaxCPUCoresNanoSec = sd_MaxCPUCoresNanoSec r,
          rd_DropFirstValue = sd_DropFirstValue r\<rparr>)"

definition metricsReader_zero :: "reader \<Rightarrow> metricsReader" where
  "metricsReader_zero r =
     \<lparr>mr_Reader = r, mr_cpuFiles = [], mr_memoryFiles = [], mr_nodeCPUFiles = [], mr_nodeMemoryFiles = [], mr_once = None,
      mr_knownContainersSet = None\<rparr>"

text \<open>
  The cache that \<^verbatim>\<open>startCache\<close> sets up and \<^verbatim>\<open>init\<close> completes, and the address of cAdvisor. A ring of no or
  a negative size is nil, here the ring without slots.
\<close>

definition startCache :: "(string \<Rightarrow> string \<Rightarrow> bool) \<Rightarrow> string \<Rightarrow> metricsNodeSampler \<Rightarrow> (sampleCache \<times> string option) option" where
  "startCache containerd hostName s =
     (if mn_UseContainerMonitor s \<and> \<not> containerd (mn_ContainerdAddress s) (mn_ContainerdNamespace s) then None
      else
        (let r = reader_of (mn_Reader s);
             c = \<lparr>ca_Size = nat (bu_Size (mn_Buffer s)), ca_metricsReader = metricsReader_zero r, ca_samples = ring_New 0,
                  ca_UseContainerMonitor = mn_UseContainerMonitor s, ca_UseCadvisorMonitor = mn_UseCadvisorMonitor s\<rparr>;
             url = mn_CadvisorProtocol s @ ''://'' @ hostName @ '':'' @ mn_CadvisorPort s @ ''/'' @ mn_CadvisorPath s
         in Some (cache_init r c, if mn_UseCadvisorMonitor s then Some url else None)))"

definition go_quot :: "int \<Rightarrow> int \<Rightarrow> int" where
  "go_quot a b = sgn a * sgn b * (\<bar>a\<bar> div \<bar>b\<bar>)"

record startedSampler =
  sm_server :: samplerServer
  sm_cadvisorURL :: "string option"
  sm_pushFrequency :: duration
  sm_checkCreatedPodFrequency :: duration
  sm_pollFrequency :: duration
  sm_dnsFrequency :: duration

text \<open>
  \<^verbatim>\<open>Start\<close> up to its goroutines. The poll frequency divides the minute in \<^verbatim>\<open>sampleCache.Start\<close>, the DNS
  frequency is the one of \<^verbatim>\<open>startRegisterCollectorsFromDNS\<close>; each goes to a ticker of its goroutine.
\<close>

definition sampler_Start ::
  "(float64 \<Rightarrow> u64) \<Rightarrow> (float64 \<Rightarrow> int) \<Rightarrow> (string \<Rightarrow> string \<Rightarrow> bool) \<Rightarrow> string \<Rightarrow> string \<Rightarrow> bool \<Rightarrow> string \<Rightarrow>
   metricsNodeSampler \<Rightarrow> samplerStartError + startedSampler" where
  "sampler_Start conv iconv containerd nodeName podName sortResults hostName s =
     (let poll = or_zero 0 (mn_DNSPollSeconds s) 60; s = Default conv iconv s
      in case start_frequencies (ParseDuration conv) (mn_PushFrequency s) (mn_CheckCreatedPodFrequency s) of
           Inl e \<Rightarrow> Inl e
         | Inr (push, check) \<Rightarrow>
            (case startCache containerd hostName s of
               None \<Rightarrow> Inl ContainerdFailed
             | Some (cache, url) \<Rightarrow>
                 Inr \<lparr>sm_server =
                        \<lparr>sp_cache = cache, sp_Reader = reader_of (mn_Reader s), sp_SortResults = sortResults,
                         sp_SendPushMetricsRetryCount = mn_SendPushMetricsRetryCount s,
                         sp_PushHeadlessServicePort = mn_PushHeadlessServicePort s, sp_collectorConnections = [], sp_nextId = 0,
                         sp_watchers = [], sp_cancelled = [], sp_nodeName = nodeName, sp_podName = podName\<rparr>,
                      sm_cadvisorURL = url, sm_pushFrequency = push, sm_checkCreatedPodFrequency = check,
                      sm_pollFrequency = go_quot Minute (bu_PollsPerMinute (mn_Buffer s)),
                      sm_dnsFrequency = int64_wrap (poll * Second)\<rparr>))"

datatype runError = LogLevelFailed | ConfigUnreadable | ConfigMalformed | HostNameUnreadable | StartFailed samplerStartError

text \<open>
  \<^verbatim>\<open>RunE\<close>: the decoder gives the configuration, the host name and whether results are sorted. What happens on a
  change of the configuration is the watcher's part.
\<close>

definition sampler_RunE ::
  "(string \<Rightarrow> string option) \<Rightarrow> (string \<Rightarrow> (metricsNodeSampler \<times> string \<times> bool) option) \<Rightarrow> (string \<Rightarrow> bool) \<Rightarrow>
   (bool \<Rightarrow> string \<Rightarrow> metricsNodeSampler \<Rightarrow> samplerStartError + startedSampler) \<Rightarrow>
   string \<Rightarrow> string \<Rightarrow> string \<Rightarrow> runError + startedSampler" where
  "sampler_RunE ReadFile UnmarshalStrict WatchLevel Start logPath configFilepath hostNameFilepath =
     (if logPath \<noteq> '''' \<and> \<not> WatchLevel logPath then Inl LogLevelFailed
      else case ReadFile configFilepath of
        None \<Rightarrow> Inl ConfigUnreadable
      | Some b \<Rightarrow>
         (case UnmarshalStrict b of
            None \<Rightarrow> Inl ConfigMalformed
          | Some (s, hostName, sortResults) \<Rightarrow>
             (let start = (\<lambda>h. case Start sortResults h s of Inl e \<Rightarrow> Inl (StartFailed e) | Inr st \<Rightarrow> Inr st)
              in if hostNameFilepath = '''' then start hostName
                 else case ReadFile hostNameFilepath of
                        None \<Rightarrow> Inl HostNameUnreadable
                      | Some v \<Rightarrow> start (TrimSuffix v [newline]))))"

section \<open>The sampling loop\<close>

text \<open>
  A nil ring (no or a negative size) panics where the last sample is looked up and where a sample is added.
\<close>

definition fetch_attempt :: "(float64 \<Rightarrow> u64) \<Rightarrow> samplerInputs \<Rightarrow> sampleCache \<Rightarrow> gofail option \<times> sampleCache" where
  "fetch_attempt conv i s =
     (let (err, s') = fetchSample conv i s;
          (res, r) = (if ca_UseContainerMonitor s
                      then getContainerCPUAndMemoryCM (in_fs i) (in_containerd i) (ca_metricsReader s)
                      else getContainerCPUAndMemory (in_fs i) (ca_metricsReader s))
      in if rg_slots (ca_samples s) \<noteq> [] then (err, s')
         else case res of
                Inl e \<Rightarrow> (Some e, s')
              | Inr (cpu, _) \<Rightarrow> if cpu \<noteq> [] \<or> err = None then (Some GoPanic, s') else (err, s'))"

text \<open>
  \<^verbatim>\<open>retry.OnError\<close>: attempts until one succeeds, at most as many as the list has, and then the last error. A
  panic is not retried.
\<close>

fun retry_fetch :: "(float64 \<Rightarrow> u64) \<Rightarrow> gofail option \<Rightarrow> samplerInputs list \<Rightarrow> sampleCache \<Rightarrow> gofail option \<times> sampleCache" where
  "retry_fetch conv lastErr [] s = (lastErr, s)"
| "retry_fetch conv lastErr (i # is) s =
     (case fetch_attempt conv i s of
        (Some GoError, s') \<Rightarrow> retry_fetch conv (Some GoError) is s'
      | r \<Rightarrow> r)"

datatype cacheEvent = CacheDone | CacheTick "samplerInputs list"
datatype cacheOutcome = Sampling | SamplerStopped | SamplerFailed gofail

text \<open>A tick brings what each attempt would read; \<^verbatim>\<open>steps\<close> is the number of attempts.\<close>

fun sampling_loop :: "(float64 \<Rightarrow> u64) \<Rightarrow> nat \<Rightarrow> cacheEvent list \<Rightarrow> sampleCache \<Rightarrow> cacheOutcome \<times> sampleCache" where
  "sampling_loop conv steps [] s = (Sampling, s)"
| "sampling_loop conv steps (CacheDone # evs) s = (SamplerStopped, s)"
| "sampling_loop conv steps (CacheTick is # evs) s =
     (case retry_fetch conv None (take steps is) s of
        (None, s') \<Rightarrow> sampling_loop conv steps evs s'
      | (Some e, s') \<Rightarrow> (SamplerFailed e, s'))"

text \<open>A ticker panics where its duration is not positive.\<close>

definition cache_Start :: "(float64 \<Rightarrow> u64) \<Rightarrow> nat \<Rightarrow> duration \<Rightarrow> cacheEvent list \<Rightarrow> sampleCache \<Rightarrow> cacheOutcome \<times> sampleCache" where
  "cache_Start conv steps frequency evs s =
     (if frequency \<le> 0 then (SamplerFailed GoPanic, s) else sampling_loop conv steps evs s)"

section \<open>Defaults\<close>

lemma or_nil_or_nil [simp]: "or_nil (or_nil x d) d' = or_nil x d"
  by (simp add: or_nil_def split: option.split)

lemma or_zero_or_zero: "d = z \<longrightarrow> d' = z \<Longrightarrow> or_zero z (or_zero z x d) d' = (if x = z \<and> d = z then d' else or_zero z x d)"
  by (simp add: or_zero_def)

lemma default_paths_idem [simp]: "default_paths v a b (default_paths v a b p) = default_paths v a b p"
  by (simp add: default_paths_def)

lemma f64_le_512 [simp]: "\<not> f64_le (Fin 512) (Fin 0)"
  by (simp add: f64_le_def)

lemma default_reader_idem: "default_reader conv iconv (default_reader conv iconv r) = default_reader conv iconv r"
  by (simp add: default_reader_def Let_def) (simp add: or_zero_def)

lemma Default_idem: "Default conv iconv (Default conv iconv s) = Default conv iconv s"
  by (simp add: Default_def default_reader_idem) (simp add: or_zero_def)

lemma quot_minute_pos: "0 < go_quot Minute n \<longleftrightarrow> 0 < n \<and> n \<le> Minute"
proof -
  have "0 < Minute div n \<longleftrightarrow> n \<le> Minute" if "0 < n" using that by (simp add: pos_imp_zdiv_pos_iff)
  moreover have m: "0 < Minute" by (simp add: Minute_def)
  moreover have "\<not> Minute div - n < 0" if "n < 0" using that m by (simp add: pos_imp_zdiv_neg_iff)
  ultimately show ?thesis by (cases "0 < n") (auto simp: go_quot_def zero_less_mult_iff sgn_if)
qed

lemma start_frequencies_bounds:
  "start_frequencies p a b = Inr (push, check) \<Longrightarrow> p a = Some push \<and> p b = Some check \<and> 10 * Second \<le> push \<and> Second \<le> check"
  by (auto simp: start_frequencies_def split: option.splits if_splits)

lemma sampler_Start_Inr:
  assumes "sampler_Start conv iconv containerd nodeName podName sortResults hostName s = Inr st"
  shows "start_frequencies (ParseDuration conv) (or_zero '''' (mn_PushFrequency s) ''1m'') (or_zero '''' (mn_CheckCreatedPodFrequency s) ''6s'')
       = Inr (sm_pushFrequency st, sm_checkCreatedPodFrequency st)"
    and "sp_SendPushMetricsRetryCount (sm_server st) = max 0 (mn_SendPushMetricsRetryCount s)"
    and "sp_PushHeadlessServicePort (sm_server st) = or_zero 0 (mn_PushHeadlessServicePort s) 9090"
    and "sp_Reader (sm_server st) = reader_of (default_reader conv iconv (mn_Reader s))"
    and "mr_Reader (ca_metricsReader (sp_cache (sm_server st))) = sp_Reader (sm_server st)"
    and "mr_once (ca_metricsReader (sp_cache (sm_server st))) = None"
    and "ca_samples (sp_cache (sm_server st)) = ring_New (nat (or_zero 0 (bu_Size (mn_Buffer s)) 900))"
    and "sm_pollFrequency st = go_quot Minute (or_zero 0 (bu_PollsPerMinute (mn_Buffer s)) 60)"
    and "sm_dnsFrequency st = int64_wrap (or_zero 0 (mn_DNSPollSeconds s) 60 * Second)"
  using assms
  by (auto simp: sampler_Start_def Let_def Default_def startCache_def cache_init_def metricsReader_zero_def split: sum.splits option.splits if_splits)

lemma default_reader_paths:
  assumes "rd_CGroupVersion (reader_of (default_reader conv iconv r)) \<in> {''v1'', ''v2''}"
    and "sd_CPUPaths r \<noteq> Some []" "sd_MemoryPaths r \<noteq> Some []"
  shows "rd_CPUPaths (reader_of (default_reader conv iconv r)) \<noteq> [] \<and> rd_MemoryPaths (reader_of (default_reader conv iconv r)) \<noteq> []"
  using assms
  by (auto simp: reader_of_def default_reader_def Let_def default_paths_def DefaultMetricsReaderCPUPathsV1_def
      DefaultMetricsReaderMemoryPathsV1_def DefaultMetricsReaderUnifiedPathV2_def split: option.split)

section \<open>Properties\<close>

lemma started_sampler:
  assumes "sampler_Start conv iconv containerd nodeName podName sortResults hostName s = Inr st"
    and "sd_CPUPaths (mn_Reader s) \<noteq> Some []" "sd_MemoryPaths (mn_Reader s) \<noteq> Some []"
    and "sd_CGroupVersion (mn_Reader s) \<in> {'''', ''v1'', ''v2''}"
  shows "10 * Second \<le> sm_pushFrequency st \<and> Second \<le> sm_checkCreatedPodFrequency st"
    "0 \<le> sp_SendPushMetricsRetryCount (sm_server st) \<and> sp_PushHeadlessServicePort (sm_server st) \<noteq> 0"
    "rd_CPUPaths (sp_Reader (sm_server st)) \<noteq> [] \<and> rd_MemoryPaths (sp_Reader (sm_server st)) \<noteq> []"
    "ring_cap (ca_samples (sp_cache (sm_server st))) = (if bu_Size (mn_Buffer s) = 0 then 900 else nat (bu_Size (mn_Buffer s)))"
    "0 < sm_pollFrequency st \<longleftrightarrow> 0 \<le> bu_PollsPerMinute (mn_Buffer s) \<and> bu_PollsPerMinute (mn_Buffer s) \<le> 6 * 10 ^ 10"
proof -
  note r = sampler_Start_Inr [OF assms(1)]
  show "10 * Second \<le> sm_pushFrequency st \<and> Second \<le> sm_checkCreatedPodFrequency st"
    using start_frequencies_bounds [OF r(1)] by simp
  show "0 \<le> sp_SendPushMetricsRetryCount (sm_server st) \<and> sp_PushHeadlessServicePort (sm_server st) \<noteq> 0"
    by (simp add: r or_zero_def)
  have "rd_CGroupVersion (reader_of (default_reader conv iconv (mn_Reader s))) \<in> {''v1'', ''v2''}"
    using assms(4) by (auto simp: reader_of_def default_reader_def Let_def or_zero_def)
  from default_reader_paths [OF this assms(2,3)]
  show "rd_CPUPaths (sp_Reader (sm_server st)) \<noteq> [] \<and> rd_MemoryPaths (sp_Reader (sm_server st)) \<noteq> []" by (simp add: r)
  show "ring_cap (ca_samples (sp_cache (sm_server st))) = (if bu_Size (mn_Buffer s) = 0 then 900 else nat (bu_Size (mn_Buffer s)))"
    by (simp add: r ring_New_ok or_zero_def)
  show "0 < sm_pollFrequency st \<longleftrightarrow> 0 \<le> bu_PollsPerMinute (mn_Buffer s) \<and> bu_PollsPerMinute (mn_Buffer s) \<le> 6 * 10 ^ 10"
    unfolding r quot_minute_pos by (auto simp: or_zero_def Minute_def)
qed


definition zero_reader :: samplerReader where
  "zero_reader =
     \<lparr>sd_CGroupVersion = '''', sd_CPUPaths = None, sd_MemoryPaths = None, sd_PodPrefix = None, sd_PodSuffix = None,
      sd_ContainerPrefix = None, sd_ContainerSuffix = None, sd_PodReplacements = None, sd_ContainerReplacements = None,
      sd_ParentDirectories = None, sd_NodeAggregationLevelGlobs = None, sd_ContainerCacheSyncIntervalSeconds = None,
      sd_MinCPUCoresSampleValue = Fin 0, sd_MaxCPUCoresSampleValue = Fin 0, sd_MinCPUCoresNanoSec = 0, sd_MaxCPUCoresNanoSec = 0,
      sd_DropFirstValue = None\<rparr>"

definition zero_sampler :: metricsNodeSampler where
  "zero_sampler =
     \<lparr>mn_Buffer = \<lparr>bu_Size = 0, bu_PollsPerMinute = 0\<rparr>, mn_Reader = zero_reader, mn_PBPort = 0, mn_RestPort = 0,
      mn_Address = '''', mn_SendPushMetricsRetryCount = 0, mn_PushHeadlessService = '''', mn_PushHeadlessServicePort = 0,
      mn_PushFrequency = '''', mn_CheckCreatedPodFrequency = '''', mn_ExitOnConfigChange = False, mn_UseCadvisorMonitor = False,
      mn_CadvisorProtocol = '''', mn_CadvisorPort = '''', mn_CadvisorPath = '''', mn_CadvisorToken = '''',
      mn_UseContainerMonitor = False, mn_ContainerdAddress = '''', mn_ContainerdNamespace = '''', mn_DNSPollSeconds = 0\<rparr>"

lemma zero_sampler_starts:
  "\<exists>st. sampler_Start conv iconv containerd n p b h zero_sampler = Inr st"
  by (simp add: sampler_Start_def Let_def Default_def zero_sampler_def or_zero_def start_frequencies_def parse_duration_defaults
      startCache_def) (simp add: Minute_def Second_def)


section \<open>The window fills\<close>

lemma fetchSample_ring:
  "case fetchSample conv i s of
     (None, s') \<Rightarrow> \<exists>x. ca_samples s' = ring_add (ca_samples s) x
   | (Some e, s') \<Rightarrow> ca_samples s' = ca_samples s"
  by (auto simp: fetchSample_def Let_def AddSample_def ring_add_def split: prod.split sum.split)

lemma fetch_attempt_ok:
  assumes "rg_slots (ca_samples s) \<noteq> []"
  shows "fetch_attempt conv i s = fetchSample conv i s"
  using assms by (simp add: fetch_attempt_def Let_def split_beta)

lemma retry_fetch_ring:
  assumes "ring_ok (ca_samples s)" "retry_fetch conv lastErr is s = (None, s')" "is \<noteq> [] \<or> lastErr \<noteq> None"
  shows "\<exists>x. ca_samples s' = ring_add (ca_samples s) x"
  using assms
proof (induction conv lastErr "is" s rule: retry_fetch.induct)
  case (2 conv lastErr i "is" s)
  have n: "rg_slots (ca_samples s) \<noteq> []" using 2(2) by (auto simp: ring_ok_def)
  obtain err s1 where f: "fetchSample conv i s = (err, s1)" by (cases "fetchSample conv i s")
  note r = fetchSample_ring [where conv = conv and i = i and s = s, unfolded f prod.case]
  show ?case
  proof (cases err)
    case None
    with 2(3) r f show ?thesis by (simp add: fetch_attempt_ok [OF n])
  next
    case (Some e)
    with 2(3) f have e: "e = GoError" by (cases e) (simp_all add: fetch_attempt_ok [OF n])
    with Some r have "ca_samples s1 = ca_samples s" by simp
    with 2 Some e f show ?thesis by (simp add: fetch_attempt_ok [OF n])
  qed
qed simp

text \<open>
  The loop refines a bounded log: as long as it keeps running, each tick adds one sample, so the ring holds the
  last samples, as many as ticks or as its size.
\<close>

lemma sampling_loop_window:
  assumes "ring_ok (ca_samples s)" "steps \<noteq> 0" "CacheTick [] \<notin> set evs" "sampling_loop conv steps evs s = (Sampling, s')"
  shows "\<exists>xs. length xs = length evs \<and> ca_samples s' = foldl ring_add (ca_samples s) xs"
  using assms
proof (induction conv steps evs s rule: sampling_loop.induct)
  case (3 conv steps "is" evs s)
  obtain s1 where f: "retry_fetch conv None (take steps is) s = (None, s1)"
    using 3(5) by (auto split: prod.splits option.splits)
  have "take steps is \<noteq> []" using 3(3,4) by auto
  with retry_fetch_ring [OF 3(2) f] obtain x where x: "ca_samples s1 = ring_add (ca_samples s) x" by blast
  have "ring_ok (ca_samples s1)" using rlog.ok_add [OF 3(2)] x by simp
  with 3 f obtain xs where "length xs = length evs" "ca_samples s' = foldl ring_add (ca_samples s1) xs" by auto
  with x show ?case by (intro exI [of _ "x # xs"]) simp
qed auto

lemma retry_fetch_fails:
  assumes "ring_ok (ca_samples s)" "retry_fetch conv lastErr is s = (Some GoError, s')" "is \<noteq> []"
  shows "ca_samples s' = ca_samples s"
  using assms
proof (induction conv lastErr "is" s rule: retry_fetch.induct)
  case (2 conv lastErr i "is" s)
  have n: "rg_slots (ca_samples s) \<noteq> []" using 2(2) by (auto simp: ring_ok_def)
  obtain err s1 where f: "fetchSample conv i s = (err, s1)" by (cases "fetchSample conv i s")
  note r = fetchSample_ring [where conv = conv and i = i and s = s, unfolded f prod.case]
  obtain e where e: "err = Some e" using 2(3) f by (cases err) (simp_all add: fetch_attempt_ok [OF n])
  with 2(3) f have "e = GoError" by (cases e) (simp_all add: fetch_attempt_ok [OF n])
  with e r 2 f show ?case by (cases "is") (simp_all add: fetch_attempt_ok [OF n])
qed simp


lemma ofold_same: "(\<And>x. f s x = Some s) \<Longrightarrow> ofold f s xs = Some s"
  by (induction xs) simp_all

definition bare_inputs :: samplerInputs where
  "bare_inputs =
     \<lparr>in_fs = \<lparr>fs_ReadFile = (\<lambda>_. None), fs_Glob = (\<lambda>_. Some []), fs_ReadDir = (\<lambda>_. None), fs_WalkDir = (\<lambda>_. []), fs_readTime = (\<lambda>_. 0)\<rparr>,
      in_containerd = None, in_cadvisor = None\<rparr>"

lemma bare_node_files: "getNodeMetricFilePaths (in_fs bare_inputs) levels ps ms = Some []"
  by (simp add: getNodeMetricFilePaths_def bare_inputs_def ofold_same)

lemma bare_containers: "getContainers r (in_fs bare_inputs) ps fns = []"
proof -
  have "foldl (\<lambda>files p. files) ([] :: 'x list) ps = []" for ps :: "'y list" by (induction ps) simp_all
  then show ?thesis by (simp add: getContainers_def bare_inputs_def)
qed

lemma bare_fetch:
  assumes "\<not> ca_UseContainerMonitor s" "\<not> ca_UseCadvisorMonitor s" "ca_metricsReader s = metricsReader_zero r"
  shows "fst (fetchSample conv bare_inputs s) = None"
  using assms
  by (simp add: fetchSample_def getContainerCPUAndMemory_def GetContainerCPUMetrics_def reader_init_def loadNodeLevelMetricFilePaths_def
      Let_def metricsReader_zero_def bare_node_files syncContainerCache_def bare_containers sample_containers_def read_levels_def)

lemma zero_sampler_cache:
  assumes "sampler_Start conv iconv containerd n p b h zero_sampler = Inr st"
  shows "\<not> ca_UseContainerMonitor (sp_cache (sm_server st)) \<and> \<not> ca_UseCadvisorMonitor (sp_cache (sm_server st))"
    "ca_metricsReader (sp_cache (sm_server st)) = metricsReader_zero (sp_Reader (sm_server st))" "sm_pollFrequency st = Second"
  using assms
  by (auto simp: sampler_Start_def Let_def Default_def startCache_def cache_init_def metricsReader_zero_def zero_sampler_def
      or_zero_def go_quot_def Minute_def Second_def split: sum.splits option.splits if_splits)


text \<open>
  The reader initialises itself once and keeps its error: when the levels of the node cannot be listed on the first
  attempt, all other attempts of the tick fail as well, whatever the file system then has, and the sampler stops.
\<close>

lemma failed_init_is_kept:
  assumes "rg_slots (ca_samples s) \<noteq> []" "\<not> ca_UseContainerMonitor s" "mr_once (ca_metricsReader s) = Some (Some GoError)"
  shows "retry_fetch conv lastErr (i # is) s = (Some GoError, s)"
proof -
  have f: "fetch_attempt conv i s = (Some GoError, s)" for i
    using assms by (simp add: fetch_attempt_ok fetchSample_def getContainerCPUAndMemory_def GetContainerCPUMetrics_def reader_init_def Let_def)
  have "retry_fetch conv (Some GoError) is s = (Some GoError, s)" by (induction "is") (simp_all add: f)
  then show ?thesis by (simp add: f)
qed

lemma retries_cannot_repair_init:
  assumes "rg_slots (ca_samples s) \<noteq> []" "\<not> ca_UseContainerMonitor s" "mr_once (ca_metricsReader s) = None"
    and "fst (loadNodeLevelMetricFilePaths (in_fs i) (ca_metricsReader s)) = False" "steps \<noteq> 0"
  shows "fst (sampling_loop conv steps (CacheTick (i # is) # evs) s) = SamplerFailed GoError"
proof -
  obtain r where l: "loadNodeLevelMetricFilePaths (in_fs i) (ca_metricsReader s) = (False, r)"
    using assms(4) by (cases "loadNodeLevelMetricFilePaths (in_fs i) (ca_metricsReader s)") simp
  let ?s = "s\<lparr>ca_metricsReader := r\<lparr>mr_once := Some (Some GoError)\<rparr>\<rparr>"
  have "fetch_attempt conv i s = (Some GoError, ?s)"
    using assms l by (simp add: fetch_attempt_ok fetchSample_def getContainerCPUAndMemory_def GetContainerCPUMetrics_def reader_init_def Let_def)
  moreover have "retry_fetch conv (Some GoError) xs ?s = (Some GoError, ?s)" for xs
    using failed_init_is_kept [of ?s conv "Some GoError"] assms by (cases xs) simp_all
  ultimately show ?thesis using assms(5) by (cases steps) simp_all
qed

end
