(* ===== verification/Service_Start.thy ===== *)
theory Service_Start
  imports Sampler_Config Sampler_Server_Props Utilization_Server
begin

text \<open>
  The start of the services: \<^verbatim>\<open>Server.Start\<close> of \<^verbatim>\<open>pkg/collector/utilization\<close> and, of \<^verbatim>\<open>pkg/sampler/server.go\<close>, \<^verbatim>\<open>startGRPC\<close>, the end of
  \<^verbatim>\<open>Start\<close> and the loop that registers collectors from DNS. Listening, dialling and registering handlers are calls
  of other packages whose errors are arguments; what goroutines report on the channel of errors is a list of events in the
  order in which they are received.
\<close>

section \<open>The utilization server\<close>

datatype 'e outcome = Returned "'e option" | Blocked

datatype utilizationError = ListenFailed string | RegisterFailed string | AdditionalFailed string | ServeFailed string

text \<open>
  An additional server has a name and the result of its \<^verbatim>\<open>RegisterHandler\<close>: \<^const>\<open>None\<close> where the function is nil, otherwise the error, if
  any.
\<close>

record utilizationEnv =
  ue_Listen :: "int \<Rightarrow> string option"
  ue_Dial :: "int \<Rightarrow> string option"
  ue_RegisterHealth :: "string option"
  ue_Additional :: "(string \<times> string option option) list"

datatype serveEvent = ServeFails string | ContextDone

record startedServer =
  st_server :: server
  st_grpc :: "string list"
  st_json :: "string list"
  st_expiring :: bool

fun register_handlers :: "(string \<times> string option option) list \<Rightarrow> string list \<Rightarrow> string option \<times> string list" where
  "register_handlers [] js = (None, js)"
| "register_handlers ((name, None) # rest) js = register_handlers rest js"
| "register_handlers ((name, Some (Some err)) # rest) js = (Some err, js)"
| "register_handlers ((name, Some None) # rest) js = register_handlers rest (js @ [name])"

text \<open>
  The error of dialling is sent on a channel that nobody receives from yet: the function does not return. With
  port 0 nothing is served and the server is never healthy.
\<close>

definition utilization_Start ::
  "(float64 \<Rightarrow> u64) \<Rightarrow> utilizationEnv \<Rightarrow> serveEvent \<Rightarrow> string \<Rightarrow> string \<Rightarrow> int \<Rightarrow> server \<Rightarrow>
   startError + utilizationError outcome \<times> startedServer" where
  "utilization_Start conv env ev ttlDuration expireDuration ProtoBindPort s =
     (case start_durations (ParseDuration conv) ttlDuration expireDuration s of
        Inl e \<Rightarrow> Inl e
      | Inr s \<Rightarrow>
         Inr (if ProtoBindPort = 0 then (Returned None, \<lparr>st_server = s, st_grpc = [], st_json = [], st_expiring = False\<rparr>)
              else
                (let s = s\<lparr>sv_Responses := []\<rparr>;
                     none = \<lparr>st_server = s, st_grpc = [], st_json = [], st_expiring = False\<rparr>
                 in case ue_Listen env ProtoBindPort of
                      Some err \<Rightarrow> (Returned (Some (ListenFailed err)), none)
                    | None \<Rightarrow>
                       (let grpc = none\<lparr>st_grpc := [''MetricsCollector'', ''Health''] @ map fst (ue_Additional env)\<rparr>
                        in case ue_Dial env ProtoBindPort of
                             Some err \<Rightarrow> (Blocked, grpc)
                           | None \<Rightarrow>
                              (case ue_RegisterHealth env of
                                 Some err \<Rightarrow> (Returned (Some (RegisterFailed err)), grpc)
                               | None \<Rightarrow>
                                  (case register_handlers (ue_Additional env) [''Health''] of
                                     (Some err, js) \<Rightarrow> (Returned (Some (AdditionalFailed err)), grpc)
                                   | (None, js) \<Rightarrow>
                                      (Returned (case ev of ServeFails err \<Rightarrow> Some (ServeFailed err) | ContextDone \<Rightarrow> None),
                                       grpc\<lparr>st_json := js, st_expiring := True, st_server := s\<lparr>sv_IsHealthyResult := True\<rparr>\<rparr>)))))))"

definition handler_ok :: "string \<times> string option option \<Rightarrow> bool" where
  "handler_ok a = (case snd a of Some (Some err) \<Rightarrow> False | _ \<Rightarrow> True)"

lemma register_handlers_None:
  "fst (register_handlers as js) = None \<longleftrightarrow> list_all handler_ok as"
  by (induction as js rule: register_handlers.induct) (auto simp: handler_ok_def)

lemma register_handlers_json:
  "fst (register_handlers as js) = None \<Longrightarrow> snd (register_handlers as js) = js @ map fst (filter (\<lambda>a. snd a \<noteq> None) as)"
  by (induction as js rule: register_handlers.induct) auto

lemma start_durations_Inr:
  "start_durations p t e s = Inr s' \<Longrightarrow>
     Minute \<le> sv_ttl s' \<and> Minute * 5 \<le> sv_expireFreq s' \<and> s' = s\<lparr>sv_ttl := sv_ttl s', sv_expireFreq := sv_expireFreq s'\<rparr>"
  by (auto simp: start_durations_def Let_def Minute_def split: sum.splits if_splits option.splits)

definition services_available :: "utilizationEnv \<Rightarrow> int \<Rightarrow> bool" where
  "services_available env port \<longleftrightarrow>
     port \<noteq> 0 \<and> ue_Listen env port = None \<and> ue_Dial env port = None \<and> ue_RegisterHealth env = None
     \<and> list_all handler_ok (ue_Additional env)"

lemma start_cases:
  assumes "utilization_Start conv env ev ttlDuration expireDuration port s = Inr (out, st)" "\<not> sv_IsHealthyResult s"
  shows "Check (st_server st) \<longleftrightarrow> services_available env port"
    and "Check (st_server st) \<Longrightarrow>
          sv_Responses (st_server st) = [] \<and> Minute \<le> sv_ttl (st_server st) \<and> Minute * 5 \<le> sv_expireFreq (st_server st) \<and> st_expiring st
          \<and> st_grpc st = [''MetricsCollector'', ''Health''] @ map fst (ue_Additional env)
          \<and> st_json st = ''Health'' # map fst (filter (\<lambda>a. snd a \<noteq> None) (ue_Additional env))"
    and "out = Blocked \<longleftrightarrow> port \<noteq> 0 \<and> ue_Listen env port = None \<and> ue_Dial env port \<noteq> None"
proof -
  obtain s' where d: "start_durations (ParseDuration conv) ttlDuration expireDuration s = Inr s'"
    using assms(1) by (auto simp: utilization_Start_def split: sum.splits)
  note ds = start_durations_Inr [OF d]
  then have h: "\<not> sv_IsHealthyResult s'" using assms(2) by (metis server.select_convs(7) server.surjective server.update_convs(2,3))
  obtain err js where r: "register_handlers (ue_Additional env) [''Health''] = (err, js)" by fastforce
  have ok: "err = None \<longleftrightarrow> list_all handler_ok (ue_Additional env)"
    "err = None \<Longrightarrow> js = ''Health'' # map fst (filter (\<lambda>a. snd a \<noteq> None) (ue_Additional env))"
    using register_handlers_None [of "ue_Additional env" "[''Health'']"] register_handlers_json [of "ue_Additional env" "[''Health'']"]
    by (simp_all add: r)
  show "Check (st_server st) \<longleftrightarrow> services_available env port"
    "out = Blocked \<longleftrightarrow> port \<noteq> 0 \<and> ue_Listen env port = None \<and> ue_Dial env port \<noteq> None"
    using assms(1) h ok
    by (auto simp: utilization_Start_def d r Check_def services_available_def Let_def split: if_splits option.splits serveEvent.splits)
  assume "Check (st_server st)"
  then show "sv_Responses (st_server st) = [] \<and> Minute \<le> sv_ttl (st_server st) \<and> Minute * 5 \<le> sv_expireFreq (st_server st) \<and> st_expiring st
          \<and> st_grpc st = [''MetricsCollector'', ''Health''] @ map fst (ue_Additional env)
          \<and> st_json st = ''Health'' # map fst (filter (\<lambda>a. snd a \<noteq> None) (ue_Additional env))"
    using assms(1) ds h ok
    by (auto simp: utilization_Start_def d r Check_def Let_def split: if_splits option.splits serveEvent.splits)
qed

text \<open>
  C32. The health check of the collector tells exactly whether its services came up: after a start with a valid configuration
  it succeeds if and only if a port is configured and listening, dialling and all registrations succeeded; then the
  cache is empty and expires regularly after at least a minute, every additional service is served by gRPC and, exactly
  if it has a handler, as JSON. The start hangs if and only if the port is bound and dialling it fails.
\<close>

theorem health_check_exact:
  assumes "utilization_Start conv env ev ttlDuration expireDuration port s = Inr (out, st)" "\<not> sv_IsHealthyResult s"
  shows "(Check (st_server st) \<longleftrightarrow> services_available env port)
     \<and> (Check (st_server st) \<longrightarrow>
          sv_Responses (st_server st) = [] \<and> Minute \<le> sv_ttl (st_server st) \<and> Minute * 5 \<le> sv_expireFreq (st_server st) \<and> st_expiring st
          \<and> st_grpc st = [''MetricsCollector'', ''Health''] @ map fst (ue_Additional env)
          \<and> st_json st = ''Health'' # map fst (filter (\<lambda>a. snd a \<noteq> None) (ue_Additional env)))
     \<and> (out = Blocked \<longleftrightarrow> port \<noteq> 0 \<and> ue_Listen env port = None \<and> ue_Dial env port \<noteq> None)"
  using start_cases [OF assms] by blast

definition ex_env :: utilizationEnv where
  "ex_env = \<lparr>ue_Listen = (\<lambda>_. None), ue_Dial = (\<lambda>_. None), ue_RegisterHealth = None,
     ue_Additional = [(''a'', None), (''b'', Some None)]\<rparr>"

definition ex_stopped :: server where
  "ex_stopped = \<lparr>sv_Responses = [], sv_ttl = 0, sv_expireFreq = 0, sv_ServeResults = False, sv_IsReadyResult = False,
     sv_IsCached = False, sv_IsHealthyResult = False\<rparr>"

theorem health_check_exact_witness:
  "\<exists>out st. utilization_Start (\<lambda>_. 0) ex_env ContextDone '''' '''' 8080 ex_stopped = Inr (out, st)
     \<and> Check (st_server st) \<and> st_json st = [''Health'', ''b''] \<and> out \<noteq> Blocked"
proof -
  obtain out st where s: "utilization_Start (\<lambda>_. 0) ex_env ContextDone '''' '''' 8080 ex_stopped = Inr (out, st)"
    by (auto simp: utilization_Start_def start_durations_def Let_def ex_env_def)
  have "\<not> sv_IsHealthyResult ex_stopped" by (simp add: ex_stopped_def)
  from health_check_exact [OF s this] s show ?thesis by (auto simp: services_available_def handler_ok_def ex_env_def)
qed

section \<open>The sampler's services\<close>

record grpcEnv =
  ge_Listen :: "string \<Rightarrow> string option"
  ge_Dial :: "string \<Rightarrow> string option"
  ge_RegisterMetrics :: "string option"
  ge_RegisterHealth :: "string option"

text \<open>
  \<^verbatim>\<open>startGRPC\<close>: the services whose failures can be sent on the channel of errors, and the error that the function
  returns; it is run by a \<^verbatim>\<open>go\<close> statement, so its result is dropped. Without an error it waits for the context.
\<close>

definition startGRPC :: "grpcEnv \<Rightarrow> string \<Rightarrow> int \<Rightarrow> string list \<times> string option" where
  "startGRPC env Address PBPort =
     (let pbPort = Address @ '':'' @ show_int PBPort
      in case ge_Listen env pbPort of
           Some err \<Rightarrow> ([], Some err)
         | None \<Rightarrow>
            (let pbPort = (if Address = '''' then ''0.0.0.0'' @ pbPort else pbPort)
             in case ge_Dial env pbPort of
                  Some err \<Rightarrow> ([''proto''], Some err)
                | None \<Rightarrow>
                   (case ge_RegisterMetrics env of
                      Some err \<Rightarrow> ([''proto''], Some err)
                    | None \<Rightarrow>
                       (case ge_RegisterHealth env of
                          Some err \<Rightarrow> ([''proto''], Some err)
                        | None \<Rightarrow> ([''proto'', ''rest''], None)))))"

text \<open>The end of \<^verbatim>\<open>Start\<close>: the first error of a service that runs, or the end of the context. \<^const>\<open>None\<close>: it still waits.\<close>

datatype sampleEvent = Fails string string | Done

fun sampler_wait :: "string list \<Rightarrow> sampleEvent list \<Rightarrow> string option option" where
  "sampler_wait services [] = None"
| "sampler_wait services (Done # evs) = Some None"
| "sampler_wait services (Fails srv err # evs) = (if srv \<in> set services then Some (Some err) else sampler_wait services evs)"

definition sampler_services :: "grpcEnv \<Rightarrow> string \<Rightarrow> int \<Rightarrow> sampleEvent list \<Rightarrow> string option option" where
  "sampler_services env Address PBPort evs = sampler_wait (''cache'' # fst (startGRPC env Address PBPort)) evs"

text \<open>
  A sampler that cannot bind its port goes on without serving anything: nothing of the error is noticed, and it ends as a
  sampler whose services never fail would.
\<close>

theorem bind_failure_unnoticed:
  assumes "ge_Listen env (Address @ '':'' @ show_int PBPort) = Some err"
  shows "startGRPC env Address PBPort = ([], Some err)
     \<and> sampler_services env Address PBPort evs = sampler_wait [''cache''] evs
     \<and> sampler_services env Address PBPort [Done] = Some None"
  using assms by (simp add: startGRPC_def sampler_services_def)

section \<open>Collectors from DNS\<close>

text \<open>A lookup gives addresses and an error; the error is logged and the addresses are used.\<close>

definition listCollectorIPsFromDNS :: "(string \<Rightarrow> string option list \<times> string option) \<Rightarrow> string \<Rightarrow> string option list" where
  "listCollectorIPsFromDNS LookupIP service = fst (LookupIP service)"

fun startRegisterCollectorsFromDNS ::
  "string \<Rightarrow> ((string \<Rightarrow> string option list \<times> string option) \<times> (string \<Rightarrow> dialResult)) list \<Rightarrow> samplerServer \<Rightarrow> samplerServer" where
  "startRegisterCollectorsFromDNS service [] s = s"
| "startRegisterCollectorsFromDNS service ((LookupIP, dial) # ticks) s =
     startRegisterCollectorsFromDNS service ticks (addConnectionsFromIPs dial (listCollectorIPsFromDNS LookupIP service) s)"

lemma addConnectionsFromIPs_dom:
  "dom (conn_at (addConnectionsFromIPs dial ips s))
     = dom (conn_at s) \<union> {a. dial a = Connected \<and> (\<exists>i. Some i \<in> set ips \<and> a = ipToAddressString s i)}"
proof -
  let ?as = "List.map_filter (map_option (ipToAddressString s)) ips"
  have ne: "ipToAddressString s i \<noteq> ''''" for i by (simp add: ipToAddressString_def)
  have "dom (conn_at (addConnectionsFromIPs dial ips s)) = dom (conn_at s) \<union> {a \<in> set ?as. reachable_addr dial a}"
    unfolding addConnectionsFromIPs_def addConnectionsIfMissing_def by (rule conn.adds_dom)
  also have "{a \<in> set ?as. reachable_addr dial a} = {a. dial a = Connected \<and> (\<exists>i. Some i \<in> set ips \<and> a = ipToAddressString s i)}"
    using ne by (force simp: reachable_addr_def List.map_filter_def)
  finally show ?thesis .
qed

lemma ipToAddressString_connected [simp]: "ipToAddressString (addConnectionsFromIPs dial ips s) = ipToAddressString s"
proof -
  have "sp_PushHeadlessServicePort (foldl (addConnection dial) s as) = sp_PushHeadlessServicePort s" for as
    by (induction as arbitrary: s) (auto simp: addConnection_def split: dialResult.split)
  then show ?thesis by (simp add: fun_eq_iff ipToAddressString_def addConnectionsFromIPs_def addConnectionsIfMissing_def)
qed

text \<open>
  The sampler ends up connected to what it was connected to and to every address that some lookup gave and that could be
  reached then, whatever the errors of the other lookups.
\<close>

theorem dns_connects_resolved:
  "dom (conn_at (startRegisterCollectorsFromDNS service ticks s))
     = dom (conn_at s) \<union> {a. \<exists>(LookupIP, dial) \<in> set ticks. dial a = Connected \<and> (\<exists>i. Some i \<in> set (fst (LookupIP service)) \<and> a = ipToAddressString s i)}"
  by (induction service ticks s rule: startRegisterCollectorsFromDNS.induct)
    (auto simp: addConnectionsFromIPs_dom listCollectorIPsFromDNS_def)

end
