(* ===== verification/Collector_Process.thy ===== *)
theory Collector_Process
  imports Metrics_Server Collection_Safety Service_Start
begin

text \<open>
  The collector process from its command line on: \<^verbatim>\<open>RunE\<close> of \<^verbatim>\<open>cmd/metrics-prometheus-collector/cmd/cmd.go\<close>, which reads the
  configuration, makes the collector and starts its server and the metrics server. The properties of the parts are put together:
  whatever a process that has started serves, and whatever makes it panic while it collects.
\<close>

section \<open>The command\<close>

datatype commandError = LevelWatchFails | KubeConfigFails | SpecFails readError | ManagerFails | CollectorFails initError

text \<open>
  Profiling is left out. \<^verbatim>\<open>kubeConfig\<close> and \<^verbatim>\<open>manager\<close> say whether these calls succeed.
\<close>

definition collector_RunE ::
  "msOptions \<Rightarrow> string \<Rightarrow> (string \<Rightarrow> bool) \<Rightarrow> bool \<Rightarrow> readError + collectorSpec \<Rightarrow> bool \<Rightarrow>
   (collectorSpec \<Rightarrow> initError + collector \<times> server \<times> bool) \<Rightarrow> commandError + collectorSpec \<times> collector \<times> server \<times> bool" where
  "collector_RunE opt logPath WatchLevel kubeConfig spec manager New =
     (if logPath \<noteq> '''' \<and> \<not> WatchLevel logPath then Inl LevelWatchFails
      else if \<not> kubeConfig then Inl KubeConfigFails
      else case spec of
             Inl err \<Rightarrow> Inl (SpecFails err)
           | Inr spec \<Rightarrow>
              if \<not> manager then Inl ManagerFails
              else case New spec of
                     Inl err \<Rightarrow> Inl (CollectorFails err)
                   | Inr (c, srv, leader) \<Rightarrow> Inr (spec, c, srv, \<not> mo_LeaderElection opt))"

lemma collector_RunE_Inr:
  "collector_RunE opt logPath WatchLevel kubeConfig sp manager New = Inr (spec, c, srv, leader) \<longleftrightarrow>
     (logPath = '''' \<or> WatchLevel logPath) \<and> kubeConfig \<and> sp = Inr spec \<and> manager \<and> (\<exists>l. New spec = Inr (c, srv, l))
     \<and> leader = (\<not> mo_LeaderElection opt)"
  by (auto simp: collector_RunE_def split: sum.splits)

section \<open>The gauge of the version\<close>

text \<open>\<^verbatim>\<open>pkg/version\<close>: the descriptor is made by whichever of the two functions is called first and kept.\<close>

record versionCollector =
  ve_Name :: string
  ve_Desc :: "(string \<times> string list) option"
  ve_Version :: string
  ve_Commit :: string
  ve_Date :: string

definition version_desc :: "versionCollector \<Rightarrow> versionCollector" where
  "version_desc c =
     (if ve_Desc c = None then c\<lparr>ve_Desc := Some (ve_Name c, [''version'', ''commit'', ''date'', ''collector_instance''])\<rparr> else c)"

definition version_Describe :: "versionCollector \<Rightarrow> (string \<times> string list) \<times> versionCollector" where
  "version_Describe c = (let c = version_desc c in (the (ve_Desc c), c))"

text \<open>\<^const>\<open>None\<close> is the panic for label values that do not fit the descriptor.\<close>

definition version_Collect :: "string \<Rightarrow> versionCollector \<Rightarrow> (((string \<times> string list) \<times> string list) option) \<times> versionCollector" where
  "version_Collect podName c =
     (let c = version_desc c; d = the (ve_Desc c); vs = [ve_Version c, ve_Commit c, ve_Date c, podName]
      in (if length (snd d) = length vs then Some (d, vs) else None, c))"

lemma version_collected_as_described:
  assumes "ve_Desc c = None"
  shows "\<exists>d vs c'. version_Describe c = (d, c') \<and> fst (version_Collect podName c') = Some (d, vs) \<and> length vs = 4"
  using assms by (simp add: version_Describe_def version_Collect_def version_desc_def Let_def)

section \<open>A started process\<close>

lemma start_flags: "utilization_Start conv env ev t e port srv = Inr (out, st) \<Longrightarrow> flags (st_server st) = flags srv"
  by (auto simp: utilization_Start_def start_durations_def flags_def Let_def split: sum.splits if_splits option.splits prod.splits)

lemma healthy_PushMetrics [simp]: "sv_IsHealthyResult (snd (PushMetrics rs srv)) = sv_IsHealthyResult srv"
  by (induction rs srv rule: PushMetrics.induct) (simp_all add: CacheMetrics_def)

lemma healthy_expireRound [simp]: "sv_IsHealthyResult (expireRound now srv) = sv_IsHealthyResult srv"
proof -
  have "sv_IsHealthyResult (foldl (\<lambda>s (k, v). if expired now s v then ClearMetrics k s else s) srv xs) = sv_IsHealthyResult srv" for xs
    by (induction xs arbitrary: srv) (simp_all add: split_beta ClearMetrics_def)
  then show ?thesis by (simp add: expireRound_def)
qed

lemma healthy_ready_cycle: "ready_cycle rc ps rs s = Some s' \<Longrightarrow> sv_IsHealthyResult (rs_server s') = sv_IsHealthyResult (rs_server s)"
  by (auto simp: ready_cycle_def Let_def split: if_splits option.splits)

lemma healthy_step: "ms_step opt rc s s' \<Longrightarrow> sv_IsHealthyResult (ms_srv s') = sv_IsHealthyResult (ms_srv s)"
proof (induction rule: ms_step.induct)
  case (Register s now cols ps attempt r reg)
  then show ?case using registerWithSamplers_cycle healthy_ready_cycle by fastforce
qed (auto simp: set_leader_def OnNewLeader_def cache_fails_def cache_succeeds_def Let_def)

lemma healthy_reachable: "ms_reachable opt rc srv s \<Longrightarrow> sv_IsHealthyResult (ms_srv s) = sv_IsHealthyResult srv"
  by (drule ms.unchanged [where f = "\<lambda>s. sv_IsHealthyResult (ms_srv s)"]) (auto simp: healthy_step ms_init_def register_start_def Let_def)


text \<open>A process that reads a JSON file and is ready once its first response is cached.\<close>

definition ex_started :: server where
  "ex_started = server_zero\<lparr>sv_ttl := Minute * 5, sv_expireFreq := Minute * 15, sv_IsHealthyResult := True\<rparr>"

definition ex_ready :: "string msState" where
  "ex_ready = cache_succeeds True [] ''metrics'' ((ms_init (ex_options False) (ex_register 0) ex_started)\<lparr>ms_cycle := Some (True, 0)\<rparr>)"

lemma ex_ready_reachable: "ms_reachable (ex_options False) (ex_register 0) ex_started ex_ready"
proof -
  let ?s0 = "ms_init (ex_options False) (ex_register 0) ex_started :: string msState" let ?s1 = "?s0\<lparr>ms_cycle := Some (True, 0)\<rparr>"
  have sel: "\<not> ms_exited ?s0" "ms_serving ?s0" "ms_cycle ?s0 = None" "sv_ServeResults (ms_srv ?s0)"
    by (simp_all add: ms_init_def ex_options_def register_start_def ex_register_def Let_def)
  have "ms_reachable (ex_options False) (ex_register 0) ex_started ?s1"
    using ms_step.BeginCycle [of ?s0 "ex_options False" "ex_register 0"] sel by (auto intro: ms_reachable.step [OF ms_reachable.init])
  then show ?thesis
  proof (rule ms_reachable.step)
    show "ms_step (ex_options False) (ex_register 0) ?s1 ex_ready"
      unfolding ex_ready_def using ms_step.AttemptSucceeds [of ?s1 "(True, 0)" "ex_options False" "ex_register 0" "[]" "''metrics''"] sel by simp
  qed
qed


end
