(* ===== verification/Container_Monitor.thy ===== *)
theory Container_Monitor
  imports Go_Float
begin

text \<open>
  The container monitor, \<^verbatim>\<open>pkg/ctrstats\<close> and \<^verbatim>\<open>cmd/container-monitor\<close> (a second copy of the collector is a subcommand of
  \<^verbatim>\<open>cmd/metrics-node-sampler\<close>): the tables of metrics that are read from the statistics of containerd, and the collector that
  exports them for every container. What containerd answers is an argument. A nested message of the statistics that is
  missing is \<^const>\<open>None\<close>; reading a field of it is a panic, which is \<^const>\<open>None\<close> again.
\<close>

section \<open>Statistics\<close>

record cpuUsage =
  uu_Total :: u64
  uu_Kernel :: u64
  uu_User :: u64

record throttle =
  th_Periods :: u64
  th_ThrottledPeriods :: u64
  th_ThrottledTime :: u64

record cpuStat =
  cu_Usage :: "cpuUsage option"
  cu_Throttling :: "throttle option"

record memoryEntry =
  me_Limit :: u64
  me_Usage :: u64
  me_Max :: u64
  me_Failcnt :: u64

record memoryStat =
  mm_Cache :: u64
  mm_RSS :: u64
  mm_RSSHuge :: u64
  mm_MappedFile :: u64
  mm_PgMajFault :: u64
  mm_InactiveAnon :: u64
  mm_ActiveAnon :: u64
  mm_InactiveFile :: u64
  mm_ActiveFile :: u64
  mm_TotalCache :: u64
  mm_TotalRSS :: u64
  mm_TotalMappedFile :: u64
  mm_Usage :: "memoryEntry option"
  mm_Kernel :: "memoryEntry option"

record v1Metrics =
  v1_CPU :: "cpuStat option"
  v1_Memory :: "memoryStat option"

section \<open>The tables of metrics\<close>

datatype metricUnit = Nanoseconds | Total | Bytes

fun unit_name :: "metricUnit \<Rightarrow> string" where
  "unit_name Nanoseconds = ''nanoseconds''"
| "unit_name Total = ''total''"
| "unit_name Bytes = ''bytes''"

datatype valueType = GaugeValue | CounterValue

record ctrMetric =
  cm_name :: string
  cm_help :: string
  cm_unit :: metricUnit
  cm_Vt :: valueType
  cm_labels :: "string list"
  cm_GetValues :: "v1Metrics \<Rightarrow> float64 option"

definition metric_entry :: "string \<Rightarrow> string \<Rightarrow> metricUnit \<Rightarrow> valueType \<Rightarrow> (v1Metrics \<Rightarrow> float64 option) \<Rightarrow> ctrMetric" where
  "metric_entry n h u vt get = \<lparr>cm_name = n, cm_help = h, cm_unit = u, cm_Vt = vt, cm_labels = [], cm_GetValues = get\<rparr>"

definition Desc :: "ctrMetric \<Rightarrow> string \<times> string list" where
  "Desc m = (cm_name m @ ''_'' @ unit_name (cm_unit m), [''container'', ''namespace'', ''pod''] @ cm_labels m)"

definition part_value :: "'p option \<Rightarrow> ('p \<Rightarrow> 'e option) \<Rightarrow> ('e \<Rightarrow> u64) \<Rightarrow> float64 option" where
  "part_value part entry field =
     (case part of None \<Rightarrow> Some (Fin 0) | Some p \<Rightarrow> map_option (\<lambda>e. f64_of_u64 (field e)) (entry p))"

definition cpu_usage :: "(cpuUsage \<Rightarrow> u64) \<Rightarrow> v1Metrics \<Rightarrow> float64 option" where
  "cpu_usage field s = part_value (v1_CPU s) cu_Usage field"

definition cpu_throttling :: "(throttle \<Rightarrow> u64) \<Rightarrow> v1Metrics \<Rightarrow> float64 option" where
  "cpu_throttling field s = part_value (v1_CPU s) cu_Throttling field"

definition mem_field :: "(memoryStat \<Rightarrow> u64) \<Rightarrow> v1Metrics \<Rightarrow> float64 option" where
  "mem_field field s = part_value (v1_Memory s) Some field"

definition mem_usage :: "(memoryEntry \<Rightarrow> u64) \<Rightarrow> v1Metrics \<Rightarrow> float64 option" where
  "mem_usage field s = part_value (v1_Memory s) mm_Usage field"

definition mem_kernel :: "(memoryEntry \<Rightarrow> u64) \<Rightarrow> v1Metrics \<Rightarrow> float64 option" where
  "mem_kernel field s = part_value (v1_Memory s) mm_Kernel field"

definition CpuMetrics :: "ctrMetric list" where
  "CpuMetrics =
     [metric_entry ''cpu_total'' ''The total cpu time'' Nanoseconds GaugeValue (cpu_usage uu_Total),
      metric_entry ''cpu_kernel'' ''The total kernel cpu time'' Nanoseconds GaugeValue (cpu_usage uu_Kernel),
      metric_entry ''cpu_user'' ''The total user cpu time'' Nanoseconds GaugeValue (cpu_usage uu_User),
      metric_entry ''cpu_throttle_periods'' ''The total cpu throttle periods'' Total GaugeValue (cpu_throttling th_Periods),
      metric_entry ''container_cpu_cfs_throttled_periods_total'' ''Number of throttled period intervals.'' Total CounterValue (cpu_throttling th_ThrottledPeriods),
      metric_entry ''cpu_throttled_time'' ''The total cpu throttled time'' Nanoseconds GaugeValue (cpu_throttling th_ThrottledTime)]"

definition MemoryMetrics :: "ctrMetric list" where
  "MemoryMetrics =
     [metric_entry ''memory_cache'' ''The cache amount used'' Bytes GaugeValue (mem_field mm_Cache),
      metric_entry ''memory_rss'' ''The rss amount used'' Bytes GaugeValue (mem_field mm_RSS),
      metric_entry ''memory_rss_huge'' ''The rss_huge amount used'' Bytes GaugeValue (mem_field mm_RSSHuge),
      metric_entry ''memory_mapped_file'' ''The mapped_file amount used'' Bytes GaugeValue (mem_field mm_MappedFile),
      metric_entry ''memory_pgmajfault'' ''The pgmajfault amount'' Bytes GaugeValue (mem_field mm_PgMajFault),
      metric_entry ''memory_inactive_anon'' ''The inactive_anon amount'' Bytes GaugeValue (mem_field mm_InactiveAnon),
      metric_entry ''memory_active_anon'' ''The active_anon amount'' Bytes GaugeValue (mem_field mm_ActiveAnon),
      metric_entry ''memory_inactive_file'' ''The inactive_file amount'' Bytes GaugeValue (mem_field mm_InactiveFile),
      metric_entry ''memory_active_file'' ''The active_file amount'' Bytes GaugeValue (mem_field mm_ActiveFile),
      metric_entry ''memory_total_cache'' ''The total_cache amount used'' Bytes GaugeValue (mem_field mm_TotalCache),
      metric_entry ''memory_total_rss'' ''The total_rss amount used'' Bytes GaugeValue (mem_field mm_TotalRSS),
      metric_entry ''memory_total_mapped_file'' ''The total_mapped_file amount used'' Bytes GaugeValue (mem_field mm_TotalMappedFile),
      metric_entry ''memory_usage_failcnt'' ''The usage failcnt'' Total GaugeValue (mem_usage me_Failcnt),
      metric_entry ''memory_usage_limit'' ''The memory limit'' Bytes GaugeValue (mem_usage me_Limit),
      metric_entry ''memory_usage_max'' ''The memory maximum usage'' Bytes GaugeValue (mem_usage me_Max),
      metric_entry ''memory_usage_usage'' ''The memory usage'' Bytes GaugeValue (mem_usage me_Usage),
      metric_entry ''memory_kernel_failcnt'' ''The kernel failcnt'' Total GaugeValue (mem_kernel me_Failcnt),
      metric_entry ''memory_kernel_limit'' ''The kernel limit'' Bytes GaugeValue (mem_kernel me_Limit),
      metric_entry ''memory_kernel_usage'' ''The kernel usage'' Bytes GaugeValue (mem_kernel me_Usage)]"

definition monitor_metrics :: "ctrMetric list" where
  "monitor_metrics = CpuMetrics @ MemoryMetrics"

section \<open>Containers\<close>

record ctrContainer =
  cc_ContainerID :: string
  cc_PodID :: string
  cc_PodName :: string
  cc_SandboxNamespace :: string
  cc_ContainerName :: string
  cc_NamespaceName :: string

text \<open>\<^verbatim>\<open>infos\<close>: the ids that containerd lists, with the labels of each, or \<^const>\<open>None\<close> where its information is not available.\<close>

definition container_of :: "string \<Rightarrow> strmap \<Rightarrow> ctrContainer" where
  "container_of i labels =
     \<lparr>cc_ContainerID = i, cc_PodID = sget labels ''io.kubernetes.pod.uid'', cc_PodName = sget labels ''io.kubernetes.pod.name'',
      cc_SandboxNamespace = sget labels ''io.kubernetes.pod.namespace'', cc_ContainerName = sget labels ''io.kubernetes.container.name'',
      cc_NamespaceName = sget labels ''io.kubernetes.pod.namespace''\<rparr>"

definition GetContainers :: "string + (string \<times> strmap option) list \<Rightarrow> string + ctrContainer list" where
  "GetContainers containers =
     (case containers of
        Inl err \<Rightarrow> Inl err
      | Inr cs \<Rightarrow> Inr (List.map_filter (\<lambda>(i, info). map_option (container_of i) info) cs))"

text \<open>The answer of containerd to a request for the metrics of the task of a container.\<close>

datatype 'v2 taskData = NoData | BadData string | DataV1 v1Metrics | DataV2 'v2

datatype 'v2 taskResult = TaskError string | MetricsError string | Metrics "'v2 taskData"

definition GetContainerStatsV1 :: "ctrContainer \<Rightarrow> 'v2 taskResult \<Rightarrow> string + v1Metrics" where
  "GetContainerStatsV1 c r =
     (case r of
        TaskError err \<Rightarrow> Inl err
      | MetricsError err \<Rightarrow> Inl err
      | Metrics d \<Rightarrow>
         (case d of
            NoData \<Rightarrow> Inl (''no stats obtained for container: '' @ cc_ContainerID c)
          | BadData err \<Rightarrow> Inl err
          | DataV1 s \<Rightarrow> Inr s
          | DataV2 _ \<Rightarrow> Inl ''type assertion failure for task.Metrics' Data field''))"

definition GetContainerStatsV2 :: "ctrContainer \<Rightarrow> 'v2 taskResult \<Rightarrow> string + 'v2" where
  "GetContainerStatsV2 c r =
     (case r of
        TaskError err \<Rightarrow> Inl err
      | MetricsError err \<Rightarrow> Inl err
      | Metrics d \<Rightarrow>
         (case d of
            NoData \<Rightarrow> Inl (''no stats obtained for container: '' @ cc_ContainerID c)
          | BadData err \<Rightarrow> Inl err
          | DataV1 _ \<Rightarrow> Inl ''type assertion failure for task.Metrics' Data field''
          | DataV2 s \<Rightarrow> Inr s))"

section \<open>Exporting\<close>

record ctrSeries =
  se_name :: string
  se_names :: "string list"
  se_type :: valueType
  se_value :: float64
  se_values :: "string list"

text \<open>A series with another number of label values than label names panics in its constructor.\<close>

definition new_series :: "ctrContainer \<Rightarrow> v1Metrics \<Rightarrow> ctrMetric \<Rightarrow> ctrSeries option" where
  "new_series c stats m =
     (case cm_GetValues m stats of
        None \<Rightarrow> None
      | Some v \<Rightarrow>
         (let (n, ls) = Desc m; vs = [cc_ContainerName c, cc_SandboxNamespace c, cc_PodName c]
          in if length vs = length ls
             then Some \<lparr>se_name = n, se_names = ls, se_type = cm_Vt m, se_value = v, se_values = vs\<rparr> else None))"

definition monitor_container :: "(string \<Rightarrow> 'v2 taskResult) \<Rightarrow> ctrSeries list \<Rightarrow> ctrContainer \<Rightarrow> ctrSeries list option" where
  "monitor_container task out c =
     (case GetContainerStatsV1 c (task (cc_ContainerID c)) of
        Inl err \<Rightarrow> Some out
      | Inr stats \<Rightarrow> ofold (\<lambda>out m. map_option (\<lambda>s. out @ [s]) (new_series c stats m)) out monitor_metrics)"

definition monitor_Collect ::
  "string + (string \<times> strmap option) list \<Rightarrow> (string \<Rightarrow> 'v2 taskResult) \<Rightarrow> ctrSeries list option" where
  "monitor_Collect containers task =
     (case GetContainers containers of
        Inl err \<Rightarrow> Some []
      | Inr cs \<Rightarrow> ofold (monitor_container task) [] cs)"

section \<open>The command\<close>

record monitorCollector =
  mc_metrics :: "ctrMetric list"
  mc_client :: bool

text \<open>\<^verbatim>\<open>NewContainerdClient\<close> is the error of connecting, if any; \<^verbatim>\<open>mc_client\<close> says whether the client is open.\<close>

definition newCollector :: "(string \<Rightarrow> string \<Rightarrow> string option) \<Rightarrow> string \<Rightarrow> string \<Rightarrow> string + monitorCollector" where
  "newCollector NewContainerdClient address namespace =
     (case NewContainerdClient address namespace of
        Some err \<Rightarrow> Inl err
      | None \<Rightarrow> Inr \<lparr>mc_metrics = ([] @ CpuMetrics) @ MemoryMetrics, mc_client = True\<rparr>)"

definition monitor_cleanup :: "monitorCollector \<Rightarrow> monitorCollector" where
  "monitor_cleanup c = (if mc_client c then c\<lparr>mc_client := False\<rparr> else c)"

definition monitor_Describe :: "monitorCollector \<Rightarrow> (string \<times> string list) list" where
  "monitor_Describe c = map Desc (mc_metrics c)"

definition initLog :: "(string \<Rightarrow> string option) \<Rightarrow> string \<Rightarrow> string" where
  "initLog ParseLevel level = (case ParseLevel level of None \<Rightarrow> ''warning'' | Some l \<Rightarrow> l)"

text \<open>
  \<^verbatim>\<open>register\<close> says whether the registry accepts the descriptors, \<^verbatim>\<open>ListenAndServe\<close> is the error it ends with. \<^const>\<open>None\<close> is the panic of
  \<^verbatim>\<open>MustRegister\<close>. The result is the error and the collector when the function returns.
\<close>

definition monitor_RunE ::
  "(string \<Rightarrow> string \<Rightarrow> string option) \<Rightarrow> ((string \<times> string list) list \<Rightarrow> bool) \<Rightarrow> (string \<Rightarrow> string option) \<Rightarrow> string \<Rightarrow> string \<Rightarrow> string \<Rightarrow>
   (string option \<times> monitorCollector option) option" where
  "monitor_RunE NewContainerdClient register ListenAndServe address namespace serverPort =
     (case newCollector NewContainerdClient address namespace of
        Inl err \<Rightarrow> Some (Some err, None)
      | Inr c \<Rightarrow>
         if \<not> register (monitor_Describe c) then None
         else Some (ListenAndServe ('':'' @ serverPort), Some (monitor_cleanup c)))"

text \<open>
  The binary of the sampler has the monitor as a command of its own, \<^verbatim>\<open>cmd/metrics-node-sampler/cmd/cmd_linux_amd64.go\<close>. Its code is a
  copy of the code above.
\<close>

definition cm_newCollector :: "(string \<Rightarrow> string \<Rightarrow> string option) \<Rightarrow> string \<Rightarrow> string \<Rightarrow> string + monitorCollector" where
  "cm_newCollector = newCollector"

definition cm_Describe :: "monitorCollector \<Rightarrow> (string \<times> string list) list" where
  "cm_Describe = monitor_Describe"

definition cm_Collect :: "string + (string \<times> strmap option) list \<Rightarrow> (string \<Rightarrow> 'v2 taskResult) \<Rightarrow> ctrSeries list option" where
  "cm_Collect = monitor_Collect"

definition cm_initLog :: "(string \<Rightarrow> string option) \<Rightarrow> string \<Rightarrow> string" where
  "cm_initLog = initLog"

definition cmRunE ::
  "(string \<Rightarrow> string \<Rightarrow> string option) \<Rightarrow> ((string \<times> string list) list \<Rightarrow> bool) \<Rightarrow> (string \<Rightarrow> string option) \<Rightarrow> string \<Rightarrow> string \<Rightarrow> string \<Rightarrow>
   (string option \<times> monitorCollector option) option" where
  "cmRunE = monitor_RunE"

section \<open>Properties\<close>

text \<open>Statistics without missing nested messages.\<close>

definition complete_stats :: "v1Metrics \<Rightarrow> bool" where
  "complete_stats s \<longleftrightarrow>
     (case v1_CPU s of None \<Rightarrow> True | Some c \<Rightarrow> cu_Usage c \<noteq> None \<and> cu_Throttling c \<noteq> None)
     \<and> (case v1_Memory s of None \<Rightarrow> True | Some m \<Rightarrow> mm_Usage m \<noteq> None \<and> mm_Kernel m \<noteq> None)"

definition the_series :: "ctrContainer \<Rightarrow> v1Metrics \<Rightarrow> ctrMetric \<Rightarrow> ctrSeries" where
  "the_series c stats m =
     \<lparr>se_name = fst (Desc m), se_names = snd (Desc m), se_type = cm_Vt m, se_value = the (cm_GetValues m stats),
      se_values = [cc_ContainerName c, cc_SandboxNamespace c, cc_PodName c]\<rparr>"

lemma se_values_the_series [simp]: "se_values (the_series c stats m) = [cc_ContainerName c, cc_SandboxNamespace c, cc_PodName c]"
  by (simp add: the_series_def)

lemmas monitor_values =
  metric_entry_def cpu_usage_def cpu_throttling_def mem_field_def mem_usage_def mem_kernel_def part_value_def

lemma no_extra_labels: "m \<in> set monitor_metrics \<Longrightarrow> cm_labels m = []"
  by (auto simp: monitor_metrics_def CpuMetrics_def MemoryMetrics_def metric_entry_def)

lemma new_series_eq:
  "m \<in> set monitor_metrics \<Longrightarrow> new_series c stats m = (if cm_GetValues m stats = None then None else Some (the_series c stats m))"
  by (auto simp: new_series_def the_series_def Desc_def no_extra_labels split: option.split)

lemma values_defined_iff: "(\<forall>m \<in> set monitor_metrics. cm_GetValues m stats \<noteq> None) \<longleftrightarrow> complete_stats stats"
  by (cases "v1_CPU stats"; cases "v1_Memory stats")
     (simp_all add: monitor_metrics_def CpuMetrics_def MemoryMetrics_def monitor_values complete_stats_def)

lemma ofold_snoc_map:
  "ofold (\<lambda>out x. map_option (\<lambda>y. out @ [y]) (f x)) out xs
   = (if \<exists>x \<in> set xs. f x = None then None else Some (out @ map (\<lambda>x. the (f x)) xs))"
  by (induction xs arbitrary: out) auto

lemma monitor_container_eq:
  "monitor_container task out c =
     (case GetContainerStatsV1 c (task (cc_ContainerID c)) of
        Inl _ \<Rightarrow> Some out
      | Inr stats \<Rightarrow> if complete_stats stats then Some (out @ map (the_series c stats) monitor_metrics) else None)"
  unfolding values_defined_iff [symmetric]
  by (auto simp: monitor_container_def ofold_snoc_map new_series_eq split: sum.split)

text \<open>The containers whose statistics are available.\<close>

definition monitored :: "(string \<Rightarrow> 'v2 taskResult) \<Rightarrow> (string \<times> strmap option) list \<Rightarrow> (ctrContainer \<times> v1Metrics) list" where
  "monitored task infos =
     List.map_filter (\<lambda>(i, info). case info of
                                    None \<Rightarrow> None
                                  | Some labels \<Rightarrow>
                                     (case GetContainerStatsV1 (container_of i labels) (task i) of
                                        Inl _ \<Rightarrow> None
                                      | Inr stats \<Rightarrow> Some (container_of i labels, stats))) infos"

lemma monitored_Cons:
  "monitored task ((i, info) # infos) =
     (case info of
        None \<Rightarrow> monitored task infos
      | Some labels \<Rightarrow> (case GetContainerStatsV1 (container_of i labels) (task i) of
                          Inl _ \<Rightarrow> monitored task infos
                        | Inr stats \<Rightarrow> (container_of i labels, stats) # monitored task infos))"
  by (simp add: monitored_def List.map_filter_def split: option.split sum.split)

lemma monitor_all:
  "ofold (monitor_container task) out (List.map_filter (\<lambda>(i, info). map_option (container_of i) info) infos)
   = (if list_all (\<lambda>(c, stats). complete_stats stats) (monitored task infos)
      then Some (out @ concat (map (\<lambda>(c, stats). map (the_series c stats) monitor_metrics) (monitored task infos))) else None)"
proof (induction infos arbitrary: out)
  case Nil
  then show ?case by (simp add: monitored_def List.map_filter_def)
next
  case (Cons x infos)
  obtain i info where x: "x = (i, info)" by force
  show ?case
  proof (cases info)
    case None
    then show ?thesis using Cons.IH by (simp add: x monitored_Cons List.map_filter_def)
  next
    case (Some labels)
    have "cc_ContainerID (container_of i labels) = i" by (simp add: container_of_def)
    with Some show ?thesis
      using Cons.IH by (simp add: x monitored_Cons List.map_filter_def monitor_container_eq split: sum.split)
  qed
qed


lemma series_names_distinct: "distinct (map (\<lambda>m. fst (Desc m)) monitor_metrics)"
  by (simp add: monitor_metrics_def CpuMetrics_def MemoryMetrics_def metric_entry_def Desc_def)

text \<open>The exported series are distinct for containers that differ in name, namespace or pod.\<close>

theorem monitor_series_distinct:
  assumes "distinct (map (\<lambda>(c, stats). [cc_ContainerName c, cc_SandboxNamespace c, cc_PodName c]) cs)"
  shows "distinct (map (\<lambda>s. (se_name s, se_values s)) (concat (map (\<lambda>(c, stats). map (the_series c stats) monitor_metrics) cs)))"
  using assms
proof (induction cs)
  case (Cons x cs)
  obtain c st where x: "x = (c, st)" by force
  have "distinct (map (\<lambda>s. (se_name s, se_values s)) (map (the_series c st) monitor_metrics))"
    using series_names_distinct by (auto simp: the_series_def distinct_map inj_on_def comp_def)
  then show ?case using Cons by (auto simp: x image_iff)
qed simp

text \<open>
  What a scrape sends has been described before; a registry that accepts descriptors with distinct names accepts the monitor, which
  then ends with its connection closed.
\<close>

theorem collected_are_described:
  assumes "newCollector NewContainerdClient address namespace = Inr c" "monitor_Collect containers task = Some out" "s \<in> set out"
  shows "(se_name s, se_names s) \<in> set (monitor_Describe c)"
proof -
  have c: "monitor_Describe c = map Desc monitor_metrics"
    using assms(1) by (auto simp: newCollector_def monitor_Describe_def monitor_metrics_def split: option.splits)
  obtain infos where i: "containers = Inr infos" using assms(2,3) by (cases containers) (auto simp: monitor_Collect_def GetContainers_def)
  have "out = concat (map (\<lambda>(c, stats). map (the_series c stats) monitor_metrics) (monitored task infos))"
    using assms(2) monitor_all [of task "[]" infos] by (auto simp: i monitor_Collect_def GetContainers_def split: if_splits)
  with assms(3) obtain c' stats m where m: "m \<in> set monitor_metrics" "s = the_series c' stats m" by auto
  then have "(se_name s, se_names s) = Desc m" by (simp add: the_series_def Desc_def no_extra_labels)
  with m(1) show ?thesis by (simp add: c)
qed

theorem monitor_command_runs:
  assumes "\<And>ds. distinct (map fst ds) \<Longrightarrow> register ds"
  shows "monitor_RunE NewContainerdClient register ListenAndServe address namespace port \<noteq> None
     \<and> (NewContainerdClient address namespace = None \<longrightarrow>
          (\<exists>c. monitor_RunE NewContainerdClient register ListenAndServe address namespace port = Some (ListenAndServe ('':'' @ port), Some c) \<and> \<not> mc_client c))"
proof -
  have "register (map Desc monitor_metrics)" using assms series_names_distinct by (simp add: comp_def)
  then show ?thesis
    by (auto simp: monitor_RunE_def newCollector_def monitor_Describe_def monitor_metrics_def monitor_cleanup_def split: option.split sum.split)
qed

end
