(* ===== verification/Archiver.thy ===== *)
theory Archiver
  imports Sample_List
begin

text \<open>
  The archiver, \<^verbatim>\<open>cmd/umc-archiver/cmds/main.go\<close>: saved files are copied to cloud storage, loaded into BigQuery, and removed. The file
  system, the JSON decoder and the answers of the two services are arguments; what happens outside of the process
  is recorded as a list of actions. \<^verbatim>\<open>strings.TrimSpace\<close> is modelled for ASCII space.
\<close>

section \<open>Paths and strings\<close>

fun clean_segs :: "bool \<Rightarrow> string list \<Rightarrow> string list \<Rightarrow> string list" where
  "clean_segs rooted acc [] = rev acc"
| "clean_segs rooted acc (s # ss) =
     (if s = '''' \<or> s = ''.'' then clean_segs rooted acc ss
      else if s = ''..''
      then (case acc of
              [] \<Rightarrow> clean_segs rooted (if rooted then [] else [''..'']) ss
            | t # ts \<Rightarrow> clean_segs rooted (if t = ''..'' then ''..'' # acc else ts) ss)
      else clean_segs rooted (s # acc) ss)"

definition path_Clean :: "string \<Rightarrow> string" where
  "path_Clean p =
     (let rooted = (p \<noteq> [] \<and> hd p = CHR ''/''); r = join_with ''/'' (clean_segs rooted [] (SplitChar CHR ''/'' p))
      in if rooted then CHR ''/'' # r else if r = '''' then ''.'' else r)"

definition path_Join :: "string list \<Rightarrow> string" where
  "path_Join elems =
     (let es = filter (\<lambda>e. e \<noteq> '''') elems in if es = [] then '''' else path_Clean (join_with ''/'' es))"

function ReplaceAll :: "string \<Rightarrow> string \<Rightarrow> string \<Rightarrow> string" where
  "ReplaceAll s old new =
     (if old = [] \<or> s = [] then s
      else if HasPrefix s old then new @ ReplaceAll (drop (length old) s) old new
      else hd s # ReplaceAll (tl s) old new)"
  by pat_completeness auto
termination by (relation "measure (\<lambda>(s, _, _). length s)") auto

declare ReplaceAll.simps [simp del]

definition is_space :: "char \<Rightarrow> bool" where
  "is_space c \<longleftrightarrow> c = CHR '' '' \<or> (9 \<le> (of_char c :: nat) \<and> (of_char c :: nat) \<le> 13)"

definition TrimSpace :: "string \<Rightarrow> string" where
  "TrimSpace s = rev (dropWhile is_space (rev (dropWhile is_space s)))"

section \<open>Options and services\<close>

record archiveOptions =
  ao_delete :: bool
  ao_bqTableID :: string
  ao_gcsBucket :: string
  ao_gcsFolder :: string
  ao_gcsKeepFolderParts :: "int list"
  ao_globs :: "string list"

datatype gcsAnswer = CopyFails | CloseZipFails | CloseGCSFails | Stored

datatype bqAnswer = RunFails | WaitFails | JobFails | Loaded

record services =
  as_NewBigQuery :: bool
  as_NewStorage :: bool
  as_Glob :: "string \<Rightarrow> string list option"
  as_ReadFile :: "string \<Rightarrow> string option"
  as_Store :: "string \<Rightarrow> gcsAnswer"
  as_Load :: "string \<Rightarrow> bqAnswer"
  as_Remove :: "string \<Rightarrow> bool"
  as_Labels :: "string \<Rightarrow> strmap"

datatype action = Store string string | Load string "string list" string | Remove string

text \<open>The error that ends a run, by the label of the counter of failures, or a panic.\<close>

datatype archiveError = Failure string | IndexOutOfRange

type_synonym 'a archived = "action list \<times> (archiveError + 'a)"

section \<open>Copying to cloud storage\<close>

fun keep_parts :: "string list \<Rightarrow> int list \<Rightarrow> string \<Rightarrow> string option" where
  "keep_parts parts [] folder = Some folder"
| "keep_parts parts (i # is) folder =
     (if 0 \<le> i \<and> i < int (length parts) then keep_parts parts is (path_Join [folder, parts ! nat i]) else None)"

definition gcs_object :: "archiveOptions \<Rightarrow> string \<Rightarrow> string option" where
  "gcs_object opt filename =
     (let folder = (if ao_gcsBucket opt \<noteq> '''' then keep_parts (SplitChar CHR ''/'' filename) (ao_gcsKeepFolderParts opt) ''''
                    else Some '''')
      in map_option (\<lambda>f. ReplaceAll (ao_gcsFolder opt) ''PATH'' f @ filepath_Base filename @ ''.gz'') folder)"

definition copyGCS :: "archiveOptions \<Rightarrow> services \<Rightarrow> string \<Rightarrow> string \<Rightarrow> unit archived" where
  "copyGCS opt w filename contents =
     (case gcs_object opt filename of
        None \<Rightarrow> ([], Inl IndexOutOfRange)
      | Some obj \<Rightarrow>
         (case as_Store w obj of
            CopyFails \<Rightarrow> ([], Inl (Failure ''gcs-copy-zip''))
          | CloseZipFails \<Rightarrow> ([], Inl (Failure ''gcs-close-zip''))
          | CloseGCSFails \<Rightarrow> ([], Inr ())
          | Stored \<Rightarrow> ([Store obj contents], Inr ())))"

section \<open>Loading into BigQuery\<close>

definition label_schema :: "services \<Rightarrow> string \<Rightarrow> string list" where
  "label_schema w contents =
     sort_Sort string_less (remdups (concat (map (\<lambda>line. map fst (as_Labels w line)) (SplitChar (CHR 0x0A) contents))))"

definition loadBigQuery :: "services \<Rightarrow> string \<Rightarrow> string \<Rightarrow> unit archived" where
  "loadBigQuery w filename contents =
     (case as_Load w filename of
        RunFails \<Rightarrow> ([], Inl (Failure ''bq-run-load''))
      | WaitFails \<Rightarrow> ([], Inl (Failure ''bq-wait-load''))
      | JobFails \<Rightarrow> ([], Inr ())
      | Loaded \<Rightarrow> ([Load filename (label_schema w contents) contents], Inr ()))"

section \<open>Archiving\<close>

definition andThen :: "'a archived \<Rightarrow> 'b archived \<Rightarrow> 'b archived" where
  "andThen a b = (case snd a of Inl e \<Rightarrow> (fst a, Inl e) | Inr _ \<Rightarrow> (fst a @ fst b, snd b))"

definition archiveFile :: "archiveOptions \<Rightarrow> services \<Rightarrow> string \<Rightarrow> unit archived" where
  "archiveFile opt w f =
     (case as_ReadFile w f of
        None \<Rightarrow> ([], Inl (Failure ''read-file''))
      | Some b \<Rightarrow>
         (let b = TrimSpace b
          in if b = [] then ([], Inr ())
             else andThen (if ao_gcsBucket opt \<noteq> '''' then copyGCS opt w f b else ([], Inr ()))
                 (andThen (if ao_bqTableID opt \<noteq> '''' then loadBigQuery w f b else ([], Inr ()))
                    (if as_Remove w f then ([Remove f], Inr ()) else ([], Inl (Failure ''delete-file''))))))"

fun archive_all :: "archiveOptions \<Rightarrow> services \<Rightarrow> string list \<Rightarrow> unit archived" where
  "archive_all opt w [] = ([], Inr ())"
| "archive_all opt w (f # fs) = andThen (archiveFile opt w f) (archive_all opt w fs)"

fun archive_globs :: "archiveOptions \<Rightarrow> services \<Rightarrow> string list \<Rightarrow> unit archived" where
  "archive_globs opt w [] = ([], Inr ())"
| "archive_globs opt w (g # gs) =
     (case as_Glob w g of
        None \<Rightarrow> ([], Inl (Failure ''create-glob''))
      | Some files \<Rightarrow> andThen (archive_all opt w files) (archive_globs opt w gs))"

definition archiveFiles :: "archiveOptions \<Rightarrow> services \<Rightarrow> unit archived" where
  "archiveFiles opt w =
     (if \<not> as_NewBigQuery w then ([], Inl (Failure ''bq-create-client''))
      else if \<not> as_NewStorage w then ([], Inl (Failure ''gcs-create-client''))
      else archive_globs opt w (ao_globs opt))"

section \<open>The command\<close>

text \<open>\<^verbatim>\<open>Format\<close> is the format of the time at the start; the folder is formatted once, also where the command runs forever.\<close>

definition preRunE :: "(string \<Rightarrow> string) \<Rightarrow> string list \<Rightarrow> archiveOptions \<Rightarrow> archiveOptions" where
  "preRunE Format args opt = opt\<lparr>ao_globs := args, ao_gcsFolder := Format (ao_gcsFolder opt)\<rparr>"

text \<open>What a run has done after some ticks, and the error that ended it, if any; each tick has answers of the services of its own.\<close>

fun archive_loop :: "archiveOptions \<Rightarrow> services list \<Rightarrow> action list \<times> archiveError option" where
  "archive_loop opt [] = ([], None)"
| "archive_loop opt (w # ws) =
     (case archiveFiles opt w of
        (acts, Inl err) \<Rightarrow> (acts, Some err)
      | (acts, Inr _) \<Rightarrow> (acts @ fst (archive_loop opt ws), snd (archive_loop opt ws)))"

definition archiver_runE :: "duration \<Rightarrow> archiveOptions \<Rightarrow> services list \<Rightarrow> action list \<times> archiveError option" where
  "archiver_runE frequency opt ticks = archive_loop opt (if frequency = 0 then take 1 ticks else ticks)"

section \<open>Properties\<close>

lemma fst_andThen: "fst (andThen a b) = fst a @ (case snd a of Inl _ \<Rightarrow> [] | Inr _ \<Rightarrow> fst b)"
  by (simp add: andThen_def split: sum.split)

text \<open>What a service that accepts a file has been given before the file is removed.\<close>

definition archived_first :: "archiveOptions \<Rightarrow> services \<Rightarrow> string \<Rightarrow> action list \<Rightarrow> bool" where
  "archived_first opt w f before \<longleftrightarrow>
     (\<exists>b. as_ReadFile w f = Some b \<and> TrimSpace b \<noteq> []
        \<and> (ao_gcsBucket opt \<noteq> '''' \<longrightarrow> (\<exists>obj. gcs_object opt f = Some obj \<and> Store obj (TrimSpace b) \<in> set before))
        \<and> (ao_bqTableID opt \<noteq> '''' \<longrightarrow> Load f (label_schema w (TrimSpace b)) (TrimSpace b) \<in> set before))"

definition safe_log :: "archiveOptions \<Rightarrow> services \<Rightarrow> action list \<Rightarrow> bool" where
  "safe_log opt w acts \<longleftrightarrow> (\<forall>xs f ys. acts = xs @ Remove f # ys \<longrightarrow> archived_first opt w f xs)"

lemma archived_first_mono: "archived_first opt w f xs \<Longrightarrow> set xs \<subseteq> set ys \<Longrightarrow> archived_first opt w f ys"
  by (fastforce simp: archived_first_def)

lemma safe_log_append: "safe_log opt w xs \<Longrightarrow> safe_log opt w ys \<Longrightarrow> safe_log opt w (xs @ ys)"
  unfolding safe_log_def
proof (intro allI impI)
  fix zs f ts
  assume xs: "\<forall>zs f ts. xs = zs @ Remove f # ts \<longrightarrow> archived_first opt w f zs"
    and ys: "\<forall>zs f ts. ys = zs @ Remove f # ts \<longrightarrow> archived_first opt w f zs" and "xs @ ys = zs @ Remove f # ts"
  then consider us where "xs = zs @ us" "us @ ys = Remove f # ts" | us where "zs = xs @ us" "ys = us @ Remove f # ts"
    by (auto simp: append_eq_append_conv2)
  then show "archived_first opt w f zs"
  proof cases
    case (1 us)
    then show ?thesis using xs ys by (cases us) (auto intro: archived_first_mono [of opt w f "[]"])
  next
    case (2 us)
    then show ?thesis using ys by (auto intro: archived_first_mono [of opt w f us])
  qed
qed

lemma safe_log_andThen: "safe_log opt w (fst a) \<Longrightarrow> safe_log opt w (fst b) \<Longrightarrow> safe_log opt w (fst (andThen a b))"
  by (auto simp: fst_andThen intro: safe_log_append split: sum.split)

lemma safe_log_no_remove: "\<forall>f. Remove f \<notin> set acts \<Longrightarrow> safe_log opt w acts"
  by (auto simp: safe_log_def)

lemma safe_archiveFile:
  assumes "\<forall>obj. as_Store w obj \<noteq> CloseGCSFails" "\<forall>f. as_Load w f \<noteq> JobFails"
  shows "safe_log opt w (fst (archiveFile opt w f))"
proof (cases "as_ReadFile w f")
  case None
  then show ?thesis by (simp add: archiveFile_def safe_log_no_remove)
next
  case (Some b)
  show ?thesis
  proof (cases "Remove f \<notin> set (fst (archiveFile opt w f))")
    case True
    moreover have "Remove g \<in> set (fst (archiveFile opt w f)) \<Longrightarrow> g = f" for g
      by (auto simp: archiveFile_def Let_def fst_andThen copyGCS_def loadBigQuery_def
          split: option.splits if_splits gcsAnswer.splits bqAnswer.splits sum.splits)
    ultimately show ?thesis by (intro safe_log_no_remove) blast
  next
    case False
    define pre where "pre = (if ao_gcsBucket opt \<noteq> '''' then fst (copyGCS opt w f (TrimSpace b)) else [])
        @ (if ao_bqTableID opt \<noteq> '''' then fst (loadBigQuery w f (TrimSpace b)) else [])"
    have acts: "fst (archiveFile opt w f) = pre @ [Remove f]"
      using False Some unfolding pre_def archiveFile_def
      by (auto simp: Let_def fst_andThen andThen_def copyGCS_def loadBigQuery_def
          split: option.splits if_splits gcsAnswer.splits bqAnswer.splits sum.splits)
    moreover have "archived_first opt w f pre"
      using False Some assms unfolding pre_def archiveFile_def archived_first_def
      by (auto simp: Let_def fst_andThen andThen_def copyGCS_def loadBigQuery_def
          split: option.splits if_splits gcsAnswer.splits bqAnswer.splits sum.splits)
    moreover have "\<forall>g. Remove g \<notin> set pre"
      by (auto simp: pre_def copyGCS_def loadBigQuery_def split: option.splits gcsAnswer.splits bqAnswer.splits)
    ultimately show ?thesis
      by (auto simp: safe_log_def append_eq_append_conv2 append_eq_Cons_conv Cons_eq_append_conv)
  qed
qed

lemma safe_archive_all:
  assumes "\<forall>obj. as_Store w obj \<noteq> CloseGCSFails" "\<forall>f. as_Load w f \<noteq> JobFails"
  shows "safe_log opt w (fst (archive_all opt w fs))" and "safe_log opt w (fst (archive_globs opt w gs))"
proof -
  show all: "safe_log opt w (fst (archive_all opt w fs))" for fs
    by (induction fs) (simp_all add: safe_log_no_remove safe_log_andThen safe_archiveFile assms)
  show "safe_log opt w (fst (archive_globs opt w gs))"
    by (induction gs) (simp_all add: safe_log_no_remove safe_log_andThen all split: option.split)
qed


definition ex_archive :: archiveOptions where
  "ex_archive = \<lparr>ao_delete = True, ao_bqTableID = '''', ao_gcsBucket = ''b'', ao_gcsFolder = ''x/PATH/'', ao_gcsKeepFolderParts = [1],
                 ao_globs = [''g'']\<rparr>"

definition ex_services :: "gcsAnswer \<Rightarrow> services" where
  "ex_services a = \<lparr>as_NewBigQuery = True, as_NewStorage = True, as_Glob = (\<lambda>_. Some [''d/e/f'']), as_ReadFile = (\<lambda>_. Some ''data ''),
                    as_Store = (\<lambda>_. a), as_Load = (\<lambda>_. Loaded), as_Remove = (\<lambda>_. True), as_Labels = (\<lambda>_. [])\<rparr>"

lemma ex_archived: "fst (archiveFiles ex_archive (ex_services Stored)) = [Store ''x/e/f.gz'' ''data'', Remove ''d/e/f'']"
  by code_simp


text \<open>
  A file whose upload fails when the writer is closed, or whose load job reports errors, is removed all the same, and so is
  every file when deletion is switched off.
\<close>

theorem failed_upload_is_removed:
  "fst (archiveFiles ex_archive (ex_services CloseGCSFails)) = [Remove ''d/e/f'']"
  by code_simp

theorem delete_option_ignored: "archiveFiles (opt\<lparr>ao_delete := d\<rparr>) w = archiveFiles opt w"
proof -
  have k: "gcs_object (opt\<lparr>ao_delete := d\<rparr>) = gcs_object opt" by (simp add: fun_eq_iff gcs_object_def)
  have f: "archiveFile (opt\<lparr>ao_delete := d\<rparr>) w = archiveFile opt w" 
    by (simp add: fun_eq_iff archiveFile_def copyGCS_def k Let_def split: option.split)
  have a: "archive_all (opt\<lparr>ao_delete := d\<rparr>) w fs = archive_all opt w fs" for fs by (induction fs) (simp_all add: f)
  have "archive_globs (opt\<lparr>ao_delete := d\<rparr>) w gs = archive_globs opt w gs" for gs
    by (induction gs) (simp_all add: a split: option.split)
  then show ?thesis by (simp add: archiveFiles_def)
qed

text \<open>A run does what its ticks do, up to the first that fails, and ends with its error.\<close>

theorem archive_loop_ends:
  "archive_loop opt ticks =
     (let ok = takeWhile (\<lambda>w. snd (archiveFiles opt w) = Inr ()) ticks; rest = drop (length ok) ticks
      in case rest of
           [] \<Rightarrow> (concat (map (\<lambda>w. fst (archiveFiles opt w)) ok), None)
         | w # _ \<Rightarrow> (concat (map (\<lambda>w. fst (archiveFiles opt w)) (ok @ [w])), Some (projl (snd (archiveFiles opt w)))))"
proof (induction ticks)
  case (Cons w ws)
  then show ?case by (cases "archiveFiles opt w"; cases "snd (archiveFiles opt w)") (auto simp: Let_def split: list.split)
qed simp

end
