(* ===== verification/File_Watch.thy ===== *)
theory File_Watch
  imports Go_Runtime
begin

text \<open>
  Watching files: \<^verbatim>\<open>pkg/watchconfig/watchconfig.go\<close>, which calls a function when the contents of a configuration file change, and
  \<^verbatim>\<open>pkg/log/log.go\<close>, which follows a file with the log level. What the file system shows at each event is an argument, and so
  is \<^verbatim>\<open>strconv.Atoi\<close>.
\<close>

section \<open>Configuration files\<close>

datatype fileView = StatFails | ReadFails gotime | Seen gotime string

record ConfigFile =
  cw_lastRead :: string
  cw_modTime :: gotime

definition read_file :: "fileView \<Rightarrow> ConfigFile option" where
  "read_file v = (case v of Seen t b \<Rightarrow> Some \<lparr>cw_lastRead = b, cw_modTime = t\<rparr> | _ \<Rightarrow> None)"

text \<open>The second component is \<^const>\<open>None\<close> for an error.\<close>

definition changed :: "fileView \<Rightarrow> ConfigFile \<Rightarrow> ConfigFile \<times> bool option" where
  "changed v cf =
     (case v of
        StatFails \<Rightarrow> (cf, None)
      | ReadFails t \<Rightarrow> if \<not> t > cw_modTime cf then (cf, Some False) else (cf, None)
      | Seen t b \<Rightarrow>
          if \<not> t > cw_modTime cf then (cf, Some False)
          else if cw_lastRead cf = b then (cf, Some False)
          else (cf\<lparr>cw_lastRead := b\<rparr>, Some True))"

datatype watchEvent = FileEvent fileView | EventsClosed | WatcherError | ErrorsClosed | Stop

text \<open>The loop: the number of calls of \<^verbatim>\<open>onChange\<close>, and whether it has returned.\<close>

fun watch_loop :: "watchEvent list \<Rightarrow> ConfigFile \<Rightarrow> nat \<Rightarrow> nat \<times> bool" where
  "watch_loop [] cf n = (n, False)"
| "watch_loop (FileEvent v # es) cf n =
     (let (cf, r) = changed v cf in watch_loop es cf (if r = Some True then n + 1 else n))"
| "watch_loop (EventsClosed # es) cf n = watch_loop es cf n"
| "watch_loop (WatcherError # es) cf n = watch_loop es cf n"
| "watch_loop (ErrorsClosed # es) cf n = watch_loop es cf n"
| "watch_loop (Stop # es) cf n = (n, True)"

definition WatchConfig :: "bool \<Rightarrow> fileView \<Rightarrow> bool \<Rightarrow> watchEvent list \<Rightarrow> (nat \<times> bool) option" where
  "WatchConfig newWatcher v added es =
     (if \<not> newWatcher then None
      else case read_file v of
             None \<Rightarrow> None
           | Some cf \<Rightarrow> if \<not> added then None else Some (watch_loop es cf 0))"

section \<open>The log level\<close>

definition int8_wrap :: "int \<Rightarrow> int" where
  "int8_wrap x = sint (of_int x :: 8 word)"

record logState =
  lg_Level :: int
  lg_last :: int

text \<open>The level is set unless the value is the last one; the result is the value, or \<^const>\<open>None\<close> for an error.\<close>

definition LoadLevel :: "(string \<Rightarrow> int option) \<Rightarrow> string option \<Rightarrow> int \<Rightarrow> int \<Rightarrow> int option \<times> int" where
  "LoadLevel Atoi contents lastLevel level =
     (case contents of
        None \<Rightarrow> (None, level)
      | Some b \<Rightarrow>
         (case Atoi b of
            None \<Rightarrow> (None, level)
          | Some n \<Rightarrow>
             (let l = int64_wrap (n * -1) in if lastLevel = l then (Some l, level) else (Some l, int8_wrap l))))"

definition level_event :: "(string \<Rightarrow> int option) \<Rightarrow> logState \<Rightarrow> string option \<Rightarrow> logState" where
  "level_event Atoi s contents =
     (let (r, level) = LoadLevel Atoi contents (lg_last s) (lg_Level s)
      in \<lparr>lg_Level = level, lg_last = (case r of None \<Rightarrow> 0 | Some l \<Rightarrow> l)\<rparr>)"

definition WatchLevel :: "(string \<Rightarrow> int option) \<Rightarrow> int \<Rightarrow> string option \<Rightarrow> string option list \<Rightarrow> logState option" where
  "WatchLevel Atoi level first es =
     (case LoadLevel Atoi first 0 level of
        (None, _) \<Rightarrow> None
      | (Some l, level) \<Rightarrow> Some (foldl (level_event Atoi) \<lparr>lg_Level = level, lg_last = l\<rparr> es))"

section \<open>Properties\<close>

text \<open>The contents that are seen with a modification time after the first one, before the watch is stopped.\<close>

fun newer :: "gotime \<Rightarrow> watchEvent list \<Rightarrow> string list" where
  "newer m [] = []"
| "newer m (FileEvent v # es) = (case v of Seen t b \<Rightarrow> if t > m then b # newer m es else newer m es | _ \<Rightarrow> newer m es)"
| "newer m (Stop # es) = []"
| "newer m (e # es) = newer m es"

lemma changed_cases:
  "changed v cf = (cf', r) \<Longrightarrow>
     cw_modTime cf' = cw_modTime cf
     \<and> (r = Some True \<longleftrightarrow> (\<exists>t b. v = Seen t b \<and> t > cw_modTime cf \<and> b \<noteq> cw_lastRead cf))
     \<and> cw_lastRead cf' = (case v of Seen t b \<Rightarrow> if t > cw_modTime cf then b else cw_lastRead cf | _ \<Rightarrow> cw_lastRead cf)"
  by (auto simp: changed_def split: fileView.splits if_splits)

lemma watch_loop_counts:
  "fst (watch_loop es cf n) = n + (length (remdups_adj (cw_lastRead cf # newer (cw_modTime cf) es)) - 1)"
proof (induction es arbitrary: cf n)
  case (Cons e es)
  have pos: "0 < length (remdups_adj (x # xs))" for x and xs :: "string list" by simp
  show ?case
  proof (cases e)
    case (FileEvent v)
    obtain cf' r where c: "changed v cf = (cf', r)" by force
    then have "fst (watch_loop (e # es) cf n) = fst (watch_loop es cf' (if r = Some True then n + 1 else n))" by (simp add: FileEvent)
    also have "\<dots> = n + (length (remdups_adj (cw_lastRead cf # newer (cw_modTime cf) (e # es))) - 1)"
      using changed_cases [OF c] Cons.IH [of cf'] pos by (cases v) (auto simp: FileEvent)
    finally show ?thesis .
  qed (simp_all add: Cons.IH)
qed simp

text \<open>
  C40. The function is called once for every change of the contents: over any sequence of events, however many of them concern other files
  or fail, the number of calls is the number of times the contents, read with a modification time after that of the
  first read, differ from the contents before.
\<close>

theorem changes_are_counted:
  assumes "WatchConfig True (Seen m b) True es = Some (n, stopped)"
  shows "n = length (remdups_adj (b # newer m es)) - 1 \<and> (stopped \<longleftrightarrow> Stop \<in> set es)"
proof -
  have "snd (watch_loop es cf k) \<longleftrightarrow> Stop \<in> set es" for cf k
    by (induction es cf k rule: watch_loop.induct) (auto split: prod.split)
  then show ?thesis
    using assms watch_loop_counts [of es "\<lparr>cw_lastRead = b, cw_modTime = m\<rparr>" 0]
    by (auto simp: WatchConfig_def read_file_def) (metis fst_conv snd_conv)+
qed

definition ex_events :: "watchEvent list" where
  "ex_events = [FileEvent (Seen 1 ''x''), FileEvent (Seen 2 ''b''), FileEvent StatFails, FileEvent (Seen 3 ''b''), FileEvent (Seen 4 ''a''), Stop]"

theorem changes_are_counted_witness:
  "WatchConfig True (Seen 1 ''a'') True ex_events = Some (2, True) \<and> 2 = length (remdups_adj (''a'' # newer 1 ex_events)) - 1"
proof -
  have "WatchConfig True (Seen 1 ''a'') True ex_events = Some (2, True)" by code_simp
  with changes_are_counted [OF this] show ?thesis by blast
qed

text \<open>
  The log level follows the file as long as every read succeeds; a failed read sets the remembered value to 0, so that a
  change back to level 0 right after it is not applied.
\<close>

theorem level_follows_file:
  assumes "lg_last s = l" "lg_Level s = int8_wrap l" "\<forall>c \<in> set es. \<exists>b n. c = Some b \<and> Atoi b = Some n"
  shows "lg_Level (foldl (level_event Atoi) s es) = int8_wrap (lg_last (foldl (level_event Atoi) s es))"
  using assms
proof (induction es arbitrary: s l)
  case (Cons c es)
  then obtain b n where "c = Some b" "Atoi b = Some n" by auto
  then have "lg_Level (level_event Atoi s c) = int8_wrap (lg_last (level_event Atoi s c))"
    using Cons.prems(1,2) by (auto simp: level_event_def LoadLevel_def Let_def)
  then show ?case using Cons.IH [OF refl, of "level_event Atoi s c"] Cons.prems(3) by simp
qed simp

theorem level_stuck_after_failed_read:
  assumes "Atoi b = Some 0"
  shows "lg_Level (level_event Atoi (level_event Atoi s None) (Some b)) = lg_Level s"
  by (simp add: level_event_def LoadLevel_def Let_def assms int64_wrap_def)

end
