(* ===== verification/Spec2Isabelle.thy ===== *)
theory Spec2Isabelle
  imports Labels Aggregation_Levels Value_Reader Cadvisor_Client Registration Collector_Process Container_Monitor Archiver File_Watch
begin

text \<open>
  \<^bold>\<open>The usage-metrics-collector.\<close>

  The program has two long-running parts. On every node a \<^emph>\<open>sampler\<close> (\<^verbatim>\<open>pkg/sampler\<close>) reads the cgroup
  pseudo files or asks containerd and cAdvisor, keeps the last samples in a ring, and pushes summaries to the
  collectors it is connected to. The \<^emph>\<open>collector\<close> (\<^verbatim>\<open>pkg/collector\<close>) receives the pushed messages
  (\<^verbatim>\<open>pkg/collector/utilization\<close>), registers itself with the samplers, lists Kubernetes objects, reads quantities from
  them and from the utilization, files each quantity under its labels, aggregates level by level, and exports gauges
  and histograms to Prometheus, from a cache of responses, and samples to local files. Beside them are an archiver of
  the saved files, a monitor that exports the statistics of containerd, and a watcher of configuration files.

  \<^bold>\<open>Theories.\<close>
  \<^item> \<^verbatim>\<open>UMC_Prelude\<close>: Go maps as association lists (an iteration order is explicit and theorems quantify over it), lists,
    the locales of keyed stores and of transition systems (the state machines of the servers and of
    the dialling). \<^verbatim>\<open>Go_Runtime\<close>: strings, paths, times and durations with their saturation, 64 bit
    wrap-around, sorting. \<^verbatim>\<open>Go_Float\<close>: binary64 as rationals with rounding to nearest even, infinities and NaN; a
    conversion that is out of range is an argument of the definitions that use it. \<^verbatim>\<open>Percentile\<close>: the floating point
    index of a percentile never leaves the slice.
  \<^item> \<^verbatim>\<open>Quantity_Spec\<close>: the locale of the arithmetic of \<^verbatim>\<open>resource.Quantity\<close>, a package outside the repository;
    interpreted on decimals. \<^verbatim>\<open>Kube_Objects\<close>: the fields of Kubernetes objects that are read.
    \<^verbatim>\<open>Collector_Config\<close>: the types of \<^verbatim>\<open>pkg/api/collectorcontrollerv1alpha1\<close>.
  \<^item> \<^verbatim>\<open>Extension_Labels\<close>, \<^verbatim>\<open>Builtin_Labels\<close>, \<^verbatim>\<open>Labels\<close>: \<^verbatim>\<open>extension_labels.go\<close> (the structs of 100 fields are lists of
    length 100), \<^verbatim>\<open>builtin_labels.go\<close>, \<^verbatim>\<open>labels.go\<close>. Masks are shown to satisfy one contract (locale \<^verbatim>\<open>masking\<close>) for
    each kind of label and for their combination: keys are merged exactly if they are exported alike.
  \<^item> \<^verbatim>\<open>Aggregation\<close>, \<^verbatim>\<open>Aggregation_Levels\<close>: \<^verbatim>\<open>operations.go\<close>, \<^verbatim>\<open>metric.go\<close>, \<^verbatim>\<open>AggregateAndCollect\<close>. Each operation refines its
    specification on rationals; sums conserve totals and roll up; the result does not depend on the order of a map;
    exported series are distinct and nothing panics.
  \<^item> \<^verbatim>\<open>Value_Reader\<close>: \<^verbatim>\<open>values.go\<close>, \<^verbatim>\<open>util.go\<close>. \<^verbatim>\<open>Metrics_Collection\<close> and \<^verbatim>\<open>Metrics_Collection_Props\<close>: the collect functions of
    \<^verbatim>\<open>collector.go\<close>. \<^verbatim>\<open>Sample_List\<close>: \<^verbatim>\<open>local.go\<close>. \<^verbatim>\<open>Collection_Run\<close>: one collection, from the registry of functions
    to the retained samples. \<^verbatim>\<open>Collection_Safety\<close>: a new collector, and exactly when one of its collections panics.
    \<^verbatim>\<open>Metrics_Server\<close>: \<^verbatim>\<open>cmd/metrics-prometheus-collector/cmd/cmd.go\<close> and \<^verbatim>\<open>cache.go\<close> as a
    transition system, with invariants by rule induction. \<^verbatim>\<open>Collector_Process\<close>: the command of the collector, and what holds of the
    process in every state from there on.
  \<^item> \<^verbatim>\<open>Collector_Control\<close>: listing, indexing, readiness and registration. \<^verbatim>\<open>Registration\<close>: cluster scoped objects, the gauges of
    a cycle, and the race of the goroutines that register. \<^verbatim>\<open>Config_Validation\<close>: both validations, defaults
    and initialisation.
  \<^item> \<^verbatim>\<open>Sampler_Api\<close>: messages. \<^verbatim>\<open>Cgroup_Reader\<close>: \<^verbatim>\<open>cgroup.go\<close>. \<^verbatim>\<open>Sample_Cache\<close>, \<^verbatim>\<open>Sample_Cache_Props\<close>: \<^verbatim>\<open>cache.go\<close>; the
    ring implements a bounded log (locale \<^verbatim>\<open>bounded_log\<close>). \<^verbatim>\<open>Sampler_Server\<close>, \<^verbatim>\<open>Sampler_Server_Props\<close>: \<^verbatim>\<open>server.go\<close>; the
    table of connections (locale \<^verbatim>\<open>connection_table\<close>) stays consistent under every sequence of events.
    \<^verbatim>\<open>Sampler_Config\<close>: the sampler's configuration, its start and the sampling loop. \<^verbatim>\<open>Cadvisor_Client\<close>:
    \<^verbatim>\<open>pkg/cadvisor/client\<close>, and the network counters of a sample as sums over the answer of the kubelet.
  \<^item> \<^verbatim>\<open>Utilization_Server\<close>: \<^verbatim>\<open>sampler_collector.go\<close>, the cache of messages by node (locale \<^verbatim>\<open>node_cache\<close>, a keyed store).
    \<^verbatim>\<open>Service_Start\<close>: how both servers start and when the health check succeeds; the loop over DNS.
  \<^item> \<^verbatim>\<open>Container_Monitor\<close>: \<^verbatim>\<open>pkg/ctrstats\<close> and \<^verbatim>\<open>cmd/container-monitor\<close>. \<^verbatim>\<open>Archiver\<close>: \<^verbatim>\<open>cmd/umc-archiver\<close>.
    \<^verbatim>\<open>File_Watch\<close>: \<^verbatim>\<open>pkg/watchconfig\<close> and \<^verbatim>\<open>pkg/log\<close>.
  \<^item> This theory: the path of a sample from the ring of the sampler to the usage that the collector works with.

  \<^bold>\<open>Conventions.\<close> A struct is a record whose fields carry a short prefix, an operation on a receiver takes it as its
  last argument or returns it updated. A panic is \<^const>\<open>None\<close> or a value of an error type where an error can be returned as
  well. Goroutines are steps or events whose sequences are arbitrary; locks make each of them atomic as in the code.
  What other packages do (the Kubernetes client, gRPC, containerd, cloud services, decoders, file systems, clocks) is
  an argument.

  \<^bold>\<open>Bounds.\<close> Loops that could go on are over the events they consume. The attempts of a push are the configured
  number of retries, those of a cycle of the response cache 20, those of a tick of the sampling loop an argument
  (the constant of the retry package). No definition uses fuel.

  \<^bold>\<open>Not modelled.\<close> Packages of others: gRPC, REST gateways, HTTP, DNS, decoders and the leader election of client-go are arguments
  or steps, so what they do between the calls is not part of the model; log output, gauges about the program itself
  and latency timers, which carry no state that is read (what is published of a timer is modelled, its duration is not); generated
  code (its messages are records); flags and main functions; support for tests.
\<close>

section \<open>From the sampler to the collector\<close>

text \<open>The keys that the cgroup reader makes: ids, and no names.\<close>

definition id_key :: "ContainerKey \<Rightarrow> bool" where
  "id_key k \<longleftrightarrow> ck_ContainerID k \<noteq> '''' \<and> ck_PodUID k \<noteq> '''' \<and> ck_NamespaceName k = '''' \<and> ck_ContainerName k = '''' \<and> ck_PodName k = ''''"

lemma summary_key_listed: "id_key k \<Longrightarrow> summary_key (list_container s (k, v)) = Some k"
  by (simp add: id_key_def summary_key_def list_container_def Let_def ContainerKey_zero_def)

lemma usage_summary_unique:
  assumes "\<And>n r c. (n, r) \<in> set ms \<Longrightarrow> c \<in> set (lr_Containers r) \<Longrightarrow> summary_key c = Some k \<Longrightarrow> c\<lparr>us_NodeName := n\<rparr> = u"
    and "(n, r) \<in> set ms" "c \<in> set (lr_Containers r)" "summary_key c = Some k"
  shows "map_of (GetContainerUsageSummary ms) k = Some u"
proof -
  have "(k, u') \<in> set (usage_entries ms) \<longleftrightarrow> Some u = Some u'" for u'
    using assms by (fastforce simp: usage_entries_def map_filter_mem)
  from map_of_rev_unique [OF this] show ?thesis
    by (simp add: GetContainerUsageSummary_entries alist.get_puts split: option.split)
qed

lemma usage_summary_none:
  "\<not> (\<exists>(n, r) \<in> set ms. \<exists>c \<in> set (lr_Containers r). summary_key c = Some k) \<Longrightarrow> map_of (GetContainerUsageSummary ms) k = None"
  using map_of_rev_unique [of k "usage_entries ms" None]
  by (fastforce simp: GetContainerUsageSummary_entries alist.get_puts usage_entries_def map_filter_mem split: option.split)

lemma kept_key: "kept s (map ss_containers xs) k \<noteq> [] \<Longrightarrow> \<exists>x \<in> set xs. k \<in> fst ` set (ss_containers x)"
  by (force simp: kept_def dest: map_of_SomeD split: option.splits if_splits)

text \<open>A listing that has just been pushed is what the server returns for its node; every other node is as before.\<close>

lemma pushed_listing:
  fixes now :: gotime
  assumes "n \<noteq> ''''" "lr_NodeName resp = n" "0 \<le> sv_ttl srv" "gomap_wf (sv_Responses srv)"
  defines "ms \<equiv> GetMetrics '''' now (snd (PushMetrics [Msg now resp] srv))"
  shows "(n, resp\<lparr>lr_Timestamp := now\<rparr>) \<in> set ms"
    and "(m, r) \<in> set ms \<Longrightarrow> m = n \<and> r = resp\<lparr>lr_Timestamp := now\<rparr> \<or> m \<noteq> n \<and> (m, r) \<in> set (sv_Responses srv)"
proof -
  define r' where "r' = resp\<lparr>lr_Timestamp := now\<rparr>"
  have "snd (PushMetrics [Msg now resp] srv) = CacheMetrics r' srv" using assms(1,2) by (simp add: r'_def)
  moreover have "lr_NodeName r' = n" "lr_Timestamp r' = now" using assms(2) by (simp_all add: r'_def)
  ultimately show "(n, resp\<lparr>lr_Timestamp := now\<rparr>) \<in> set ms"
    and "(m, r) \<in> set ms \<Longrightarrow> m = n \<and> r = resp\<lparr>lr_Timestamp := now\<rparr> \<or> m \<noteq> n \<and> (m, r) \<in> set (sv_Responses srv)"
    unfolding r'_def [symmetric]
    using assms(1,3,4) gomap_wf_update [OF assms(4), of n r']
    by (auto simp: ms_def GetMetrics_def getMetrics_def CacheMetrics_def expired_def gomap_wf_mem_iff
        time_sub_def max_duration_def min_duration_def split: if_splits)
qed

text \<open>The usage summary has, for a key that only the listing of one node can carry, the entry of that listing.\<close>

lemma usage_summary_of_listing:
  assumes own: "(n, r') \<in> set ms" and listed: "lr_Containers r' = map (list_container s) cs"
    and wf: "gomap_wf cs" and ids: "\<And>k v. (k, v) \<in> set cs \<Longrightarrow> id_key k"
    and only: "\<And>m r c. (m, r) \<in> set ms \<Longrightarrow> c \<in> set (lr_Containers r) \<Longrightarrow> summary_key c = Some k \<Longrightarrow> m = n \<and> r = r'"
  shows "map_of (GetContainerUsageSummary ms) k
    = map_option (\<lambda>v. (list_container s (k, v))\<lparr>us_NodeName := n\<rparr>) (map_of cs k)"
proof -
  have key: "m = n \<and> (\<exists>v. map_of cs k = Some v \<and> c = list_container s (k, v))"
    if "(m, r) \<in> set ms" "c \<in> set (lr_Containers r)" "summary_key c = Some k" for m r c
    using only [OF that] that(2,3) ids wf by (auto simp: listed summary_key_listed gomap_wf_mem_iff)
  show ?thesis
  proof (cases "map_of cs k")
    case None
    then have "\<not> (\<exists>(m, r) \<in> set ms. \<exists>c \<in> set (lr_Containers r). summary_key c = Some k)" using key by fastforce
    then show ?thesis using None by (simp add: usage_summary_none)
  next
    case (Some v)
    then have "(k, v) \<in> set cs" using wf by (simp add: gomap_wf_mem_iff)
    then have "list_container s (k, v) \<in> set (lr_Containers r')" "summary_key (list_container s (k, v)) = Some k"
      by (auto simp: listed summary_key_listed ids)
    from usage_summary_unique [OF _ own this] key Some show ?thesis by fastforce
  qed
qed



definition ex_key :: ContainerKey where
  "ex_key = ContainerKey_zero\<lparr>ck_ContainerID := ''c1'', ck_PodUID := ''u1''\<rparr>"

definition ex_id_sample :: "u64 \<Rightarrow> sampleInstants" where
  "ex_id_sample v = \<lparr>ss_containers = [(ex_key, si_zero\<lparr>si_HasCPUData := True, si_CPUCoresNanoSec := v\<rparr>)], ss_node = []\<rparr>"


end
